(* ===== verification/C_Prelude.thy ===== *)
theory C_Prelude
  imports Main
begin

text \<open>
  The run of a C function as an explicit state transformer. A run starts in a world of
  type \<open>'w\<close> and ends in an outcome and a new world. The outcome records every way a C
  call can end: it returns, the process calls \<open>exit\<close>, the thread calls
  \<open>pthread_exit\<close>, a signal kills the process, the behaviour is undefined, it waits for ever on a
  lock it holds itself, or (only for
  loops that the source does not bound) it is still running when the scripted input or the
  fuel of the model ends.

  The theory also holds the fact collections of the development and the frame predicates
  \<open>keeps\<close> and \<open>preserves\<close>, with one rule per program construct, from which the
  frame lemmas of every component follow by \<open>auto intro\<close>.
\<close>

section \<open>Fact collections\<close>

named_theorems run_simps \<open>equations that execute the primitives on a given world\<close>
named_theorems frame_intros \<open>rules for keeps and preserves\<close>

section \<open>Outcomes\<close>

datatype ub =
    Buf_Overflow       \<comment> \<open>a write past the end of an array\<close>
  | Str_Overread       \<comment> \<open>a string read from an array without a terminator\<close>
  | Null_Deref         \<comment> \<open>a null pointer dereferenced, as after a failed allocation\<close>
  | Bad_Mutex          \<comment> \<open>a mutex used before its initialisation or after its destruction\<close>
  | Int_Overflow       \<comment> \<open>a signed integer operation out of range\<close>
  | Bad_Stream         \<comment> \<open>a stream used after it was closed\<close>
  | Bad_Thread         \<comment> \<open>a thread identifier used that no thread has\<close>

datatype 'a outcome =
    Ret 'a
  | Exit int
  | Thread_Exit
  | Sig_Killed
  | Undef ub
  | Blocked            \<comment> \<open>waits for ever on a lock that this run itself holds\<close>
  | Still_Running

type_synonym ('w, 'a) prog = "'w \<Rightarrow> 'a outcome \<times> 'w"

definition mret :: "'a \<Rightarrow> ('w, 'a) prog" where
  "mret a = (\<lambda>w. (Ret a, w))"

definition mstop :: "'a outcome \<Rightarrow> ('w, 'a) prog" where
  "mstop r = (\<lambda>w. (r, w))"

definition mget :: "('w \<Rightarrow> 'a) \<Rightarrow> ('w, 'a) prog" where
  "mget f = (\<lambda>w. (Ret (f w), w))"

definition mmod :: "('w \<Rightarrow> 'w) \<Rightarrow> ('w, unit) prog" where
  "mmod f = (\<lambda>w. (Ret (), f w))"

definition mbind :: "('w, 'a) prog \<Rightarrow> ('a \<Rightarrow> ('w, 'b) prog) \<Rightarrow> ('w, 'b) prog" where
  "mbind m f = (\<lambda>w. case m w of
      (Ret a, w') \<Rightarrow> f a w'
    | (Exit c, w') \<Rightarrow> (Exit c, w')
    | (Thread_Exit, w') \<Rightarrow> (Thread_Exit, w')
    | (Sig_Killed, w') \<Rightarrow> (Sig_Killed, w')
    | (Undef u, w') \<Rightarrow> (Undef u, w')
    | (Blocked, w') \<Rightarrow> (Blocked, w')
    | (Still_Running, w') \<Rightarrow> (Still_Running, w'))"

definition mseq :: "('w, 'a) prog \<Rightarrow> ('w, 'b) prog \<Rightarrow> ('w, 'b) prog" where
  "mseq m n = mbind m (\<lambda>_. n)"

abbreviation outcome_of :: "('w, 'a) prog \<Rightarrow> 'w \<Rightarrow> 'a outcome" where
  "outcome_of m w \<equiv> fst (m w)"

abbreviation world_after :: "('w, 'a) prog \<Rightarrow> 'w \<Rightarrow> 'w" where
  "world_after m w \<equiv> snd (m w)"

lemma mret_run [run_simps]: "mret a w = (Ret a, w)"
  by (simp add: mret_def)

lemma mstop_run [run_simps]: "mstop r w = (r, w)"
  by (simp add: mstop_def)

lemma mget_run [run_simps]: "mget f w = (Ret (f w), w)"
  by (simp add: mget_def)

lemma mmod_run [run_simps]: "mmod f w = (Ret (), f w)"
  by (simp add: mmod_def)

text \<open>
  A bind is executed once its first part has been: the rewrite is conditional on the
  outcome of the first part, so that it never splits a run that is not known yet.
\<close>

lemma mbind_Ret [run_simps]: "m w = (Ret a, w') \<Longrightarrow> mbind m f w = f a w'"
  by (simp add: mbind_def)

lemma mbind_Exit [run_simps]: "m w = (Exit c, w') \<Longrightarrow> mbind m f w = (Exit c, w')"
  by (simp add: mbind_def)

lemma mbind_Thread_Exit [run_simps]:
  "m w = (Thread_Exit, w') \<Longrightarrow> mbind m f w = (Thread_Exit, w')"
  by (simp add: mbind_def)

lemma mbind_Sig_Killed [run_simps]:
  "m w = (Sig_Killed, w') \<Longrightarrow> mbind m f w = (Sig_Killed, w')"
  by (simp add: mbind_def)

lemma mbind_Undef [run_simps]: "m w = (Undef u, w') \<Longrightarrow> mbind m f w = (Undef u, w')"
  by (simp add: mbind_def)

lemma mbind_Blocked [run_simps]: "m w = (Blocked, w') \<Longrightarrow> mbind m f w = (Blocked, w')"
  by (simp add: mbind_def)

lemma mbind_Still_Running [run_simps]: "m w = (Still_Running, w') \<Longrightarrow> mbind m f w = (Still_Running, w')"
  by (simp add: mbind_def)

lemma mseq_run [run_simps]: "mseq m n w = mbind m (\<lambda>_. n) w"
  by (simp add: mseq_def)

lemma mbind_mget: "mbind (mget f) g w = g (f w) w"
  by (simp add: mbind_def mget_def)

lemma mbind_cases:
  assumes "mbind m f w = (r, w'')"
  obtains (Ret) a w' where "m w = (Ret a, w')" and "f a w' = (r, w'')"
  | (Stop) r' where "m w = (r', w'')" and "\<And>a. r' \<noteq> Ret a" and "\<And>a. r \<noteq> Ret a"
  using assms
  by (cases "m w"; cases "fst (m w)") (auto simp: mbind_def)

lemma mbind_RetE:
  assumes "mbind m f w = (Ret b, w'')"
  obtains a w' where "m w = (Ret a, w')" and "f a w' = (Ret b, w'')"
  using assms by (cases rule: mbind_cases) auto

text \<open>
  The definitions themselves, for the execution of a straight-line run whose every
  condition the simplifier can decide.
\<close>

lemmas exec_defs = mbind_def mseq_def mret_def mget_def mmod_def mstop_def Let_def

text \<open>The monad laws.\<close>

lemma mbind_mret_left [simp]: "mbind (mret a) f = f a"
  by (rule ext) (simp add: run_simps)

lemma mbind_mret_right [simp]: "mbind m mret = m"
  by (rule ext) (auto simp: mbind_def mret_def split: prod.splits outcome.splits)

lemma mbind_assoc: "mbind (mbind m f) g = mbind m (\<lambda>a. mbind (f a) g)"
  by (rule ext) (auto simp: mbind_def split: prod.splits outcome.splits)

section \<open>Frames and invariants of runs\<close>

text \<open>
  \<open>preserves I m\<close>: the predicate \<open>I\<close> holds after every run of \<open>m\<close> that starts
  with it, however the run ends. \<open>keeps f m\<close>: no run of \<open>m\<close> changes the part
  \<open>f\<close> of the world.
\<close>

definition preserves :: "('w \<Rightarrow> bool) \<Rightarrow> ('w, 'a) prog \<Rightarrow> bool" where
  "preserves I m \<longleftrightarrow> (\<forall>w. I w \<longrightarrow> I (world_after m w))"

definition keeps :: "('w \<Rightarrow> 'c) \<Rightarrow> ('w, 'a) prog \<Rightarrow> bool" where
  "keeps f m \<longleftrightarrow> (\<forall>w. f (world_after m w) = f w)"

lemma preservesI: "(\<And>w. I w \<Longrightarrow> I (world_after m w)) \<Longrightarrow> preserves I m"
  by (simp add: preserves_def)

lemma preservesD: "preserves I m \<Longrightarrow> I w \<Longrightarrow> m w = (r, w') \<Longrightarrow> I w'"
  by (auto simp: preserves_def dest: spec [of _ w])

lemma keepsI: "(\<And>w. f (world_after m w) = f w) \<Longrightarrow> keeps f m"
  by (simp add: keeps_def)

lemma keepsD: "keeps f m \<Longrightarrow> m w = (r, w') \<Longrightarrow> f w' = f w"
  by (auto simp: keeps_def dest: spec [of _ w])

lemma keeps_world_after: "keeps f m \<Longrightarrow> f (world_after m w) = f w"
  by (simp add: keeps_def)

lemma preserves_mret [frame_intros, intro]: "preserves I (mret a)"
  by (simp add: preserves_def mret_def)

lemma preserves_mstop [frame_intros, intro]: "preserves I (mstop r)"
  by (simp add: preserves_def mstop_def)

lemma preserves_mget [frame_intros, intro]: "preserves I (mget f)"
  by (simp add: preserves_def mget_def)

lemma preserves_mmod: "(\<And>w. I w \<Longrightarrow> I (f w)) \<Longrightarrow> preserves I (mmod f)"
  by (simp add: preserves_def mmod_def)

lemma preserves_mbind [frame_intros]:
  assumes "preserves I m" and "\<And>a. preserves I (f a)"
  shows "preserves I (mbind m f)"
proof (rule preservesI)
  fix w assume w: "I w"
  obtain r w' where run: "m w = (r, w')" by (cases "m w")
  from assms(1) w run have "I w'" by (rule preservesD)
  with assms(2) run show "I (world_after (mbind m f) w)"
    by (cases r) (auto simp: mbind_def preserves_def)
qed

lemma preserves_mseq [frame_intros]:
  "preserves I m \<Longrightarrow> preserves I n \<Longrightarrow> preserves I (mseq m n)"
  by (simp add: mseq_def preserves_mbind)

lemma preserves_if [frame_intros]:
  "(b \<Longrightarrow> preserves I m) \<Longrightarrow> (\<not> b \<Longrightarrow> preserves I n) \<Longrightarrow> preserves I (if b then m else n)"
  by simp

lemma keeps_preserves: "(\<And>c. preserves (\<lambda>w. f w = c) m) \<Longrightarrow> keeps f m"
  by (simp add: preserves_def keeps_def)

lemma preserves_keeps: "keeps f m \<Longrightarrow> preserves (\<lambda>w. P (f w)) m"
  by (simp add: preserves_def keeps_def)

lemma keeps_mret [frame_intros, intro]: "keeps f (mret a)"
  by (simp add: keeps_def mret_def)

lemma keeps_mstop [frame_intros, intro]: "keeps f (mstop r)"
  by (simp add: keeps_def mstop_def)

lemma keeps_mget [frame_intros, intro]: "keeps f (mget g)"
  by (simp add: keeps_def mget_def)

lemma keeps_mmod: "(\<And>w. f (g w) = f w) \<Longrightarrow> keeps f (mmod g)"
  by (simp add: keeps_def mmod_def)

lemma keeps_mbind [frame_intros]:
  assumes "keeps f m" and "\<And>a. keeps f (g a)"
  shows "keeps f (mbind m g)"
proof (rule keepsI)
  fix w
  obtain r w' where run: "m w = (r, w')" by (cases "m w")
  with assms(1) have "f w' = f w" by (rule keepsD)
  with assms(2) run show "f (world_after (mbind m g) w) = f w"
    by (cases r) (auto simp: mbind_def keeps_def)
qed

lemma keeps_mseq [frame_intros]: "keeps f m \<Longrightarrow> keeps f n \<Longrightarrow> keeps f (mseq m n)"
  by (simp add: mseq_def keeps_mbind)

lemma keeps_if [frame_intros]:
  "(b \<Longrightarrow> keeps f m) \<Longrightarrow> (\<not> b \<Longrightarrow> keeps f n) \<Longrightarrow> keeps f (if b then m else n)"
  by simp

lemma preserves_option [frame_intros]:
  "preserves I m \<Longrightarrow> (\<And>x. preserves I (n x)) \<Longrightarrow> preserves I (case y of None \<Rightarrow> m | Some x \<Rightarrow> n x)"
  by (cases y) simp_all

lemma preserves_prod [frame_intros]:
  "(\<And>x y. preserves I (n x y)) \<Longrightarrow> preserves I (case p of (x, y) \<Rightarrow> n x y)"
  by (cases p) simp

lemma keeps_option [frame_intros]:
  "keeps f m \<Longrightarrow> (\<And>x. keeps f (n x)) \<Longrightarrow> keeps f (case y of None \<Rightarrow> m | Some x \<Rightarrow> n x)"
  by (cases y) simp_all

lemma keeps_prod [frame_intros]: "(\<And>x y. keeps f (n x y)) \<Longrightarrow> keeps f (case p of (x, y) \<Rightarrow> n x y)"
  by (cases p) simp

text \<open>
  \<open>commutes g m\<close>: the run of \<open>m\<close> neither reads nor writes what \<open>g\<close> changes in the world.
\<close>

definition commutes :: "('w \<Rightarrow> 'w) \<Rightarrow> ('w, 'a) prog \<Rightarrow> bool" where
  "commutes g m \<longleftrightarrow> (\<forall>w. m (g w) = (outcome_of m w, g (world_after m w)))"

lemma commutesI: "(\<And>w. m (g w) = (outcome_of m w, g (world_after m w))) \<Longrightarrow> commutes g m"
  by (simp add: commutes_def)

lemma commutesD: "commutes g m \<Longrightarrow> m w = (r, w') \<Longrightarrow> m (g w) = (r, g w')"
  by (simp add: commutes_def)

lemma commutes_mret [frame_intros, intro]: "commutes g (mret a)"
  by (simp add: commutes_def mret_def)

lemma commutes_mstop [frame_intros, intro]: "commutes g (mstop r)"
  by (simp add: commutes_def mstop_def)

lemma commutes_mget [frame_intros]: "(\<And>w. f (g w) = f w) \<Longrightarrow> commutes g (mget f)"
  by (simp add: commutes_def mget_def)

lemma commutes_mmod [frame_intros]: "(\<And>w. h (g w) = g (h w)) \<Longrightarrow> commutes g (mmod h)"
  by (simp add: commutes_def mmod_def)

lemma commutes_mbind [frame_intros]:
  assumes "commutes g m" and "\<And>a. commutes g (f a)"
  shows "commutes g (mbind m f)"
proof (rule commutesI)
  fix w
  obtain r w' where run: "m w = (r, w')" by (cases "m w")
  with assms(1) have "m (g w) = (r, g w')" by (rule commutesD)
  with assms(2) run show "mbind m f (g w) = (outcome_of (mbind m f) w, g (world_after (mbind m f) w))"
    by (cases r) (auto simp: mbind_def commutes_def)
qed

lemma commutes_mseq [frame_intros]: "commutes g m \<Longrightarrow> commutes g n \<Longrightarrow> commutes g (mseq m n)"
  by (simp add: mseq_def commutes_mbind)

lemma commutes_if [frame_intros]:
  "(b \<Longrightarrow> commutes g m) \<Longrightarrow> (\<not> b \<Longrightarrow> commutes g n) \<Longrightarrow> commutes g (if b then m else n)"
  by simp

lemma commutes_option [frame_intros]:
  "commutes g m \<Longrightarrow> (\<And>x. commutes g (n x)) \<Longrightarrow> commutes g (case y of None \<Rightarrow> m | Some x \<Rightarrow> n x)"
  by (cases y) simp_all

lemma commutes_prod [frame_intros]: "(\<And>x y. commutes g (n x y)) \<Longrightarrow> commutes g (case p of (x, y) \<Rightarrow> n x y)"
  by (cases p) simp

text \<open>A run that commutes with setting a part of the world leaves that part alone.\<close>

lemma commutes_keeps:
  assumes "\<And>c. commutes (put c) m" and put_get: "\<And>w. put (get w) w = w" and get_put: "\<And>c w. get (put c w) = c"
  shows "keeps get m"
proof (rule keepsI)
  fix w
  have "m w = (outcome_of m w, put (get w) (world_after m w))"
    using assms(1) [of "get w"] put_get [of w] unfolding commutes_def by metis
  then show "get (world_after m w) = get w" by (metis get_put snd_conv)
qed

section \<open>Lists\<close>

lemma takeWhile_append_stop:
  "(\<And>x. x \<in> set xs \<Longrightarrow> P x) \<Longrightarrow> \<not> P y \<Longrightarrow> takeWhile P (xs @ y # ys) = xs"
  by (simp add: takeWhile_append)

lemma dropWhile_append_stop:
  "(\<And>x. x \<in> set xs \<Longrightarrow> P x) \<Longrightarrow> \<not> P y \<Longrightarrow> dropWhile P (xs @ y # ys) = y # ys"
  by (simp add: dropWhile_append)

lemma take_eq_prefix: "take (length p) s = p \<longleftrightarrow> (\<exists>t. s = p @ t)"
  by (metis append_eq_conv_conj)

lemma list_update_append_here: "(xs @ y # ys)[length xs := z] = xs @ z # ys"
  by simp

end
