(* ===== verification/C_Strings.thy ===== *)
theory C_Strings
  imports C_Prelude
begin

text \<open>
  The C string and formatted I/O functions the sources use, on strings of 8-bit
  characters: \<open>strcmp\<close>, \<open>strncmp\<close>, \<open>strncpy\<close>, the \<open>printf\<close> family with the
  conversions of the sources (\<open>%s %d %ld %X %04d\<close>) and the \<open>scanf\<close> family with theirs
  (\<open>%s %*s %d %ld %*[^c]\<close>). Format strings are interpreted at run time, so that the
  models quote the formats of the C files unchanged. The lemmas give the round trip
  between a printed number or word and its scan.
\<close>

section \<open>Characters and C strings\<close>

definition NUL :: char where "NUL = CHR 0x00"

definition nl :: char where "nl = CHR 0x0A"

lemma nl_NUL [simp]: "nl \<noteq> NUL" "NUL \<noteq> nl"
  by (simp_all add: nl_def NUL_def)

text \<open>The value of a \<open>char\<close> object promoted to \<open>int\<close>; \<open>sg\<close> says if \<open>char\<close> is signed.\<close>

definition char_int :: "bool \<Rightarrow> char \<Rightarrow> int" where
  "char_int sg c = (let n = int (of_char c) in if sg \<and> 128 \<le> n then n - 256 else n)"

definition EOF :: int where "EOF = - 1"

definition nul_free :: "string \<Rightarrow> bool" where
  "nul_free s \<longleftrightarrow> NUL \<notin> set s"

text \<open>\<open>isspace\<close> in the C locale.\<close>

definition isspace :: "char \<Rightarrow> bool" where
  "isspace c \<longleftrightarrow> c \<in> {CHR '' '', CHR 0x09, CHR 0x0A, CHR 0x0B, CHR 0x0C, CHR 0x0D}"

definition word_ok :: "string \<Rightarrow> bool" where
  "word_ok s \<longleftrightarrow> s \<noteq> [] \<and> list_all (\<lambda>c. \<not> isspace c) s"

text \<open>A character array as a string: up to its first terminator, which must be there.\<close>

definition cstr_of :: "string \<Rightarrow> string option" where
  "cstr_of a = (if NUL \<in> set a then Some (takeWhile (\<lambda>c. c \<noteq> NUL) a) else None)"

definition strncpy :: "string \<Rightarrow> nat \<Rightarrow> string" where
  "strncpy src n = take n (src @ replicate n NUL)"

fun strncmp :: "string \<Rightarrow> string \<Rightarrow> nat \<Rightarrow> int" where
  "strncmp xs ys 0 = 0"
| "strncmp [] [] (Suc n) = 0"
| "strncmp (x # xs) [] (Suc n) = int (of_char x)"
| "strncmp [] (y # ys) (Suc n) = - int (of_char y)"
| "strncmp (x # xs) (y # ys) (Suc n) =
     (if x = y then strncmp xs ys n else int (of_char x) - int (of_char y))"

definition strcmp :: "string \<Rightarrow> string \<Rightarrow> int" where
  "strcmp xs ys = strncmp xs ys (Suc (max (length xs) (length ys)))"

lemma of_char_0_iff: "(of_char c :: nat) = 0 \<longleftrightarrow> c = NUL"
proof -
  have "(of_char NUL :: nat) = 0" by (simp add: NUL_def)
  then show ?thesis by (metis of_char_eq_iff)
qed

lemma strncmp_0_iff:
  "nul_free xs \<Longrightarrow> nul_free ys \<Longrightarrow> strncmp xs ys n = 0 \<longleftrightarrow> take n xs = take n ys"
  by (induction xs ys n rule: strncmp.induct) (auto simp: nul_free_def of_char_0_iff)

lemma strncmp_same [simp]: "strncmp s s n = 0"
proof (induction s arbitrary: n)
  case Nil
  show ?case by (cases n) simp_all
next
  case (Cons c s)
  then show ?case by (cases n) simp_all
qed

lemma strcmp_0_iff: "nul_free xs \<Longrightarrow> nul_free ys \<Longrightarrow> strcmp xs ys = 0 \<longleftrightarrow> xs = ys"
  by (simp add: strcmp_def strncmp_0_iff)

lemma cstr_of_terminated: "nul_free s \<Longrightarrow> cstr_of (s @ NUL # t) = Some s"
  by (auto simp: cstr_of_def nul_free_def takeWhile_append)

lemma length_strncpy [simp]: "length (strncpy s n) = n"
  by (simp add: strncpy_def)

lemma cstr_of_strncpy: "nul_free s \<Longrightarrow> length s < n \<Longrightarrow> cstr_of (strncpy s n) = Some s"
proof -
  assume s: "nul_free s" and n: "length s < n"
  then have "strncpy s n = s @ NUL # replicate (n - length s - 1) NUL"
    by (simp add: strncpy_def flip: replicate_Suc)
  with s show ?thesis by (simp add: cstr_of_terminated)
qed

lemma cstr_of_strncpy_long:
  "nul_free s \<Longrightarrow> n \<le> length s \<Longrightarrow> cstr_of (strncpy s n) = None"
  by (auto simp: strncpy_def cstr_of_def nul_free_def dest: in_set_takeD)

section \<open>Decimal numbers\<close>

definition digit_char :: "nat \<Rightarrow> char" where
  "digit_char d = char_of (48 + d)"

lemma digit_char_table:
  "digit_char 0 = CHR ''0''" "digit_char 1 = CHR ''1''" "digit_char 2 = CHR ''2''"
  "digit_char 3 = CHR ''3''" "digit_char 4 = CHR ''4''" "digit_char 5 = CHR ''5''"
  "digit_char 6 = CHR ''6''" "digit_char 7 = CHR ''7''" "digit_char 8 = CHR ''8''"
  "digit_char 9 = CHR ''9''" "digit_char (Suc 0) = CHR ''1''"
  by code_simp+

definition isdigit :: "char \<Rightarrow> bool" where
  "isdigit c \<longleftrightarrow> 48 \<le> (of_char c :: nat) \<and> (of_char c :: nat) \<le> 57"

definition digit_val :: "char \<Rightarrow> nat" where
  "digit_val c = of_char c - 48"

fun digs :: "nat \<Rightarrow> string" where
  "digs n = (if n < 10 then [digit_char n] else digs (n div 10) @ [digit_char (n mod 10)])"

declare digs.simps [simp del]

lemma digs_small: "n < 10 \<Longrightarrow> digs n = [digit_char n]"
  by (simp add: digs.simps)

definition digs_val :: "string \<Rightarrow> nat" where
  "digs_val s = foldl (\<lambda>a c. 10 * a + digit_val c) 0 s"

lemma of_char_digit: "d < 10 \<Longrightarrow> (of_char (digit_char d) :: nat) = 48 + d"
  by (simp add: digit_char_def)

lemma isdigit_digit_char [simp]: "d < 10 \<Longrightarrow> isdigit (digit_char d)"
  by (simp add: isdigit_def of_char_digit)

lemma digit_val_digit_char [simp]: "d < 10 \<Longrightarrow> digit_val (digit_char d) = d"
  by (simp add: digit_val_def of_char_digit)

lemma digs_isdigit: "list_all isdigit (digs n)"
  by (induction n rule: digs.induct) (subst digs.simps, auto)

lemma digs_nonempty [simp]: "digs n \<noteq> []"
  by (subst digs.simps) simp

lemma digs_val_digs [simp]: "digs_val (digs n) = n"
proof (induction n rule: digs.induct)
  case (1 n)
  show ?case
  proof (cases "n < 10")
    case True
    then show ?thesis by (subst digs.simps) (simp add: digs_val_def)
  next
    case False
    with 1 show ?thesis by (subst digs.simps) (simp add: digs_val_def)
  qed
qed

lemma isdigit_not_space: "isdigit c \<Longrightarrow> \<not> isspace c"
  by (auto simp: isdigit_def isspace_def)

lemma isdigit_neq: "isdigit c \<Longrightarrow> c \<noteq> CHR ''-'' \<and> c \<noteq> CHR ''+'' \<and> c \<noteq> NUL \<and> c \<noteq> nl \<and> c \<noteq> CHR ''/''"
  by (auto simp: isdigit_def NUL_def nl_def)

definition fmt_d :: "int \<Rightarrow> string" where
  "fmt_d i = (if i < 0 then CHR ''-'' # digs (nat (- i)) else digs (nat i))"

text \<open>\<open>%04d\<close>: padded with zeros to width 4, the sign counted.\<close>

definition fmt_04d :: "int \<Rightarrow> string" where
  "fmt_04d i = (let ds = digs (nat \<bar>i\<bar>)
     in if i < 0 then CHR ''-'' # replicate (3 - length ds) CHR ''0'' @ ds
        else replicate (4 - length ds) CHR ''0'' @ ds)"

lemma fmt_d_nonempty [simp]: "fmt_d i \<noteq> []"
  by (simp add: fmt_d_def)

lemma digs_all: "c \<in> set (digs n) \<Longrightarrow> isdigit c"
  using digs_isdigit [of n] by (simp add: list_all_iff)

lemma digs_no_space [simp]: "c \<in> set (digs n) \<Longrightarrow> \<not> isspace c"
  by (blast dest: digs_all isdigit_not_space)

lemma digs_hd_isdigit: "\<exists>c cs. digs n = c # cs \<and> isdigit c"
  using digs_nonempty [of n] digs_isdigit [of n] by (cases "digs n") auto

lemma fmt_d_no_space: "c \<in> set (fmt_d i) \<Longrightarrow> \<not> isspace c"
  by (auto simp: fmt_d_def isspace_def dest: digs_all split: if_splits)
    (auto simp: isdigit_def dest!: digs_all)

lemma fmt_d_word: "word_ok (fmt_d i)"
  by (simp add: word_ok_def list_all_iff fmt_d_no_space)

lemma nul_free_digs: "nul_free (digs n)"
  using digs_all [of NUL n] by (auto simp: nul_free_def isdigit_def NUL_def)

lemma nul_free_fmt_d: "nul_free (fmt_d i)"
  using nul_free_digs by (auto simp: fmt_d_def nul_free_def NUL_def)

lemma nl_notin_fmt_d: "nl \<notin> set (fmt_d i)"
  using fmt_d_no_space [of nl i] by (auto simp: nl_def isspace_def)

lemma space_char [simp]: "isspace CHR '' ''" "\<not> isdigit CHR '' ''"
  by (simp_all add: isspace_def isdigit_def)

lemma length_digs: "n < 10 ^ k \<Longrightarrow> 0 < k \<Longrightarrow> length (digs n) \<le> k"
proof (induction k arbitrary: n)
  case (Suc k)
  show ?case
  proof (cases "n < 10")
    case True
    then show ?thesis by (subst digs.simps) simp
  next
    case False
    then have "n div 10 < 10 ^ k" and "0 < k" using Suc.prems by (cases k; simp add: less_mult_imp_div_less)+
    with Suc.IH False show ?thesis by (subst digs.simps) simp
  qed
qed simp

lemma length_fmt_d: "\<bar>i\<bar> < 10 ^ k \<Longrightarrow> 0 < k \<Longrightarrow> length (fmt_d i) \<le> Suc k"
proof -
  assume i: "\<bar>i\<bar> < 10 ^ k" and k: "0 < k"
  have "nat \<bar>i\<bar> < 10 ^ k" using i by (simp add: nat_less_iff)
  from length_digs [OF this k] show ?thesis by (auto simp: fmt_d_def)
qed

lemma digs_no_slash [simp]: "CHR ''/'' \<notin> set (digs n)"
  using digs_all [of "CHR ''/''" n] by (auto simp: isdigit_def)

lemma fmt_no_slash [simp]: "CHR ''/'' \<notin> set (fmt_d i)" "CHR ''/'' \<notin> set (fmt_04d i)"
  by (auto simp: fmt_d_def fmt_04d_def Let_def)

lemma fmt_04d_small: "0 \<le> l \<Longrightarrow> l \<le> 1 \<Longrightarrow> length (fmt_04d l) = 4"
proof -
  assume "0 \<le> l" "l \<le> 1"
  then have "l = 0 \<or> l = 1" by linarith
  moreover have "length (digs 0) = 1" "length (digs 1) = 1" by (simp_all add: digs.simps)
  ultimately show ?thesis by (elim disjE) (simp_all add: fmt_04d_def Let_def)
qed

lemma nul_free_fmt_04d: "nul_free (fmt_04d l)"
  using nul_free_digs by (auto simp: fmt_04d_def nul_free_def NUL_def Let_def)

lemma length_fmt_04d: "\<bar>l\<bar> < 10 ^ 10 \<Longrightarrow> length (fmt_04d l) \<le> 11"
proof -
  assume "\<bar>l\<bar> < 10 ^ 10"
  then have "nat \<bar>l\<bar> < 10 ^ 10" by (simp add: nat_less_iff)
  then have "length (digs (nat \<bar>l\<bar>)) \<le> 10" by (rule length_digs) simp
  then show ?thesis by (auto simp: fmt_04d_def Let_def)
qed

section \<open>The printf family\<close>

datatype farg = FStr string | FInt int

datatype fconv = ConvS | ConvD | ConvD4 | ConvX | ConvBad

text \<open>The conversion after a percent sign, and the format after it.\<close>

definition conv_of :: "string \<Rightarrow> fconv \<times> string" where
  "conv_of f = (case f of
      [] \<Rightarrow> (ConvBad, [])
    | c # f1 \<Rightarrow>
        if c = CHR ''s'' then (ConvS, f1)
        else if c = CHR ''d'' then (ConvD, f1)
        else if c = CHR ''X'' then (ConvX, f1)
        else if take 3 f = ''04d'' then (ConvD4, drop 3 f)
        else if take 2 f = ''ld'' then (ConvD, drop 2 f)
        else (ConvBad, f1))"

definition hex_char :: "nat \<Rightarrow> char" where
  "hex_char d = (if d < 10 then char_of (48 + d) else char_of (55 + d))"

fun hex_digs :: "nat \<Rightarrow> string" where
  "hex_digs n = (if n < 16 then [hex_char n] else hex_digs (n div 16) @ [hex_char (n mod 16)])"

declare hex_digs.simps [simp del]

fun conv_text :: "fconv \<Rightarrow> farg \<Rightarrow> string" where
  "conv_text ConvS (FStr s) = s"
| "conv_text ConvD (FInt i) = fmt_d i"
| "conv_text ConvD4 (FInt i) = fmt_04d i"
| "conv_text ConvX (FInt i) = hex_digs (nat (i mod 2 ^ 32))"
| "conv_text _ _ = []"

lemma conv_of_shorter: "length (snd (conv_of f)) \<le> length f"
  by (auto simp: conv_of_def split: list.splits)

text \<open>\<open>vformat f as\<close>: the text the format \<open>f\<close> prints for the arguments \<open>as\<close>.\<close>

function vformat :: "string \<Rightarrow> farg list \<Rightarrow> string" where
  "vformat [] as = []"
| "vformat (c # f) as =
     (if c \<noteq> CHR ''%'' then c # vformat f as
      else (case as of
          [] \<Rightarrow> vformat (snd (conv_of f)) []
        | a # as' \<Rightarrow> conv_text (fst (conv_of f)) a @ vformat (snd (conv_of f)) as'))"
  by pat_completeness auto
termination
  by (relation "measure (\<lambda>(f, as). length f)") (auto simp: conv_of_shorter le_imp_less_Suc)

declare vformat.simps [simp del]

text \<open>\<open>snprintf\<close> stores at most \<open>n - 1\<close> characters and a terminator.\<close>

definition snprintf :: "nat \<Rightarrow> string \<Rightarrow> farg list \<Rightarrow> string" where
  "snprintf n f as = take (n - 1) (vformat f as)"

lemma snprintf_fits: "length (vformat f as) < n \<Longrightarrow> snprintf n f as = vformat f as"
  by (simp add: snprintf_def)

lemma length_snprintf: "0 < n \<Longrightarrow> length (snprintf n f as) < n"
  by (simp add: snprintf_def)

lemmas format_simps = vformat.simps conv_of_def take_Cons' drop_Cons'

section \<open>The scanf family\<close>

datatype sdir =
    SSpace                 \<comment> \<open>white space: skips any white space\<close>
  | SLit char              \<comment> \<open>a literal character\<close>
  | SWord bool             \<comment> \<open>\<open>%s\<close>, or \<open>%*s\<close> when not assigned\<close>
  | SInt nat               \<comment> \<open>\<open>%d\<close> (32 bits) or \<open>%ld\<close> (64 bits)\<close>
  | SUntil char            \<comment> \<open>\<open>%*[^c]\<close>\<close>

datatype sval = SvStr string | SvInt int

definition sdir_of :: "string \<Rightarrow> sdir \<times> string" where
  "sdir_of f =
     (if take 1 f = ''s'' then (SWord True, drop 1 f)
      else if take 2 f = ''*s'' then (SWord False, drop 2 f)
      else if take 1 f = ''d'' then (SInt 32, drop 1 f)
      else if take 2 f = ''ld'' then (SInt 64, drop 2 f)
      else if take 3 f = ''*[^'' then (SUntil (f ! 3), drop 5 f)
      else (SLit CHR ''%'', f))"

lemma sdir_of_shorter: "length (snd (sdir_of f)) \<le> length f"
  by (auto simp: sdir_of_def)

function sformat :: "string \<Rightarrow> sdir list" where
  "sformat [] = []"
| "sformat (c # f) =
     (if isspace c then SSpace # sformat f
      else if c \<noteq> CHR ''%'' then SLit c # sformat f
      else fst (sdir_of f) # sformat (snd (sdir_of f)))"
  by pat_completeness auto
termination
  by (relation "measure length") (auto simp: sdir_of_shorter le_imp_less_Suc)

declare sformat.simps [simp del]

text \<open>
  An integer conversion goes through \<open>strtol\<close>: the value saturates at the limits of
  \<open>long\<close> and is then stored in an \<open>int\<close> (reduced modulo \<open>2 ^ 32\<close>) or a \<open>long\<close>.
\<close>

definition wrap_int :: "nat \<Rightarrow> int \<Rightarrow> int" where
  "wrap_int n i = (i + 2 ^ (n - 1)) mod 2 ^ n - 2 ^ (n - 1)"

definition strtol_clip :: "int \<Rightarrow> int" where
  "strtol_clip i = max (- (2 ^ 63)) (min (2 ^ 63 - 1) i)"

definition scan_int :: "string \<Rightarrow> (int \<times> string) option" where
  "scan_int s =
     (let neg = (take 1 s = ''-''); plus = (take 1 s = ''+'');
          s1 = (if neg \<or> plus then drop 1 s else s);
          ds = takeWhile isdigit s1
      in if ds = [] then None
         else Some (if neg then - int (digs_val ds) else int (digs_val ds), dropWhile isdigit s1))"

definition atoi :: "string \<Rightarrow> int" where
  "atoi s = (case scan_int (dropWhile isspace s) of
     None \<Rightarrow> 0 | Some (i, _) \<Rightarrow> wrap_int 32 (strtol_clip i))"

fun scan :: "sdir list \<Rightarrow> string \<Rightarrow> sval list" where
  "scan [] s = []"
| "scan (SSpace # ds) s = scan ds (dropWhile isspace s)"
| "scan (SLit c # ds) s = (case s of [] \<Rightarrow> [] | x # xs \<Rightarrow> if x = c then scan ds xs else [])"
| "scan (SWord keep # ds) s =
     (let s1 = dropWhile isspace s; w = takeWhile (\<lambda>c. \<not> isspace c) s1;
          r = dropWhile (\<lambda>c. \<not> isspace c) s1
      in if w = [] then [] else if keep then SvStr w # scan ds r else scan ds r)"
| "scan (SInt n # ds) s =
     (case scan_int (dropWhile isspace s) of
        None \<Rightarrow> []
      | Some (i, r) \<Rightarrow> SvInt (wrap_int n (strtol_clip i)) # scan ds r)"
| "scan (SUntil c # ds) s =
     (let w = takeWhile (\<lambda>x. x \<noteq> c) s
      in if w = [] then [] else scan ds (dropWhile (\<lambda>x. x \<noteq> c) s))"

definition sscanf :: "string \<Rightarrow> string \<Rightarrow> sval list" where
  "sscanf s f = scan (sformat f) s"

text \<open>
  The object that the \<open>k\<close>-th conversion assigns: its new value when the conversion took
  place, its old one otherwise.
\<close>

definition sint_at :: "sval list \<Rightarrow> nat \<Rightarrow> int \<Rightarrow> int" where
  "sint_at vs k old = (if k < length vs then (case vs ! k of SvInt i \<Rightarrow> i | SvStr _ \<Rightarrow> old) else old)"

definition sstr_at :: "sval list \<Rightarrow> nat \<Rightarrow> string \<Rightarrow> string" where
  "sstr_at vs k old = (if k < length vs then (case vs ! k of SvStr s \<Rightarrow> s | SvInt _ \<Rightarrow> old) else old)"

lemma sint_at_simps [simp]:
  "sint_at [] k old = old"
  "sint_at (SvInt i # vs) 0 old = i"
  "sint_at (v # vs) (Suc k) old = sint_at vs k old"
  "sint_at (v # vs) (numeral n) old = sint_at vs (pred_numeral n) old"
  by (simp_all add: sint_at_def numeral_eq_Suc)

lemma sstr_at_simps [simp]:
  "sstr_at [] k old = old"
  "sstr_at (SvStr s # vs) 0 old = s"
  "sstr_at (v # vs) (Suc k) old = sstr_at vs k old"
  "sstr_at (v # vs) (numeral n) old = sstr_at vs (pred_numeral n) old"
  by (simp_all add: sstr_at_def numeral_eq_Suc)

section \<open>Round trips between printing and scanning\<close>

definition no_digit_start :: "string \<Rightarrow> bool" where
  "no_digit_start s \<longleftrightarrow> (case s of [] \<Rightarrow> True | c # _ \<Rightarrow> \<not> isdigit c)"

lemma no_digit_start_simps [simp]:
  "no_digit_start []"
  "no_digit_start (c # s) \<longleftrightarrow> \<not> isdigit c"
  by (simp_all add: no_digit_start_def)

lemma takeWhile_digs: "no_digit_start s \<Longrightarrow> takeWhile isdigit (digs n @ s) = digs n"
  by (cases s) (auto simp: takeWhile_append digs_all)

lemma dropWhile_digs: "no_digit_start s \<Longrightarrow> dropWhile isdigit (digs n @ s) = s"
  by (cases s) (auto simp: dropWhile_append digs_all)

lemma scan_int_fmt_d: "no_digit_start s \<Longrightarrow> scan_int (fmt_d i @ s) = Some (i, s)"
  using digs_hd_isdigit [of "nat i"]
  by (auto simp: scan_int_def fmt_d_def Let_def takeWhile_digs dropWhile_digs isdigit_def)

lemma wrap_int_in_range:
  "0 < n \<Longrightarrow> - (2 ^ (n - 1)) \<le> i \<Longrightarrow> i < 2 ^ (n - 1) \<Longrightarrow> wrap_int n i = i"
  by (cases n) (simp_all add: wrap_int_def)

definition int32 :: "int \<Rightarrow> bool" where
  "int32 i \<longleftrightarrow> - (2 ^ 31) \<le> i \<and> i < 2 ^ 31"

definition int64 :: "int \<Rightarrow> bool" where
  "int64 i \<longleftrightarrow> - (2 ^ 63) \<le> i \<and> i < 2 ^ 63"

lemma length_fmt_int32: "int32 i \<Longrightarrow> length (fmt_d i) \<le> 11"
  using length_fmt_d [of i 10] by (simp add: int32_def abs_if split: if_splits)

lemma length_fmt_int64: "int64 i \<Longrightarrow> length (fmt_d i) \<le> 20"
  using length_fmt_d [of i 19] by (simp add: int64_def abs_if split: if_splits)

lemma wrap_int_32: "int32 i \<Longrightarrow> wrap_int 32 (strtol_clip i) = i"
  by (simp add: int32_def strtol_clip_def wrap_int_def)

lemma wrap_int_64: "int64 i \<Longrightarrow> wrap_int 64 (strtol_clip i) = i"
  by (simp add: int64_def strtol_clip_def wrap_int_def)

lemma dropWhile_word: "word_ok w \<Longrightarrow> dropWhile isspace (w @ r) = w @ r"
  by (cases w) (auto simp: word_ok_def)

lemma dropWhile_word_end: "word_ok w \<Longrightarrow> dropWhile isspace w = w"
  using dropWhile_word [of w "[]"] by simp

lemma takeWhile_word:
  "word_ok w \<Longrightarrow> isspace c \<Longrightarrow> takeWhile (\<lambda>c. \<not> isspace c) (w @ c # r) = w"
  by (auto simp: word_ok_def list_all_iff takeWhile_append)

lemma dropWhile_nonspace_word:
  "word_ok w \<Longrightarrow> isspace c \<Longrightarrow> dropWhile (\<lambda>c. \<not> isspace c) (w @ c # r) = c # r"
  by (auto simp: word_ok_def list_all_iff dropWhile_append)

lemma scan_SSpace_word: "word_ok w \<Longrightarrow> scan (SSpace # ds) (CHR '' '' # w @ r) = scan ds (w @ r)"
  by (simp add: isspace_def dropWhile_word)

lemma scan_SSpace_word_end: "word_ok w \<Longrightarrow> scan (SSpace # ds) (CHR '' '' # w) = scan ds w"
  using scan_SSpace_word [of w ds "[]"] by simp

lemma scan_SWord_app:
  "word_ok w \<Longrightarrow> isspace c \<Longrightarrow>
   scan (SWord keep # ds) (w @ c # r) =
     (if keep then SvStr w # scan ds (c # r) else scan ds (c # r))"
  by (simp add: dropWhile_word takeWhile_word dropWhile_nonspace_word Let_def)
    (auto simp: word_ok_def)

lemma scan_SWord_end:
  "word_ok w \<Longrightarrow> scan (SWord keep # ds) w = (if keep then SvStr w # scan ds [] else scan ds [])"
  by (auto simp: dropWhile_word_end Let_def)
    (auto simp: word_ok_def list_all_iff takeWhile_eq_all_conv [THEN iffD2]
      dropWhile_eq_Nil_conv [THEN iffD2])

lemma scan_SInt_app:
  "no_digit_start r \<Longrightarrow>
   scan (SInt n # ds) (fmt_d i @ r) = SvInt (wrap_int n (strtol_clip i)) # scan ds r"
  by (simp add: dropWhile_word fmt_d_word scan_int_fmt_d)

lemma scan_SInt_end:
  "scan (SInt n # ds) (fmt_d i) = SvInt (wrap_int n (strtol_clip i)) # scan ds []"
  using scan_SInt_app [of "[]" n ds i] by simp

lemma scan_SUntil_app:
  "w \<noteq> [] \<Longrightarrow> c \<notin> set w \<Longrightarrow> scan (SUntil c # ds) (w @ c # r) = scan ds (c # r)"
  by (auto simp: takeWhile_append dropWhile_append Let_def)

lemmas scan_word_simps =
  scan_SSpace_word scan_SSpace_word_end scan_SWord_app scan_SWord_end scan_SInt_app scan_SInt_end
  scan_SUntil_app

text \<open>Equations that turn a format literal into its directives.\<close>

lemmas sformat_simps = sformat.simps sdir_of_def isspace_def take_Cons' drop_Cons'

section \<open>Lines\<close>

text \<open>A text with the newline escape at its end.\<close>

definition ln :: "string \<Rightarrow> string" where
  "ln s = s @ [nl]"

lemma ln_simps [simp]: "ln s \<noteq> []" "length (ln s) = Suc (length s)"
  by (simp_all add: ln_def)

lemma vformat_nl: "vformat [nl] as = [nl]"
  by (simp add: nl_def vformat.simps)

lemma vformat_plain: "CHR ''%'' \<notin> set s \<Longrightarrow> vformat s as = s"
  by (induction s) (auto simp: vformat.simps)

lemma plain_lines:
  "CHR ''%'' \<notin> set s \<Longrightarrow> vformat (ln s) as = ln s"
  by (rule vformat_plain) (simp add: ln_def nl_def)

text \<open>The pieces \<open>fgets(buf, n, f)\<close> returns one after the other until the end of the file.\<close>

definition fgets_piece :: "nat \<Rightarrow> string \<Rightarrow> string" where
  "fgets_piece n s =
     (let t = take (n - 1) s; line = takeWhile (\<lambda>c. c \<noteq> nl) t
      in if length line < length t then line @ [nl] else t)"

function fgets_pieces :: "nat \<Rightarrow> string \<Rightarrow> string list" where
  "fgets_pieces n s =
     (if s = [] \<or> n < 2 then []
      else fgets_piece n s # fgets_pieces n (drop (length (fgets_piece n s)) s))"
  by pat_completeness auto
termination
  by (relation "measure (\<lambda>(n, s). length s)") (auto simp: fgets_piece_def Let_def)

declare fgets_pieces.simps [simp del]

lemma takeWhile_hit_split:
  "length (takeWhile (\<lambda>c. c \<noteq> a) xs) < length xs \<Longrightarrow> \<exists>r. xs = takeWhile (\<lambda>c. c \<noteq> a) xs @ a # r"
  by (induction xs) auto

lemma fgets_piece_prefix: "\<exists>r. s = fgets_piece n s @ r"
proof -
  define t where "t = take (n - 1) s"
  have s: "s = t @ drop (n - 1) s" by (simp add: t_def)
  show ?thesis
  proof (cases "length (takeWhile (\<lambda>c. c \<noteq> nl) t) < length t")
    case True
    from takeWhile_hit_split [OF this] obtain r where "t = takeWhile (\<lambda>c. c \<noteq> nl) t @ nl # r" ..
    with s have "s = (takeWhile (\<lambda>c. c \<noteq> nl) t @ [nl]) @ r @ drop (n - 1) s"
      by (metis append.assoc append_Cons append_Nil)
    moreover have "fgets_piece n s = takeWhile (\<lambda>c. c \<noteq> nl) t @ [nl]"
      using True by (simp add: fgets_piece_def t_def Let_def)
    ultimately show ?thesis by metis
  next
    case False
    then have "fgets_piece n s = t" by (auto simp: fgets_piece_def t_def Let_def)
    with s show ?thesis by metis
  qed
qed

lemma concat_fgets_pieces: "2 \<le> n \<Longrightarrow> concat (fgets_pieces n s) = s"
proof (induction n s rule: fgets_pieces.induct)
  case (1 n s)
  obtain r where r: "s = fgets_piece n s @ r" using fgets_piece_prefix by blast
  then have "drop (length (fgets_piece n s)) s = r" by (metis append_eq_conv_conj)
  with 1 r show ?case by (subst fgets_pieces.simps) auto
qed

text \<open>Text made of lines that fit is cut into these lines.\<close>

lemma fgets_pieces_lines:
  "2 \<le> n \<Longrightarrow> list_all (\<lambda>l. nl \<notin> set l \<and> length l + 1 < n) ls \<Longrightarrow>
   fgets_pieces n (concat (map ln ls)) = map ln ls"
proof (induction ls)
  case Nil
  then show ?case by (subst fgets_pieces.simps) simp
next
  case (Cons l ls)
  have "take (n - 1) (ln l @ concat (map ln ls)) = l @ nl # take (n - 1 - length (ln l)) (concat (map ln ls))"
    using Cons.prems by (auto simp: ln_def take_Cons' Suc_diff_Suc)
  moreover have "takeWhile (\<lambda>c. c \<noteq> nl) (l @ nl # x) = l" for x
    using Cons.prems(2) by (intro takeWhile_append_stop) auto
  ultimately have "fgets_piece n (ln l @ concat (map ln ls)) = ln l"
    by (simp add: fgets_piece_def ln_def)
  with Cons show ?case by (subst fgets_pieces.simps) simp
qed

end
