(* ===== verification/File_System.thy ===== *)
theory File_System
  imports C_Strings "HOL-Library.AList" "HOL-Library.Sublist"
begin

text \<open>
  The file store the server, the client and the logger work on: an association list from
  paths (lists of name components) to nodes, in directory order, so that \<open>readdir\<close> has a
  defined order and a theorem for every store covers every order. The interface
  \<open>file_store\<close> states what the components rely on; it is interpreted on the store here.
\<close>

section \<open>Paths\<close>

type_synonym path = "string list"

fun psplit :: "string \<Rightarrow> string list" where
  "psplit [] = [[]]"
| "psplit (c # cs) =
     (if c = CHR ''/'' then [] # psplit cs
      else (case psplit cs of [] \<Rightarrow> [[c]] | w # ws \<Rightarrow> (c # w) # ws))"

text \<open>The components of a (relative) path: repeated and trailing slashes do not count.\<close>

definition pcomps :: "string \<Rightarrow> path" where
  "pcomps s = filter (\<lambda>w. w \<noteq> []) (psplit s)"

definition name_ok :: "string \<Rightarrow> bool" where
  "name_ok s \<longleftrightarrow> s \<noteq> [] \<and> CHR ''/'' \<notin> set s"

lemma psplit_nonempty [simp]: "psplit s \<noteq> []"
  by (cases s) (auto split: list.splits)

lemma psplit_append: "psplit (a @ CHR ''/'' # b) = psplit a @ psplit b"
  by (induction a) (auto split: list.splits)

lemma psplit_single: "CHR ''/'' \<notin> set s \<Longrightarrow> psplit s = [s]"
  by (induction s) auto

lemma pcomps_append: "pcomps (a @ CHR ''/'' # b) = pcomps a @ pcomps b"
  by (simp add: pcomps_def psplit_append)

lemma pcomps_name: "name_ok s \<Longrightarrow> pcomps s = [s]"
  by (simp add: pcomps_def psplit_single name_ok_def)

lemma pcomps_Nil [simp]: "pcomps [] = []"
  by (simp add: pcomps_def)

lemma pcomps_append_slash: "pcomps (a @ ''/'') = pcomps a"
  using pcomps_append [of a "[]"] by simp

lemma pcomps_append_name: "name_ok s \<Longrightarrow> pcomps (a @ CHR ''/'' # s) = pcomps a @ [s]"
  by (simp add: pcomps_append pcomps_name)

section \<open>The store\<close>

datatype node = File string | Dir

type_synonym store = "(path \<times> node) list"

text \<open>The working directory is the empty path and always exists.\<close>

definition node_at :: "store \<Rightarrow> path \<Rightarrow> node option" where
  "node_at st p = (if p = [] then Some Dir else map_of st p)"

definition put_node :: "path \<Rightarrow> node \<Rightarrow> store \<Rightarrow> store" where
  "put_node p n st = AList.update p n st"

definition del_node :: "path \<Rightarrow> store \<Rightarrow> store" where
  "del_node p st = AList.delete p st"

definition children :: "store \<Rightarrow> path \<Rightarrow> string list" where
  "children st p = map last (filter (\<lambda>q. q \<noteq> [] \<and> butlast q = p) (map fst st))"

text \<open>Every entry has one path, a directory above it, and a last component.\<close>

definition store_wf :: "store \<Rightarrow> bool" where
  "store_wf st \<longleftrightarrow> distinct (map fst st) \<and> [] \<notin> set (map fst st) \<and>
     list_all (\<lambda>q. node_at st (butlast q) = Some Dir) (map fst st)"

section \<open>The interface of a file store\<close>

text \<open>
  What the clients of the store rely on: lookups after an update or a deletion, the
  directory listing, and that a well-formed store stays so under the updates the
  operations make.
\<close>

locale file_store =
  fixes look :: "'s \<Rightarrow> path \<Rightarrow> node option"
    and put :: "path \<Rightarrow> node \<Rightarrow> 's \<Rightarrow> 's"
    and del :: "path \<Rightarrow> 's \<Rightarrow> 's"
    and kids :: "'s \<Rightarrow> path \<Rightarrow> string list"
    and wf :: "'s \<Rightarrow> bool"
  assumes look_root: "look s [] = Some Dir"
    and look_put: "p \<noteq> [] \<Longrightarrow> look (put p n s) q = (if q = p then Some n else look s q)"
    and look_del: "wf s \<Longrightarrow> p \<noteq> [] \<Longrightarrow> look (del p s) q = (if q = p then None else look s q)"
    and kids_set: "wf s \<Longrightarrow> set (kids s p) = {c. look s (p @ [c]) \<noteq> None}"
    and kids_distinct: "wf s \<Longrightarrow> distinct (kids s p)"
    and wf_parent: "wf s \<Longrightarrow> look s (p @ [c]) \<noteq> None \<Longrightarrow> look s p = Some Dir"
    and wf_put: "wf s \<Longrightarrow> look s p = Some Dir \<Longrightarrow>
      (\<And>d. look s (p @ [c, d]) = None \<or> n = Dir) \<Longrightarrow> wf (put (p @ [c]) n s)"
    and wf_del: "wf s \<Longrightarrow> p \<noteq> [] \<Longrightarrow> (\<And>c. look s (p @ [c]) = None) \<Longrightarrow> wf (del p s)"
begin

lemma look_above: "wf s \<Longrightarrow> look s (p @ q) \<noteq> None \<Longrightarrow> q \<noteq> [] \<Longrightarrow> look s p = Some Dir"
proof (induction q arbitrary: p)
  case Nil
  then show ?case by simp
next
  case (Cons c q)
  show ?case
  proof (cases "q = []")
    case True
    with Cons.prems show ?thesis by (auto intro: wf_parent)
  next
    case False
    with Cons.prems have "look s (p @ [c]) = Some Dir"
      by (intro Cons.IH) auto
    with Cons.prems(1) show ?thesis by (auto intro: wf_parent)
  qed
qed

lemma look_prefix: "wf s \<Longrightarrow> look s q \<noteq> None \<Longrightarrow> strict_prefix p q \<Longrightarrow> look s p = Some Dir"
  by (auto simp: strict_prefix_def prefix_def intro: look_above)

text \<open>Nothing lies below a file or a missing node.\<close>

lemma look_below_None: "wf s \<Longrightarrow> look s p \<noteq> Some Dir \<Longrightarrow> q \<noteq> [] \<Longrightarrow> look s (p @ q) = None"
  using look_above by blast

text \<open>A file is written over nothing or over a file.\<close>

lemma wf_put_file:
  assumes "wf s" and "look s p = Some Dir" and "look s (p @ [c]) \<noteq> Some Dir"
  shows "wf (put (p @ [c]) (File x) s)"
  using assms look_below_None [OF assms(1), of "p @ [c]" "[d]" for d]
  by (intro wf_put) auto

lemma wf_put_dir: "wf s \<Longrightarrow> look s p = Some Dir \<Longrightarrow> wf (put (p @ [c]) Dir s)"
  by (intro wf_put) auto

text \<open>
  Deleting nodes one by one, each after everything below it, keeps the store well formed
  and removes exactly these nodes. The step lemma of the recursive removal.
\<close>

fun closed_removal :: "'s \<Rightarrow> path list \<Rightarrow> bool" where
  "closed_removal s [] = True"
| "closed_removal s (p # ps) =
     (p \<noteq> [] \<and> look s p \<noteq> None \<and> kids s p = [] \<and> closed_removal (del p s) ps)"

lemma closed_removal_append:
  "closed_removal s (ps @ qs) \<longleftrightarrow> closed_removal s ps \<and> closed_removal (fold del ps s) qs"
  by (induction ps arbitrary: s) simp_all

lemma kids_Nil_iff: "wf s \<Longrightarrow> kids s p = [] \<longleftrightarrow> (\<forall>c. look s (p @ [c]) = None)"
proof -
  assume "wf s"
  then have "kids s p = [] \<longleftrightarrow> {c. look s (p @ [c]) \<noteq> None} = {}"
    by (metis kids_set set_empty)
  then show ?thesis by auto
qed

lemma removal_effect:
  "wf s \<Longrightarrow> closed_removal s ps \<Longrightarrow>
   wf (fold del ps s) \<and> (\<forall>q. look (fold del ps s) q = (if q \<in> set ps then None else look s q))"
proof (induction ps arbitrary: s)
  case Nil
  then show ?case by simp
next
  case (Cons p ps)
  from Cons.prems have p: "p \<noteq> []" and wf': "wf (del p s)" and rest: "closed_removal (del p s) ps"
    by (auto intro: wf_del simp: kids_Nil_iff)
  from Cons.IH [OF wf' rest] Cons.prems(1) p show ?case by (auto simp: look_del)
qed

text \<open>A list of paths in which everything below a path comes before it can be removed.\<close>

lemma closed_removalI:
  "wf s \<Longrightarrow> distinct ps \<Longrightarrow> (\<And>p. p \<in> set ps \<Longrightarrow> p \<noteq> [] \<and> look s p \<noteq> None) \<Longrightarrow>
   (\<And>xs p ys c. ps = xs @ p # ys \<Longrightarrow> look s (p @ [c]) \<noteq> None \<Longrightarrow> p @ [c] \<in> set xs) \<Longrightarrow>
   closed_removal s ps"
proof (induction ps arbitrary: s)
  case Nil
  then show ?case by simp
next
  case (Cons p ps)
  have p: "p \<noteq> []" and lp: "look s p \<noteq> None" using Cons.prems(3) [of p] by auto
  have nochild: "look s (p @ [c]) = None" for c
    using Cons.prems(4) [of "[]" p ps c] by (cases "look s (p @ [c])") auto
  then have kids: "kids s p = []" using Cons.prems(1) by (simp add: kids_Nil_iff)
  have wf': "wf (del p s)" using Cons.prems(1) p nochild by (rule wf_del)
  have "closed_removal (del p s) ps"
  proof (rule Cons.IH [OF wf'])
    show "distinct ps" using Cons.prems(2) by simp
    show "q \<noteq> [] \<and> look (del p s) q \<noteq> None" if "q \<in> set ps" for q
      using that Cons.prems(1-3) p by (auto simp: look_del)
    fix xs q ys c
    assume ps: "ps = xs @ q # ys" and "look (del p s) (q @ [c]) \<noteq> None"
    then have "look s (q @ [c]) \<noteq> None" and "q @ [c] \<noteq> p"
      using Cons.prems(1) p by (auto simp: look_del split: if_splits)
    with ps Cons.prems(4) [of "p # xs" q ys c] show "q @ [c] \<in> set xs" by simp
  qed
  with p lp kids show ?case by simp
qed

lemma closed_removal_sorted:
  assumes "wf s" and "distinct ps" and "\<And>p. p \<in> set ps \<Longrightarrow> p \<noteq> [] \<and> look s p \<noteq> None"
    and sorted: "sorted_wrt (\<lambda>a b. \<not> strict_prefix a b) ps"
    and down: "\<And>p c. p \<in> set ps \<Longrightarrow> look s (p @ [c]) \<noteq> None \<Longrightarrow> p @ [c] \<in> set ps"
  shows "closed_removal s ps"
proof (rule closed_removalI [OF assms(1-3)])
  fix xs p ys c
  assume ps: "ps = xs @ p # ys" and "look s (p @ [c]) \<noteq> None"
  then have "p @ [c] \<in> set ps" by (intro down) auto
  moreover have "strict_prefix p (p @ [c])" by (simp add: strict_prefix_def)
  then have "p @ [c] \<notin> set ys" using sorted ps by (auto simp: sorted_wrt_append)
  ultimately show "p @ [c] \<in> set xs" using ps by auto
qed

end

section \<open>The store implements the interface\<close>

lemma node_at_put: "p \<noteq> [] \<Longrightarrow> node_at (put_node p n st) q = (if q = p then Some n else node_at st q)"
  by (simp add: node_at_def put_node_def update_conv)

lemma node_at_del: "p \<noteq> [] \<Longrightarrow> node_at (del_node p st) q = (if q = p then None else node_at st q)"
  by (simp add: node_at_def del_node_def delete_conv)

lemma keys_put_node: "set (map fst (put_node p n st)) = insert p (set (map fst st))"
  by (simp add: put_node_def dom_update)

lemma keys_del_node: "set (map fst (del_node p st)) = set (map fst st) - {p}"
  by (simp add: del_node_def delete_keys)

lemma node_at_key: "p \<noteq> [] \<Longrightarrow> node_at st p \<noteq> None \<longleftrightarrow> p \<in> set (map fst st)"
  by (simp add: node_at_def map_of_eq_None_iff)

lemma node_at_snoc_key: "node_at st (p @ [c]) \<noteq> None \<longleftrightarrow> p @ [c] \<in> set (map fst st)"
  by (rule node_at_key) simp

lemma store_wf_iff:
  "store_wf st \<longleftrightarrow> distinct (map fst st) \<and> [] \<notin> set (map fst st) \<and>
     (\<forall>p c. node_at st (p @ [c]) \<noteq> None \<longrightarrow> node_at st p = Some Dir)"
proof -
  have "(\<forall>q \<in> set (map fst st). node_at st (butlast q) = Some Dir) \<longleftrightarrow>
      (\<forall>p c. p @ [c] \<in> set (map fst st) \<longrightarrow> node_at st p = Some Dir)"
    if "[] \<notin> set (map fst st)"
    using that by (metis append_butlast_last_id butlast_snoc)
  then show ?thesis unfolding store_wf_def list_all_iff node_at_snoc_key by blast
qed

lemma children_set: "store_wf st \<Longrightarrow> set (children st p) = {c. node_at st (p @ [c]) \<noteq> None}"
proof -
  assume "store_wf st"
  have "c \<in> set (children st p) \<longleftrightarrow> p @ [c] \<in> set (map fst st)" for c
  proof
    assume "c \<in> set (children st p)"
    then show "p @ [c] \<in> set (map fst st)" by (auto simp: children_def) force
  next
    assume "p @ [c] \<in> set (map fst st)"
    then have "p @ [c] \<in> set (filter (\<lambda>q. q \<noteq> [] \<and> butlast q = p) (map fst st))" by simp
    then have "last (p @ [c]) \<in> set (children st p)"
      unfolding children_def set_map by (rule imageI)
    then show "c \<in> set (children st p)" by simp
  qed
  then show ?thesis unfolding node_at_snoc_key by blast
qed

lemma children_distinct: "store_wf st \<Longrightarrow> distinct (children st p)"
  unfolding children_def store_wf_def
  by (auto simp: distinct_map intro!: inj_onI) (metis append_butlast_last_id)

interpretation st: file_store node_at put_node del_node children store_wf
proof unfold_locales
  fix st :: store and p c
  assume wf: "store_wf st"
  show "set (children st p) = {c. node_at st (p @ [c]) \<noteq> None}"
    using wf by (rule children_set)
  show "distinct (children st p)" using wf by (rule children_distinct)
  show "node_at st p = Some Dir" if "node_at st (p @ [c]) \<noteq> None"
    using that wf unfolding store_wf_iff by blast
  show "store_wf (put_node (p @ [c]) n st)"
    if "node_at st p = Some Dir" "\<And>d. node_at st (p @ [c, d]) = None \<or> n = Dir" for n
  proof -
    have "distinct (map fst (put_node (p @ [c]) n st))" and "[] \<notin> set (map fst (put_node (p @ [c]) n st))"
      using wf unfolding keys_put_node by (auto simp: store_wf_def put_node_def distinct_update)
    moreover have "node_at (put_node (p @ [c]) n st) q = Some Dir"
      if "node_at (put_node (p @ [c]) n st) (q @ [d]) \<noteq> None" for q d
      using that wf \<open>node_at st p = Some Dir\<close> \<open>\<And>d. node_at st (p @ [c, d]) = None \<or> n = Dir\<close> [of d]
      by (auto simp: node_at_put store_wf_iff split: if_splits)
    ultimately show ?thesis by (simp add: store_wf_iff)
  qed
  show "store_wf (del_node p st)" if "p \<noteq> []" "\<And>c. node_at st (p @ [c]) = None"
  proof -
    have "distinct (map fst (del_node p st))" and "[] \<notin> set (map fst (del_node p st))"
      using wf unfolding keys_del_node by (auto simp: store_wf_def del_node_def distinct_delete)
    moreover have "node_at (del_node p st) q = Some Dir"
      if "node_at (del_node p st) (q @ [d]) \<noteq> None" for q d
      using that wf \<open>p \<noteq> []\<close> \<open>\<And>c. node_at st (p @ [c]) = None\<close> [of d]
      by (auto simp: node_at_del store_wf_iff split: if_splits)
    ultimately show ?thesis by (simp add: store_wf_iff)
  qed
qed (auto simp: node_at_put node_at_del, simp add: node_at_def)

section \<open>Walking a tree in post-order\<close>

text \<open>
  The order in which \<open>nftw\<close> with \<open>FTW_DEPTH | FTW_PHYS\<close> visits a tree: the entries of a
  directory in directory order, each followed through before the next, then the directory.
  The first argument bounds the depth; \<open>depth_of\<close> is enough for the whole store.
\<close>

fun post_order :: "nat \<Rightarrow> store \<Rightarrow> path \<Rightarrow> path list" where
  "post_order 0 st p = [p]"
| "post_order (Suc k) st p =
     (if node_at st p = Some Dir
      then concat (map (\<lambda>c. post_order k st (p @ [c])) (children st p)) @ [p] else [p])"

definition depth_of :: "store \<Rightarrow> nat" where
  "depth_of st = foldr max (map (length \<circ> fst) st) 0"

lemma foldr_max_ge: "x \<in> set xs \<Longrightarrow> x \<le> foldr max xs (0::nat)"
  by (induction xs) auto

lemma node_length_le_depth: "node_at st q \<noteq> None \<Longrightarrow> length q \<le> depth_of st"
proof (cases "q = []")
  case False
  assume "node_at st q \<noteq> None"
  with False have "q \<in> set (map fst st)" by (simp only: node_at_key not_False_eq_True)
  then have "q \<in> fst ` set st" by simp
  then have "length q \<in> set (map (length \<circ> fst) st)" by force
  then show ?thesis unfolding depth_of_def by (rule foldr_max_ge)
qed simp

lemma prefix_split: "prefix p q \<longleftrightarrow> q = p \<or> (\<exists>c. prefix (p @ [c]) q)"
proof
  assume "prefix p q"
  then obtain r where "q = p @ r" by (auto simp: prefix_def)
  then show "q = p \<or> (\<exists>c. prefix (p @ [c]) q)" by (cases r) (auto simp: prefix_def)
qed (auto simp: prefix_def)

lemma post_order_set:
  assumes "store_wf st" and "node_at st p \<noteq> None"
    and "\<And>q. prefix p q \<Longrightarrow> node_at st q \<noteq> None \<Longrightarrow> length q \<le> length p + k"
  shows "set (post_order k st p) = {q. prefix p q \<and> node_at st q \<noteq> None}"
  using assms
proof (induction k arbitrary: p)
  case 0
  then show ?case by (fastforce simp: prefix_def)
next
  case (Suc k)
  show ?case
  proof (cases "node_at st p = Some Dir")
    case True
    have IH: "set (post_order k st (p @ [c])) = {q. prefix (p @ [c]) q \<and> node_at st q \<noteq> None}"
      if "node_at st (p @ [c]) \<noteq> None" for c
      using that Suc.prems(1) Suc.prems(3) by (intro Suc.IH) (force simp: prefix_def)+
    have child: "node_at st (p @ [c]) \<noteq> None" if "prefix (p @ [c]) q" "node_at st q \<noteq> None" for c q
      using that st.look_prefix [OF Suc.prems(1), of q "p @ [c]"] by (cases "q = p @ [c]") auto
    have "set (post_order (Suc k) st p) =
        insert p (\<Union>c \<in> {c. node_at st (p @ [c]) \<noteq> None}. set (post_order k st (p @ [c])))"
      using True Suc.prems(1) by (simp add: children_set)
    also have "\<dots> = insert p (\<Union>c \<in> {c. node_at st (p @ [c]) \<noteq> None}.
        {q. prefix (p @ [c]) q \<and> node_at st q \<noteq> None})"
      using IH by (intro arg_cong [where f = "insert p"] SUP_cong) auto
    also have "\<dots> = {q. prefix p q \<and> node_at st q \<noteq> None}"
      using True child by (subst prefix_split) auto
    finally show ?thesis .
  next
    case False
    have "q = p" if "prefix p q" "node_at st q \<noteq> None" for q
      using that False st.look_prefix [OF Suc.prems(1), of q p] by (auto simp: strict_prefix_def)
    with False Suc.prems(2) show ?thesis by auto
  qed
qed

lemma post_order_prefix: "q \<in> set (post_order k st p) \<Longrightarrow> prefix p q"
proof (induction k arbitrary: p)
  case (Suc k)
  then show ?case by (auto split: if_splits dest: append_prefixD)
qed simp

lemma post_order_sorted:
  "store_wf st \<Longrightarrow> sorted_wrt (\<lambda>a b. \<not> strict_prefix a b) (post_order k st p)"
proof (induction k arbitrary: p)
  case (Suc k)
  have below: "\<not> strict_prefix q p" if "q \<in> set (post_order k st (p @ [c]))" for q c
    using post_order_prefix [OF that] by (auto simp: prefix_def strict_prefix_def)
  have cross: "\<not> strict_prefix a b"
    if "a \<in> set (post_order k st (p @ [c]))" "b \<in> set (post_order k st (p @ [d]))" "c \<noteq> d" for a b c d
    using that(3) post_order_prefix [OF that(1)] post_order_prefix [OF that(2)]
    by (auto simp: prefix_def strict_prefix_def)
  have "sorted_wrt (\<lambda>a b. \<not> strict_prefix a b) (concat (map (\<lambda>c. post_order k st (p @ [c])) cs))"
    if "distinct cs" for cs
    using that
  proof (induction cs)
    case (Cons d cs)
    then have "\<not> strict_prefix a b" if "a \<in> set (post_order k st (p @ [d]))" "c \<in> set cs"
      "b \<in> set (post_order k st (p @ [c]))" for a b c
      using that by (intro cross) auto
    with Cons Suc.IH [OF Suc.prems] show ?case by (auto simp: sorted_wrt_append)
  qed simp
  with children_distinct [OF Suc.prems] show ?case
    by (auto simp: sorted_wrt_append below)
qed simp

lemma post_order_distinct: "store_wf st \<Longrightarrow> distinct (post_order k st p)"
proof (induction k arbitrary: p)
  case (Suc k)
  have above: "p \<notin> set (post_order k st (p @ [c]))" for c
    using post_order_prefix [of p k st "p @ [c]"] by (auto simp: prefix_def)
  have disj: "a \<notin> set (post_order k st (p @ [d]))" if "a \<in> set (post_order k st (p @ [c]))" "c \<noteq> d" for a c d
    using that post_order_prefix [of a k st "p @ [c]"] post_order_prefix [of a k st "p @ [d]"]
    by (auto simp: prefix_def)
  have "distinct (concat (map (\<lambda>c. post_order k st (p @ [c])) cs))" if "distinct cs" for cs
    using that
  proof (induction cs)
    case (Cons d cs)
    with disj have "set (post_order k st (p @ [d])) \<inter> (\<Union>c \<in> set cs. set (post_order k st (p @ [c]))) = {}"
      by fastforce
    with Cons Suc.IH [OF Suc.prems] show ?case by simp
  qed simp
  with children_distinct [OF Suc.prems] above show ?case by simp
qed simp

text \<open>The walk of a whole subtree is a list of paths that can be removed in this order.\<close>

lemma post_order_removal_bounded:
  assumes wf: "store_wf st" and p: "p \<noteq> []" "node_at st p \<noteq> None"
    and k: "\<And>q. prefix p q \<Longrightarrow> node_at st q \<noteq> None \<Longrightarrow> length q \<le> length p + k"
  shows "st.closed_removal st (post_order k st p)"
    and "set (post_order k st p) = {q. prefix p q \<and> node_at st q \<noteq> None}"
proof -
  show all: "set (post_order k st p) = {q. prefix p q \<and> node_at st q \<noteq> None}"
    by (rule post_order_set [OF wf p(2) k])
  show "st.closed_removal st (post_order k st p)"
  proof (rule st.closed_removal_sorted [OF wf])
    show "q \<noteq> [] \<and> node_at st q \<noteq> None" if "q \<in> set (post_order k st p)" for q
      using that p(1) all by auto
    show "q @ [c] \<in> set (post_order k st p)"
      if "q \<in> set (post_order k st p)" "node_at st (q @ [c]) \<noteq> None" for q c
      using that all by auto
  qed (use wf in \<open>auto intro: post_order_distinct post_order_sorted\<close>)
qed

lemma depth_of_bound: "node_at st q \<noteq> None \<Longrightarrow> length q \<le> length p + depth_of st"
  using node_length_le_depth by (simp add: trans_le_add2)

lemma post_order_removal:
  assumes "store_wf st" "p \<noteq> []" "node_at st p \<noteq> None"
  shows "st.closed_removal st (post_order (depth_of st) st p)"
    and "set (post_order (depth_of st) st p) = {q. prefix p q \<and> node_at st q \<noteq> None}"
  using post_order_removal_bounded [OF assms depth_of_bound] by simp_all

text \<open>Removing one subtree does not change the walk of its sibling.\<close>

lemma children_del_other: "butlast r \<noteq> q \<Longrightarrow> children (del_node r st) q = children st q"
proof -
  assume r: "butlast r \<noteq> q"
  have "map fst (del_node r st) = filter (\<lambda>k. k \<noteq> r) (map fst st)"
    by (induction st) (auto simp: del_node_def)
  moreover have "filter P (filter (\<lambda>k. k \<noteq> r) ks) = filter P ks" if "\<not> P r" for P ks
    using that by (induction ks) auto
  ultimately show ?thesis using r by (simp add: children_def)
qed

lemma post_order_cong:
  "(\<And>q. prefix p q \<Longrightarrow> node_at s q = node_at t q \<and> children s q = children t q) \<Longrightarrow> post_order k s p = post_order k t p"
proof (induction k arbitrary: p)
  case (Suc k)
  have "post_order k s (p @ [c]) = post_order k t (p @ [c])" for c
    by (rule Suc.IH) (use Suc.prems in \<open>auto dest: append_prefixD\<close>)
  with Suc.prems [of p] show ?case by simp
qed simp

lemma post_order_sibling:
  assumes "\<And>r. r \<in> set rs \<Longrightarrow> prefix (p @ [d]) r" "c \<noteq> d"
  shows "post_order k (fold del_node rs st) (p @ [c]) = post_order k st (p @ [c])"
  using assms(1)
proof (induction rs arbitrary: st)
  case (Cons r rs)
  then have r: "prefix (p @ [d]) r" by simp
  have "post_order k (del_node r st) (p @ [c]) = post_order k st (p @ [c])"
  proof (rule post_order_cong)
    fix q
    assume q: "prefix (p @ [c]) q"
    have "q \<noteq> r" "butlast r \<noteq> q" "r \<noteq> []"
      using r q assms(2) by (auto simp: prefix_def butlast_append split: if_splits)
    then show "node_at (del_node r st) q = node_at st q \<and> children (del_node r st) q = children st q"
      by (simp add: node_at_del children_del_other)
  qed
  with Cons show ?case by simp
qed simp

end
