(* ===== verification/Os_World.thy ===== *)
theory Os_World
  imports File_System Calendar
begin

text \<open>
  The part of the operating system and of the C library that the programs call, as
  operations on an explicit world: the file store, sockets with scripted input and a
  record of their output, the heap and stream counters, the process table behind
  \<open>popen\<close> and \<open>system\<close>, what a command line does to the files, and the streams \<open>stdout\<close> and \<open>stderr\<close>. What the source leaves
  to the environment is a field of the world, so that a theorem quantifies over it: the
  values of uninitialised objects (\<open>junk_int\<close>, \<open>junk_str\<close>), denied file operations
  (\<open>deny\<close>), the memory that can be allocated, the results of reads and writes, the clock,
  the time zone, and the programs run through a shell.
\<close>

section \<open>The world\<close>

datatype errno = ENOENT | EEXIST | EACCES | ENOTDIR | EISDIR | ENOTEMPTY | EAGAIN | EPIPE | EBADF | EIO | EINVAL

datatype rx_event = Data string | RxErr errno

datatype wx_event = WrFull | WrShort nat | WrErr errno

record sock =
  s_open :: bool
  s_nonblk :: bool
  s_rx :: "rx_event list"     \<comment> \<open>what the next reads return; then end of file\<close>
  s_wx :: "wx_event list"     \<comment> \<open>how the next writes end; then in full\<close>
  s_tx :: string              \<comment> \<open>the bytes written so far\<close>

datatype dial_event = DialOk int | SocketFails | ConnectFails

record world =
  signed_char :: bool
  junk_int :: "string \<Rightarrow> int"
  junk_str :: "string \<Rightarrow> string"
  fs :: store
  deny :: "string \<Rightarrow> path \<Rightarrow> bool"
  malloc_max :: int
  blocks :: int               \<comment> \<open>allocated and not freed\<close>
  streams :: int              \<comment> \<open>opened by \<open>fopen\<close> and not closed\<close>
  socks :: "int \<Rightarrow> sock"
  dials :: "dial_event list"          \<comment> \<open>how the next connection attempts end\<close>
  setup_fails :: "string \<Rightarrow> bool"      \<comment> \<open>\<open>socket\<close>, \<open>bind\<close> or \<open>listen\<close> of a server fails\<close>
  accepts :: "(int \<times> string \<times> int) option list"  \<comment> \<open>results of the next \<open>accept\<close> calls\<close>
  forks :: "int list"                 \<comment> \<open>results of the next \<open>fork\<close> calls\<close>
  sigpipe_ign :: bool
  errno_val :: errno
  out :: string
  err :: string
  procs :: "string list"
  pipe_cmd :: "string \<Rightarrow> string list \<Rightarrow> string option"
  shell_cmd :: "string \<Rightarrow> string list \<Rightarrow> string list"
  shell_fs :: "string \<Rightarrow> store \<Rightarrow> store"   \<comment> \<open>what a command line does to the files\<close>
  mk_time :: "tm \<Rightarrow> int \<Rightarrow> int"
  clock :: tm
  slept :: int                \<comment> \<open>nanoseconds slept\<close>

type_synonym ('x, 'a) os = "('x world_scheme, 'a) prog"

text \<open>An uninitialised array of \<open>n\<close> characters.\<close>

definition uninit_array :: "nat \<Rightarrow> string \<Rightarrow> 'x world_scheme \<Rightarrow> string" where
  "uninit_array n name w = take n (junk_str w name @ replicate n NUL)"

lemma length_uninit_array [simp]: "length (uninit_array n name w) = n"
  by (simp add: uninit_array_def)

section \<open>Streams and memory\<close>

definition BUFSIZ :: nat where "BUFSIZ = 8192"

definition os_print :: "string \<Rightarrow> farg list \<Rightarrow> ('x, unit) os" where
  "os_print f as = mmod (\<lambda>w. w\<lparr>out := out w @ vformat f as\<rparr>)"

definition os_eprint :: "string \<Rightarrow> farg list \<Rightarrow> ('x, unit) os" where
  "os_eprint f as = mmod (\<lambda>w. w\<lparr>err := err w @ vformat f as\<rparr>)"

text \<open>\<open>malloc\<close> succeeds up to \<open>malloc_max\<close>; a negative size is a huge \<open>size_t\<close>.\<close>

definition os_malloc :: "int \<Rightarrow> ('x, bool) os" where
  "os_malloc n = (\<lambda>w. if 0 \<le> n \<and> n \<le> malloc_max w then (Ret True, w\<lparr>blocks := blocks w + 1\<rparr>)
     else (Ret False, w))"

text \<open>\<open>free(p)\<close>; \<open>b\<close> says that \<open>p\<close> is not NULL.\<close>

definition os_free :: "bool \<Rightarrow> ('x, unit) os" where
  "os_free b = mmod (\<lambda>w. if b then w\<lparr>blocks := blocks w - 1\<rparr> else w)"

definition set_errno :: "errno \<Rightarrow> ('x, unit) os" where
  "set_errno e = mmod (\<lambda>w. w\<lparr>errno_val := e\<rparr>)"

section \<open>Files and directories\<close>

definition missing_errno :: "store \<Rightarrow> path \<Rightarrow> errno" where
  "missing_errno st p =
     (if list_ex (\<lambda>k. node_at st (take k p) \<noteq> None \<and> node_at st (take k p) \<noteq> Some Dir) [0..<length p]
      then ENOTDIR else ENOENT)"

definition denied :: "string \<Rightarrow> path \<Rightarrow> 'x world_scheme \<Rightarrow> bool" where
  "denied what p w = deny w what p"

text \<open>The result of a file operation that fails with \<open>e\<close>.\<close>

definition fail_with :: "errno \<Rightarrow> 'a \<Rightarrow> ('x, 'a) os" where
  "fail_with e r = mseq (set_errno e) (mret r)"

text \<open>
  \<open>fopen(path, "rb")\<close> with the bytes of the file, \<open>None\<close> for NULL. A directory can be opened;
  every read from it fails.
\<close>

definition os_fopen_read :: "string \<Rightarrow> ('x, string option) os" where
  "os_fopen_read path = (\<lambda>w. let p = pcomps path in
     if denied ''fopen'' p w then fail_with EACCES None w
     else case node_at (fs w) p of
         Some (File s) \<Rightarrow> (Ret (Some s), w\<lparr>streams := streams w + 1\<rparr>)
       | Some Dir \<Rightarrow> (Ret (Some []), w\<lparr>streams := streams w + 1\<rparr>)
       | None \<Rightarrow> fail_with (missing_errno (fs w) p) None w)"

text \<open>
  The position at the end of a stream opened for reading: the size of a file, and whatever the
  file system reports for a directory.
\<close>

definition os_ftell_end :: "string \<Rightarrow> 'x world_scheme \<Rightarrow> int" where
  "os_ftell_end path w = (case node_at (fs w) (pcomps path) of
       Some (File s) \<Rightarrow> int (length s) | _ \<Rightarrow> junk_int w (''ftell '' @ path))"

definition fread_fails :: "string \<Rightarrow> 'x world_scheme \<Rightarrow> bool" where
  "fread_fails path w \<longleftrightarrow> denied ''fread'' (pcomps path) w \<or> node_at (fs w) (pcomps path) = Some Dir"

text \<open>The bytes of a stream opened for reading, from its beginning.\<close>

definition stream_bytes :: "string \<Rightarrow> 'x world_scheme \<Rightarrow> string" where
  "stream_bytes path w =
     (if fread_fails path w then []
      else case node_at (fs w) (pcomps path) of Some (File s) \<Rightarrow> s | _ \<Rightarrow> [])"

text \<open>\<open>fopen(path, "wb")\<close>: creates or truncates the file.\<close>

definition os_fopen_write :: "string \<Rightarrow> ('x, bool) os" where
  "os_fopen_write path = (\<lambda>w. let p = pcomps path in
     if denied ''fopen'' p w then fail_with EACCES False w
     else if node_at (fs w) p = Some Dir then fail_with EISDIR False w
     else if node_at (fs w) (butlast p) \<noteq> Some Dir
       then fail_with (missing_errno (fs w) p) False w
     else (Ret True, w\<lparr>fs := put_node p (File []) (fs w), streams := streams w + 1\<rparr>))"

text \<open>\<open>fwrite\<close> of the bytes of a stream just opened for writing; \<open>False\<close> for a short count.\<close>

definition os_fwrite :: "string \<Rightarrow> string \<Rightarrow> ('x, bool) os" where
  "os_fwrite path s = (\<lambda>w. let p = pcomps path in
     if denied ''fwrite'' p w then (Ret False, w)
     else (Ret True, w\<lparr>fs := put_node p (File s) (fs w)\<rparr>))"

text \<open>\<open>fputs\<close> at the end of the stream; the sources ignore its result.\<close>

definition os_fputs :: "string \<Rightarrow> string \<Rightarrow> ('x, unit) os" where
  "os_fputs path s = (\<lambda>w. let p = pcomps path in
     if denied ''fwrite'' p w then (Ret (), w)
     else (Ret (), w\<lparr>fs := put_node p (File ((case node_at (fs w) p of Some (File t) \<Rightarrow> t | _ \<Rightarrow> []) @ s)) (fs w)\<rparr>))"

definition os_fclose :: "('x, unit) os" where
  "os_fclose = mmod (\<lambda>w. w\<lparr>streams := streams w - 1\<rparr>)"

definition os_mkdir :: "string \<Rightarrow> ('x, int) os" where
  "os_mkdir path = (\<lambda>w. let p = pcomps path in
     if node_at (fs w) p \<noteq> None then fail_with EEXIST (- 1) w
     else if node_at (fs w) (butlast p) \<noteq> Some Dir then fail_with (missing_errno (fs w) p) (- 1) w
     else if denied ''mkdir'' p w then fail_with EACCES (- 1) w
     else (Ret 0, w\<lparr>fs := put_node p Dir (fs w)\<rparr>))"

text \<open>\<open>remove\<close> on the components of a path: a file, or an empty directory.\<close>

definition os_remove_at :: "path \<Rightarrow> ('x, int) os" where
  "os_remove_at p = (\<lambda>w.
     if node_at (fs w) p = None then fail_with (missing_errno (fs w) p) (- 1) w
     else if p = [] \<or> denied ''remove'' p w then fail_with EACCES (- 1) w
     else if children (fs w) p \<noteq> [] then fail_with ENOTEMPTY (- 1) w
     else (Ret 0, w\<lparr>fs := del_node p (fs w)\<rparr>))"

definition os_remove :: "string \<Rightarrow> ('x, int) os" where
  "os_remove path = os_remove_at (pcomps path)"

text \<open>\<open>opendir\<close> and the names \<open>readdir\<close> then returns, \<open>None\<close> for NULL.\<close>

definition os_opendir :: "string \<Rightarrow> ('x, string list option) os" where
  "os_opendir path = (\<lambda>w. let p = pcomps path in
     if denied ''opendir'' p w then fail_with EACCES None w
     else case node_at (fs w) p of
         Some Dir \<Rightarrow> (Ret (Some (''.'' # ''..'' # children (fs w) p)), w)
       | Some (File _) \<Rightarrow> fail_with ENOTDIR None w
       | None \<Rightarrow> fail_with (missing_errno (fs w) p) None w)"

text \<open>
  \<open>nftw(path, fn, depth, FTW_DEPTH | FTW_PHYS)\<close>: a directory is read when the walk comes to it,
  and the callback is called on each of its entries and then on the directory, until a call
  returns a value other than 0. A directory that cannot be read is reported to the callback
  without its entries. The first argument of the walk bounds the depth.
\<close>

fun ftw_loop :: "(path \<Rightarrow> ('x, int) os) \<Rightarrow> path list \<Rightarrow> ('x, int) os" where
  "ftw_loop fn [] = mret 0"
| "ftw_loop fn (p # ps) = mbind (fn p) (\<lambda>r. if r \<noteq> 0 then mret r else ftw_loop fn ps)"

definition ftw_entries :: "path \<Rightarrow> 'x world_scheme \<Rightarrow> string list" where
  "ftw_entries p w =
     (if node_at (fs w) p = Some Dir \<and> \<not> denied ''opendir'' p w then children (fs w) p else [])"

fun ftw_walk :: "nat \<Rightarrow> (path \<Rightarrow> ('x, int) os) \<Rightarrow> path \<Rightarrow> ('x, int) os" where
  "ftw_walk 0 fn p = mstop Still_Running"
| "ftw_walk (Suc n) fn p =
     mbind (mget (ftw_entries p)) (\<lambda>cs.
     mbind (ftw_loop (ftw_walk n fn) (map (\<lambda>c. p @ [c]) cs)) (\<lambda>r.
     if r \<noteq> 0 then mret r else fn p))"

definition os_nftw_depth :: "string \<Rightarrow> (path \<Rightarrow> ('x, int) os) \<Rightarrow> ('x, int) os" where
  "os_nftw_depth path fn = (\<lambda>w. let p = pcomps path in
     if node_at (fs w) p = None then fail_with (missing_errno (fs w) p) (- 1) w
     else ftw_walk (Suc (depth_of (fs w))) fn p w)"

text \<open>\<open>perror\<close>\<close>

fun strerror :: "errno \<Rightarrow> string" where
  "strerror ENOENT = ''No such file or directory''"
| "strerror EEXIST = ''File exists''"
| "strerror EACCES = ''Permission denied''"
| "strerror ENOTDIR = ''Not a directory''"
| "strerror EISDIR = ''Is a directory''"
| "strerror ENOTEMPTY = ''Directory not empty''"
| "strerror EAGAIN = ''Resource temporarily unavailable''"
| "strerror EPIPE = ''Broken pipe''"
| "strerror EBADF = ''Bad file descriptor''"
| "strerror EIO = ''Input/output error''"
| "strerror EINVAL = ''Invalid argument''"

definition path_text :: "path \<Rightarrow> string" where
  "path_text p = concat (map (\<lambda>c. c @ ''/'') (butlast p)) @ (if p = [] then [] else last p)"

definition os_perror :: "string \<Rightarrow> ('x, unit) os" where
  "os_perror s = mbind (mget errno_val) (\<lambda>e. os_eprint (ln ''%s: %s'') [FStr s, FStr (strerror e)])"

section \<open>Sockets\<close>

definition upd_sock :: "int \<Rightarrow> (sock \<Rightarrow> sock) \<Rightarrow> 'x world_scheme \<Rightarrow> 'x world_scheme" where
  "upd_sock k f w = w\<lparr>socks := (socks w)(k := f (socks w k))\<rparr>"

text \<open>\<open>read(sk, buf, n)\<close>: the count and the bytes.\<close>

definition os_read :: "int \<Rightarrow> nat \<Rightarrow> ('x, int \<times> string) os" where
  "os_read sk n = (\<lambda>w.
     if \<not> s_open (socks w sk) then fail_with EBADF (- 1, []) w
     else case s_rx (socks w sk) of
         [] \<Rightarrow> (Ret (0, []), w)
       | RxErr e # es \<Rightarrow> fail_with e (- 1, []) (upd_sock sk (s_rx_update (\<lambda>_. es)) w)
       | Data d # es \<Rightarrow>
           (Ret (int (length (take n d)), take n d),
            upd_sock sk (s_rx_update (\<lambda>_. if length d \<le> n then es else Data (drop n d) # es)) w))"

text \<open>
  \<open>write(sk, s, length s)\<close>: the count. A broken pipe raises SIGPIPE, which kills a process
  that does not ignore it.
\<close>

definition os_write :: "int \<Rightarrow> string \<Rightarrow> ('x, int) os" where
  "os_write sk s = (\<lambda>w.
     if \<not> s_open (socks w sk) then fail_with EBADF (- 1) w
     else case s_wx (socks w sk) of
         [] \<Rightarrow> (Ret (int (length s)), upd_sock sk (s_tx_update (\<lambda>t. t @ s)) w)
       | e # es \<Rightarrow> (let w' = upd_sock sk (s_wx_update (\<lambda>_. es)) w in
           case e of
             WrFull \<Rightarrow> (Ret (int (length s)), upd_sock sk (s_tx_update (\<lambda>t. t @ s)) w')
           | WrShort k \<Rightarrow>
               (Ret (int (length (take k s))), upd_sock sk (s_tx_update (\<lambda>t. t @ take k s)) w')
           | WrErr er \<Rightarrow>
               if er = EPIPE \<and> \<not> sigpipe_ign w then (Sig_Killed, w') else fail_with er (- 1) w'))"

definition os_close :: "int \<Rightarrow> ('x, int) os" where
  "os_close sk = (\<lambda>w. if s_open (socks w sk) then (Ret 0, upd_sock sk (s_open_update (\<lambda>_. False)) w)
     else fail_with EBADF (- 1) w)"

definition os_dial :: "('x, dial_event) os" where
  "os_dial = (\<lambda>w. case dials w of
       [] \<Rightarrow> (Ret ConnectFails, w)
     | DialOk sk # es \<Rightarrow> (Ret (DialOk sk), upd_sock sk (s_open_update (\<lambda>_. True)) (w\<lparr>dials := es\<rparr>))
     | e # es \<Rightarrow> (Ret e, w\<lparr>dials := es\<rparr>))"

text \<open>\<open>accept\<close>: blocks for ever when no further connection arrives.\<close>

definition os_accept :: "('x, (int \<times> string \<times> int) option) os" where
  "os_accept = (\<lambda>w. case accepts w of
       [] \<Rightarrow> (Still_Running, w)
     | Some (k, ip, port) # es \<Rightarrow>
         (Ret (Some (k, ip, port)), upd_sock k (s_open_update (\<lambda>_. True)) (w\<lparr>accepts := es\<rparr>))
     | None # es \<Rightarrow> (Ret None, w\<lparr>accepts := es\<rparr>))"

section \<open>Processes, time\<close>

definition os_fork :: "('x, int) os" where
  "os_fork = (\<lambda>w. case forks w of
       [] \<Rightarrow> (Ret (- 1), w)
     | r # rs \<Rightarrow> (Ret r, w\<lparr>forks := rs\<rparr>))"

text \<open>\<open>popen(cmd, "r")\<close>: what the command prints, \<open>None\<close> for NULL.\<close>

definition os_popen :: "string \<Rightarrow> ('x, string option) os" where
  "os_popen cmd = mget (\<lambda>w. pipe_cmd w cmd (procs w))"

text \<open>
  \<open>system(cmd)\<close>: its effect on the process table and on the files; the sources ignore its status.
\<close>

definition os_system :: "string \<Rightarrow> ('x, unit) os" where
  "os_system cmd = mmod (\<lambda>w. w\<lparr>procs := shell_cmd w cmd (procs w), fs := shell_fs w cmd (fs w)\<rparr>)"

text \<open>\<open>nanosleep\<close> sleeps only for a valid number of nanoseconds (else \<open>EINVAL\<close>).\<close>

definition os_nanosleep :: "int \<Rightarrow> int \<Rightarrow> ('x, unit) os" where
  "os_nanosleep sec nsec = (\<lambda>w.
     if 0 \<le> sec \<and> 0 \<le> nsec \<and> nsec < 1000000000
     then (Ret (), w\<lparr>slept := slept w + sec * 1000000000 + nsec\<rparr>)
     else fail_with EINVAL () w)"

section \<open>Frames\<close>

text \<open>
  An operation keeps every part of the world that ignores the fields it writes; the side
  conditions are closed by the simplifier for each record selector.
\<close>

lemma keeps_os_print [frame_intros]: "(\<And>w s. f (w\<lparr>out := s\<rparr>) = f w) \<Longrightarrow> keeps f (os_print t as)"
  by (simp add: os_print_def keeps_mmod)

lemma keeps_os_eprint [frame_intros]: "(\<And>w s. f (w\<lparr>err := s\<rparr>) = f w) \<Longrightarrow> keeps f (os_eprint t as)"
  by (simp add: os_eprint_def keeps_mmod)

lemma keeps_os_malloc [frame_intros]: "(\<And>w n. f (w\<lparr>blocks := n\<rparr>) = f w) \<Longrightarrow> keeps f (os_malloc k)"
  by (simp add: os_malloc_def keeps_def)

lemma keeps_os_free [frame_intros]: "(\<And>w n. f (w\<lparr>blocks := n\<rparr>) = f w) \<Longrightarrow> keeps f (os_free b)"
  by (simp add: os_free_def keeps_mmod)

lemma keeps_fail_with [frame_intros]:
  "(\<And>w e. f (w\<lparr>errno_val := e\<rparr>) = f w) \<Longrightarrow> keeps f (fail_with e r)"
  by (simp add: fail_with_def set_errno_def keeps_mseq keeps_mmod keeps_mret)

lemma fail_with_run [run_simps]: "fail_with e r w = (Ret r, w\<lparr>errno_val := e\<rparr>)"
  by (simp add: fail_with_def set_errno_def run_simps)

lemma keeps_os_fopen_read [frame_intros]:
  "(\<And>w e. f (w\<lparr>errno_val := e\<rparr>) = f w) \<Longrightarrow> (\<And>w n. f (w\<lparr>streams := n\<rparr>) = f w) \<Longrightarrow>
   keeps f (os_fopen_read p)"
  by (auto simp: os_fopen_read_def keeps_def fail_with_run Let_def split: option.split node.split)

lemma keeps_os_fopen_write [frame_intros]:
  "(\<And>w e. f (w\<lparr>errno_val := e\<rparr>) = f w) \<Longrightarrow> (\<And>w s n. f (w\<lparr>fs := s, streams := n\<rparr>) = f w) \<Longrightarrow>
   keeps f (os_fopen_write p)"
  by (auto simp: os_fopen_write_def keeps_def fail_with_run Let_def)

lemma keeps_os_fwrite [frame_intros]: "(\<And>w s. f (w\<lparr>fs := s\<rparr>) = f w) \<Longrightarrow> keeps f (os_fwrite p s)"
  by (auto simp: os_fwrite_def keeps_def Let_def)

lemma keeps_os_fputs [frame_intros]: "(\<And>w s. f (w\<lparr>fs := s\<rparr>) = f w) \<Longrightarrow> keeps f (os_fputs p s)"
  by (auto simp: os_fputs_def keeps_def Let_def)

lemma keeps_os_fclose [frame_intros]: "(\<And>w n. f (w\<lparr>streams := n\<rparr>) = f w) \<Longrightarrow> keeps f os_fclose"
  by (simp add: os_fclose_def keeps_mmod)

lemma keeps_os_mkdir [frame_intros]:
  "(\<And>w e. f (w\<lparr>errno_val := e\<rparr>) = f w) \<Longrightarrow> (\<And>w s. f (w\<lparr>fs := s\<rparr>) = f w) \<Longrightarrow> keeps f (os_mkdir p)"
  by (auto simp: os_mkdir_def keeps_def fail_with_run Let_def)

lemma keeps_os_remove_at [frame_intros]:
  "(\<And>w e. f (w\<lparr>errno_val := e\<rparr>) = f w) \<Longrightarrow> (\<And>w s. f (w\<lparr>fs := s\<rparr>) = f w) \<Longrightarrow> keeps f (os_remove_at p)"
  by (auto simp: os_remove_at_def keeps_def fail_with_run)

lemma keeps_os_remove [frame_intros]:
  "(\<And>w e. f (w\<lparr>errno_val := e\<rparr>) = f w) \<Longrightarrow> (\<And>w s. f (w\<lparr>fs := s\<rparr>) = f w) \<Longrightarrow> keeps f (os_remove p)"
  by (simp add: os_remove_def keeps_os_remove_at)

lemma keeps_os_opendir [frame_intros]:
  "(\<And>w e. f (w\<lparr>errno_val := e\<rparr>) = f w) \<Longrightarrow> keeps f (os_opendir p)"
  by (auto simp: os_opendir_def keeps_def fail_with_run Let_def split: option.split node.split)

lemma keeps_os_popen [frame_intros]: "keeps f (os_popen c)"
  by (simp add: os_popen_def keeps_mget)

lemma keeps_os_system [frame_intros]: "(\<And>w ps st. f (w\<lparr>procs := ps, fs := st\<rparr>) = f w) \<Longrightarrow> keeps f (os_system c)"
  by (simp add: os_system_def keeps_mmod)

lemma keeps_os_write [frame_intros]:
  "(\<And>w e. f (w\<lparr>errno_val := e\<rparr>) = f w) \<Longrightarrow> (\<And>w s. f (w\<lparr>socks := s\<rparr>) = f w) \<Longrightarrow> keeps f (os_write sk s)"
  by (auto simp: os_write_def keeps_def fail_with_run upd_sock_def Let_def split: list.split wx_event.split)

lemma keeps_os_read [frame_intros]:
  "(\<And>w e. f (w\<lparr>errno_val := e\<rparr>) = f w) \<Longrightarrow> (\<And>w s. f (w\<lparr>socks := s\<rparr>) = f w) \<Longrightarrow> keeps f (os_read sk n)"
  by (auto simp: os_read_def keeps_def fail_with_run upd_sock_def split: list.split rx_event.split)

text \<open>Every operation on files keeps the store well formed.\<close>

definition fs_ok :: "'x world_scheme \<Rightarrow> bool" where
  "fs_ok w \<longleftrightarrow> store_wf (fs w)"

lemma fs_ok_put:
  assumes "store_wf st" "p \<noteq> []" "node_at st (butlast p) = Some Dir"
    and "n = Dir \<or> node_at st p \<noteq> Some Dir"
  shows "store_wf (put_node p n st)"
proof -
  obtain q c where p: "p = q @ [c]" using assms(2) by (metis append_butlast_last_id)
  show ?thesis
  proof (cases n)
    case Dir
    with assms p show ?thesis by (auto intro: st.wf_put_dir)
  next
    case (File s)
    with assms p show ?thesis by (auto intro: st.wf_put_file)
  qed
qed

lemma preserves_fs_ok_keeps: "keeps fs m \<Longrightarrow> preserves fs_ok m"
  by (simp add: preserves_def keeps_def fs_ok_def)

lemma preserves_fs_ok_mkdir [frame_intros]: "preserves fs_ok (os_mkdir path)"
  by (rule preservesI)
    (auto simp: os_mkdir_def fs_ok_def fail_with_run Let_def node_at_def [of _ "[]"] intro!: fs_ok_put)

lemma preserves_fs_ok_fopen_write [frame_intros]: "preserves fs_ok (os_fopen_write path)"
  by (rule preservesI)
    (auto simp: os_fopen_write_def fs_ok_def fail_with_run Let_def node_at_def [of _ "[]"] intro!: fs_ok_put)

lemma preserves_fs_ok_remove_at [frame_intros]: "preserves fs_ok (os_remove_at p)"
  by (rule preservesI)
    (auto simp: os_remove_at_def fs_ok_def fail_with_run st.kids_Nil_iff intro!: st.wf_del)

section \<open>A plain world\<close>

text \<open>
  An empty store, no process, socket 4 connected, a fixed time zone, and nothing denied:
  the world the concrete instances of the theorems start from.
\<close>

definition plain_sock :: sock where
  "plain_sock = \<lparr>s_open = True, s_nonblk = False, s_rx = [], s_wx = [], s_tx = []\<rparr>"

definition plain_world :: world where
  "plain_world =
     \<lparr>signed_char = True, junk_int = (\<lambda>_. 0), junk_str = (\<lambda>_. replicate 16 NUL), fs = [],
      deny = (\<lambda>_ _. False), malloc_max = 1000000, blocks = 0, streams = 0,
      socks = (\<lambda>k. plain_sock\<lparr>s_open := (k = 4)\<rparr>), dials = [], setup_fails = (\<lambda>_. False),
      accepts = [], forks = [], sigpipe_ign = False, errno_val = EINVAL, out = [], err = [],
      procs = [], pipe_cmd = (\<lambda>_ _. Some []), shell_cmd = (\<lambda>_ ps. ps), shell_fs = (\<lambda>_ st. st), mk_time = mktime_fixed 0,
      clock = Tm 123 1 3 4 5 6, slept = 0\<rparr>"

definition world_with_rx :: "rx_event list \<Rightarrow> world" where
  "world_with_rx es = upd_sock 4 (s_rx_update (\<lambda>_. es)) plain_world"

lemmas plain_world_defs = plain_world_def plain_sock_def world_with_rx_def

end
