(* ===== verification/Tcp_Socket.thy ===== *)
theory Tcp_Socket
  imports Os_World
begin

text \<open>
  The socket library \<open>tcpsocketlib.c\<close> (the same file in \<open>app/common\<close>, \<open>app/client\<close> and
  \<open>app/server\<close>). The symbol \<open>error_handler\<close>, which each program defines, and the
  callback \<open>server_handler\<close> are arguments of the functions that call them. A character
  array is the list of its elements; \<open>store_at\<close> overwrites its first elements.
\<close>

section \<open>Character arrays\<close>

definition store_at :: "string \<Rightarrow> string \<Rightarrow> string" where
  "store_at s a = s @ drop (length s) a"

lemma length_store_at: "length s \<le> length a \<Longrightarrow> length (store_at s a) = length a"
  by (simp add: store_at_def)

lemma store_at_nth: "i < length s \<Longrightarrow> store_at s a ! i = s ! i"
  by (simp add: store_at_def nth_append)

lemma take_store_at [simp]: "take (length s) (store_at s a) = s"
  by (simp add: store_at_def)

text \<open>An element of an array, undefined outside its bounds.\<close>

definition load :: "string \<Rightarrow> int \<Rightarrow> ('w, char) prog" where
  "load a i = (if 0 \<le> i \<and> i < int (length a) then mret (a ! nat i) else mstop (Undef Str_Overread))"

lemma load_run [run_simps]: "0 \<le> i \<Longrightarrow> i < int (length a) \<Longrightarrow> load a i w = (Ret (a ! nat i), w)"
  by (simp add: load_def run_simps)

text \<open>Conversion of an \<open>int\<close> to \<open>char\<close>.\<close>

definition int_char :: "int \<Rightarrow> char" where
  "int_char v = char_of (nat (v mod 256))"

lemma int_char_char_int [simp]: "int_char (char_int sg c) = c"
proof -
  have lt: "(of_char c :: nat) < 256" by (rule nat_of_char_less_256)
  have "nat (char_int sg c mod 256) = of_char c"
  proof (cases "sg \<and> 128 \<le> int (of_char c)")
    case True
    then have "char_int sg c mod 256 = int (of_char c) mod 256"
      by (simp add: char_int_def Let_def)
    with lt show ?thesis by simp
  next
    case False
    with lt show ?thesis by (auto simp: char_int_def Let_def)
  qed
  then show ?thesis by (simp add: int_char_def)
qed

lemma int_char_EOF: "int_char EOF = CHR 0xFF"
proof -
  have "(255::nat) = of_char (CHR 0xFF)" by simp
  then have "char_of (255::nat) = CHR 0xFF" by (metis char_of_char)
  then show ?thesis by (simp add: int_char_def EOF_def)
qed

text \<open>A character array where a string is expected.\<close>

definition read_cstr :: "string \<Rightarrow> ('x, string) os" where
  "read_cstr a = (case cstr_of a of Some s \<Rightarrow> mret s | None \<Rightarrow> mstop (Undef Str_Overread))"

lemma read_cstr_run: "cstr_of a = Some s \<Longrightarrow> read_cstr a w = (Ret s, w)"
  by (simp add: read_cstr_def mret_run)

text \<open>
  The array of \<open>cap\<close> characters that the \<open>k\<close>-th conversion of a scan, a \<open>%s\<close>, writes to.
\<close>

definition scan_word :: "nat \<Rightarrow> string \<Rightarrow> sval list \<Rightarrow> nat \<Rightarrow> ('x, string) os" where
  "scan_word cap old vs k =
     (if k < length vs then
        (if length (sstr_at vs k []) < cap then mret (store_at (sstr_at vs k [] @ [NUL]) old)
         else mstop (Undef Buf_Overflow))
      else mret old)"

text \<open>\<open>sprintf\<close> into an array of \<open>cap\<close> characters.\<close>

definition os_sprintf :: "nat \<Rightarrow> string \<Rightarrow> farg list \<Rightarrow> ('x, string) os" where
  "os_sprintf cap f as =
     (if length (vformat f as) < cap then mret (vformat f as) else mstop (Undef Buf_Overflow))"

section \<open>Sending\<close>

definition tcp_send :: "(string \<Rightarrow> ('x, unit) os) \<Rightarrow> int \<Rightarrow> string \<Rightarrow> ('x, int) os" where
  "tcp_send error_handler sk buffer =
     mbind (os_write sk buffer) (\<lambda>n.
     if n \<noteq> int (length buffer)
     then mseq (error_handler ''write() [tcp_send()]'') (mret 0)
     else mret 1)"

definition tcp_binary_send ::
  "(string \<Rightarrow> ('x, unit) os) \<Rightarrow> int \<Rightarrow> string \<Rightarrow> int \<Rightarrow> ('x, int) os" where
  "tcp_binary_send error_handler sk buffer msg_len =
     mbind (os_write sk (take (nat msg_len) buffer)) (\<lambda>n.
     if n \<noteq> msg_len
     then mseq (error_handler ''write() [tcp_binary_send()]'') (mret 0)
     else mret 1)"

definition tcp_putchar :: "(string \<Rightarrow> ('x, unit) os) \<Rightarrow> int \<Rightarrow> int \<Rightarrow> ('x, unit) os" where
  "tcp_putchar error_handler sk ch =
     mseq (tcp_send error_handler sk (if int_char ch = NUL then [] else [int_char ch])) (mret ())"

section \<open>Receiving\<close>

text \<open>
  The two receive functions return the count and the array after the call. A read that
  fails on a non-blocking socket because no data is there counts as 0 bytes.
\<close>

definition receive_error :: "(string \<Rightarrow> ('x, unit) os) \<Rightarrow> string \<Rightarrow> int \<Rightarrow> ('x, int) os" where
  "receive_error error_handler msg sk =
     mbind (mget (\<lambda>w. s_nonblk (socks w sk))) (\<lambda>nonblk.
     mbind (mget errno_val) (\<lambda>e.
     if nonblk \<and> e = EAGAIN then mret 0
     else mseq (error_handler msg) (mret (- 1))))"

definition tcp_receive ::
  "(string \<Rightarrow> ('x, unit) os) \<Rightarrow> int \<Rightarrow> string \<Rightarrow> ('x, int \<times> string) os" where
  "tcp_receive error_handler sk buffer =
     mbind (os_read sk BUFSIZ) (\<lambda>(dim, bytes).
     if dim < 0
     then mbind (receive_error error_handler ''read() [tcp_receive()]'' sk) (\<lambda>r. mret (r, buffer))
     else mret (dim, store_at (bytes @ [NUL]) buffer))"

definition tcp_binary_receive ::
  "(string \<Rightarrow> ('x, unit) os) \<Rightarrow> int \<Rightarrow> string \<Rightarrow> ('x, int \<times> string) os" where
  "tcp_binary_receive error_handler sk buffer =
     mbind (os_read sk BUFSIZ) (\<lambda>(dim, bytes).
     if dim < 0
     then mbind (receive_error error_handler ''read() [tcp_binary_receive()]'' sk) (\<lambda>r. mret (r, buffer))
     else mret (dim, store_at bytes buffer))"

section \<open>Connections\<close>

definition tcp_set_non_blocking_mode :: "int \<Rightarrow> ('x, unit) os" where
  "tcp_set_non_blocking_mode sk = mmod (upd_sock sk (s_nonblk_update (\<lambda>_. True)))"

definition tcp_set_blocking_mode :: "int \<Rightarrow> ('x, unit) os" where
  "tcp_set_blocking_mode sk = mmod (upd_sock sk (s_nonblk_update (\<lambda>_. False)))"

definition close_tcp_connection :: "(string \<Rightarrow> ('x, unit) os) \<Rightarrow> int \<Rightarrow> ('x, int) os" where
  "close_tcp_connection error_handler sk =
     mbind (os_close sk) (\<lambda>r.
     if r \<noteq> 0
     then mseq (error_handler ''close() [close_tcp_connection()]'') (mret 0)
     else mret 1)"

definition create_tcp_client_connection ::
  "(string \<Rightarrow> ('x, unit) os) \<Rightarrow> string \<Rightarrow> int \<Rightarrow> ('x, int) os" where
  "create_tcp_client_connection error_handler ip_address port =
     mbind os_dial (\<lambda>e. case e of
       SocketFails \<Rightarrow> mseq (error_handler ''socket() [create_tcp_client_connection()]'') (mret (- 1))
     | ConnectFails \<Rightarrow> mseq (error_handler ''connect() [create_tcp_client_connection()]'') (mret (- 1))
     | DialOk sk \<Rightarrow> mret sk)"

text \<open>
  The server loop; every turn takes a result of \<open>accept\<close>, so that the number of scripted
  results bounds it.
\<close>

fun accept_loop ::
  "nat \<Rightarrow> (string \<Rightarrow> ('x, unit) os) \<Rightarrow> (int \<Rightarrow> string \<Rightarrow> int \<Rightarrow> ('x, int) os) \<Rightarrow> ('x, int) os" where
  "accept_loop 0 error_handler server_handler = mstop Still_Running"
| "accept_loop (Suc n) error_handler server_handler =
     mbind os_accept (\<lambda>c. case c of
       None \<Rightarrow> mseq (error_handler ''accept() [create_tcp_server()]'') (mret (- 1))
     | Some (csk, ip, port) \<Rightarrow>
         mbind (server_handler csk ip port) (\<lambda>keep_server_alive.
         mseq (close_tcp_connection error_handler csk)
           (if keep_server_alive \<noteq> 0 then accept_loop n error_handler server_handler else mret 1)))"

definition create_tcp_server ::
  "(string \<Rightarrow> ('x, unit) os) \<Rightarrow> (int \<Rightarrow> string \<Rightarrow> int \<Rightarrow> ('x, int) os) \<Rightarrow>
   string \<Rightarrow> int \<Rightarrow> ('x, int) os" where
  "create_tcp_server error_handler server_handler ip_address port =
     mbind (mget setup_fails) (\<lambda>fails.
     if fails ''socket'' then mseq (error_handler ''socket() [create_tcp_server()]'') (mret (- 1))
     else if fails ''bind'' then mseq (error_handler ''bind() [create_tcp_server()]'') (mret (- 1))
     else if fails ''listen'' then mseq (error_handler ''listen() [create_tcp_server()]'') (mret (- 1))
     else mbind (mget (\<lambda>w. Suc (length (accepts w)))) (\<lambda>n.
       accept_loop n error_handler server_handler))"

section \<open>Runs of the send and receive functions\<close>

text \<open>A socket that takes every write in full.\<close>

definition tx_clean :: "int \<Rightarrow> 'x world_scheme \<Rightarrow> bool" where
  "tx_clean sk w \<longleftrightarrow> s_open (socks w sk) \<and> list_all (\<lambda>e. e = WrFull) (s_wx (socks w sk))"

text \<open>The world after \<open>s\<close> has been written in full.\<close>

definition sent :: "int \<Rightarrow> string \<Rightarrow> 'x world_scheme \<Rightarrow> 'x world_scheme" where
  "sent sk s = upd_sock sk (\<lambda>k. k\<lparr>s_tx := s_tx k @ s, s_wx := drop 1 (s_wx k)\<rparr>)"

lemma upd_sock_upd [simp]: "upd_sock k f (upd_sock k g w) = upd_sock k (\<lambda>s. f (g s)) w"
  by (simp add: upd_sock_def)

lemma upd_sock_cong: "f (socks w k) = g (socks w k) \<Longrightarrow> upd_sock k f w = upd_sock k g w"
  by (simp add: upd_sock_def)

lemma upd_sock_commute: "j \<noteq> k \<Longrightarrow> upd_sock j f (upd_sock k g w) = upd_sock k g (upd_sock j f w)"
  by (simp add: upd_sock_def fun_upd_twist)

lemma socks_upd_sock [simp]: "socks (upd_sock k f w) j = (if j = k then f (socks w k) else socks w j)"
  by (simp add: upd_sock_def)

definition sent_all :: "int \<Rightarrow> string list \<Rightarrow> 'x world_scheme \<Rightarrow> 'x world_scheme" where
  "sent_all sk ss w = fold (sent sk) ss w"

lemma sent_all_simps [simp]:
  "sent_all sk [] w = w" "sent_all sk (s # ss) w = sent_all sk ss (sent sk s w)"
  by (simp_all add: sent_all_def)

lemma os_write_clean: "tx_clean sk w \<Longrightarrow> os_write sk s w = (Ret (int (length s)), sent sk s w)"
  by (cases "s_wx (socks w sk)")
    (auto simp: os_write_def tx_clean_def sent_def Let_def intro!: upd_sock_cong)

lemma os_write_full:
  "s_open (socks w sk) \<Longrightarrow> s_wx (socks w sk) = WrFull # es \<Longrightarrow> os_write sk s w = (Ret (int (length s)), sent sk s w)"
  by (auto simp: os_write_def sent_def Let_def intro!: upd_sock_cong)

lemma sent_all_fields [simp]:
  "fs (sent_all k xs v) = fs v" "deny (sent_all k xs v) = deny v" "mk_time (sent_all k xs v) = mk_time v"
  "junk_int (sent_all k xs v) = junk_int v" "pipe_cmd (sent_all k xs v) = pipe_cmd v"
  "procs (sent_all k xs v) = procs v" "malloc_max (sent_all k xs v) = malloc_max v"
  "signed_char (sent_all k xs v) = signed_char v" "clock (sent_all k xs v) = clock v"
  "s_tx (socks (sent_all k xs v) k) = s_tx (socks v k) @ concat xs"
  by (induction xs arbitrary: v) (simp_all, simp_all add: sent_def upd_sock_def)

lemma tx_clean_sent [simp]: "tx_clean sk w \<Longrightarrow> tx_clean sk (sent j s w)"
  by (auto simp: tx_clean_def sent_def list_all_iff dest: in_set_dropD)

lemma tx_clean_sent_all [simp]: "tx_clean k v \<Longrightarrow> tx_clean k (sent_all k xs v)"
  by (induction xs arbitrary: v) simp_all

lemma s_tx_sent [simp]: "s_tx (socks (sent j s w) k) = (if k = j then s_tx (socks w k) @ s else s_tx (socks w k))"
  by (simp add: sent_def)

lemma tcp_send_clean [run_simps]: "tx_clean sk w \<Longrightarrow> tcp_send eh sk s w = (Ret 1, sent sk s w)"
  by (simp add: tcp_send_def run_simps os_write_clean)

lemma tcp_binary_send_clean [run_simps]:
  "tx_clean sk w \<Longrightarrow> n = int (length s) \<Longrightarrow> tcp_binary_send eh sk s n w = (Ret 1, sent sk s w)"
  by (simp add: tcp_binary_send_def run_simps os_write_clean)

text \<open>Sending changes a socket and the error number only, when the error handler returns.\<close>

lemma keeps_upd_sock: "(\<And>w s. f (w\<lparr>socks := s\<rparr>) = f w) \<Longrightarrow> f (upd_sock k g w) = f w"
  by (simp add: upd_sock_def)

lemma keeps_tcp_send [frame_intros]:
  "(\<And>w e. f (w\<lparr>errno_val := e\<rparr>) = f w) \<Longrightarrow> (\<And>w s. f (w\<lparr>socks := s\<rparr>) = f w) \<Longrightarrow>
   (\<And>m. keeps f (eh m)) \<Longrightarrow> keeps f (tcp_send eh sk s)"
  unfolding tcp_send_def by (intro frame_intros) auto

lemma keeps_tcp_binary_send [frame_intros]:
  "(\<And>w e. f (w\<lparr>errno_val := e\<rparr>) = f w) \<Longrightarrow> (\<And>w s. f (w\<lparr>socks := s\<rparr>) = f w) \<Longrightarrow>
   (\<And>m. keeps f (eh m)) \<Longrightarrow> keeps f (tcp_binary_send eh sk s n)"
  unfolding tcp_binary_send_def by (intro frame_intros) auto

end
