(* ===== verification/Common_Lib.thy ===== *)
theory Common_Lib
  imports Tcp_Socket
begin

text \<open>
  \<open>app/common/common_lib.c\<close> and \<open>common_lib.h\<close>: the buffered reader of a connection and
  the line reader on top of it, the sleep function, and the records of the transmission.
  The interface \<open>byte_source\<close> says what a buffered reader promises about the bytes that
  are still to come, however the connection cuts them into reads; the line reader and the
  block reader are proved against it, and it is interpreted on \<open>tcp_getchar_bs\<close> here and
  on the client's \<open>tcp_binary_getchar_bs\<close> in its own theory.
\<close>

section \<open>Records\<close>

definition TIMESTAMP_LEN :: nat where "TIMESTAMP_LEN = 16"

record buffer_tcp =
  b_dim :: int
  b_i :: int
  b_buffer :: string

record next_file =
  nf_first :: int
  nf_last :: int
  nf_count :: int

record next_dir =
  nd_first :: string          \<comment> \<open>an array of \<open>TIMESTAMP_LEN\<close> characters\<close>
  nd_last :: string
  nd_count :: int
  nd_logger_n :: int

record tr_info =
  tr_f :: next_file
  tr_d :: next_dir

section \<open>Sleeping\<close>

definition sleepms :: "int \<Rightarrow> ('x, unit) os" where
  "sleepms ms =
     (if int32 (ms * 1000000) then os_nanosleep 0 (ms * 1000000) else mstop (Undef Int_Overflow))"

section \<open>The buffered reader\<close>

definition init_buffer_tcp :: "string \<Rightarrow> buffer_tcp" where
  "init_buffer_tcp uninit = \<lparr>b_dim = 0, b_i = 0, b_buffer = uninit\<rparr>"

text \<open>\<open>return b->buffer[b->i++]\<close>\<close>

definition buffer_next :: "buffer_tcp \<Rightarrow> ('x, int \<times> buffer_tcp) os" where
  "buffer_next b =
     mbind (load (b_buffer b) (b_i b)) (\<lambda>c.
     mbind (mget signed_char) (\<lambda>sg.
     mret (char_int sg c, b\<lparr>b_i := b_i b + 1\<rparr>)))"

definition tcp_getchar_bs ::
  "(string \<Rightarrow> ('x, unit) os) \<Rightarrow> int \<Rightarrow> buffer_tcp \<Rightarrow> ('x, int \<times> buffer_tcp) os" where
  "tcp_getchar_bs error_handler sk b =
     mbind (if b_i b \<ge> b_dim b then mret True
            else mbind (load (b_buffer b) (b_i b)) (\<lambda>c. mret (c = NUL))) (\<lambda>reload.
     if reload
     then mbind (tcp_receive error_handler sk (b_buffer b)) (\<lambda>(dim, buf).
       if dim = - 1 then mret (EOF, b\<lparr>b_dim := dim, b_buffer := buf\<rparr>)
       else buffer_next (b\<lparr>b_dim := dim, b_buffer := buf, b_i := 0\<rparr>))
     else buffer_next b)"

text \<open>
  \<open>tcp_getchar\<close> of the socket library keeps its reader in static variables, which start
  as zeros: the triple of \<open>i\<close>, \<open>dim\<close> and \<open>buffer\<close> is an argument and a result.
\<close>

definition tcp_getchar_statics :: "int \<times> int \<times> string" where
  "tcp_getchar_statics = (0, 0, replicate (BUFSIZ + 1) NUL)"

definition tcp_getchar ::
  "(string \<Rightarrow> ('x, unit) os) \<Rightarrow> int \<Rightarrow> int \<times> int \<times> string \<Rightarrow> ('x, int \<times> int \<times> int \<times> string) os" where
  "tcp_getchar error_handler sk = (\<lambda>(i, dim, buffer).
     mbind (if i \<ge> dim then mret True else mbind (load buffer i) (\<lambda>c. mret (c = NUL))) (\<lambda>reload.
     mbind (if reload then mbind (tcp_receive error_handler sk buffer) (\<lambda>(dim, buffer). mret (0, dim, buffer))
            else mret (i, dim, buffer)) (\<lambda>(j, dim, buffer).
     if reload \<and> dim = - 1 then mret (EOF, i, dim, buffer)
     else mbind (load buffer j) (\<lambda>c. mbind (mget signed_char) (\<lambda>sg. mret (char_int sg c, j + 1, dim, buffer))))))"

text \<open>The two readers of characters do the same on the same state.\<close>

lemma tcp_getchar_bs_same:
  "tcp_getchar error_handler sk (b_i b, b_dim b, b_buffer b) w =
     mbind (tcp_getchar_bs error_handler sk b) (\<lambda>(v, b'). mret (v, b_i b', b_dim b', b_buffer b')) w"
proof -
  let ?check = "if b_i b \<ge> b_dim b then mret True
    else mbind (load (b_buffer b) (b_i b)) (\<lambda>c. mret (c = NUL)) :: ('a, bool) os"
  have nx: "mbind (buffer_next c) (\<lambda>(v, b'). mret (v, b_i b', b_dim b', b_buffer b')) =
       (mbind (load (b_buffer c) (b_i c)) (\<lambda>x. mbind (mget signed_char) (\<lambda>sg.
        mret (char_int sg x, b_i c + 1, b_dim c, b_buffer c))) :: ('a, int \<times> int \<times> int \<times> string) os)" for c
    by (simp add: buffer_next_def mbind_assoc)
  obtain r w1 where c: "?check w = (r, w1)" by (cases "?check w")
  obtain g w2 where g: "tcp_receive error_handler sk (b_buffer b) w1 = (g, w2)"
    by (cases "tcp_receive error_handler sk (b_buffer b) w1")
  show ?thesis
  proof (cases r)
    case (Ret reload)
    with c g nx show ?thesis
      unfolding tcp_getchar_def tcp_getchar_bs_def mbind_assoc prod.case
      by (cases reload; cases g) (auto simp: run_simps mbind_assoc)
  qed (use c in \<open>simp_all add: tcp_getchar_def tcp_getchar_bs_def mbind_assoc run_simps\<close>)
qed

section \<open>The line reader and the block reader\<close>

lemma int_char_0: "int_char 0 = NUL"
  using int_char_char_int [of False NUL] by (simp add: char_int_def NUL_def)

text \<open>
  The loop of \<open>tcp_readline\<close> over any reader: it ends with the index after the last
  character stored, the reader and the array, or with the overflow of the array.
\<close>

function readline_loop ::
  "('b \<Rightarrow> ('w, int \<times> 'b) prog) \<Rightarrow> ('w \<Rightarrow> bool) \<Rightarrow> 'b \<Rightarrow> string \<Rightarrow> nat \<Rightarrow>
   ('w, int \<times> 'b \<times> string) prog" where
  "readline_loop getc schar b buf i =
     mbind (getc b) (\<lambda>(v, b').
     mbind (mget schar) (\<lambda>sg.
     if int_char v \<noteq> nl \<and> int_char v \<noteq> NUL then
       if char_int sg (int_char v) \<noteq> EOF then
         (if i < length buf then readline_loop getc schar b' (buf[i := int_char v]) (Suc i)
          else mstop (Undef Buf_Overflow))
       else mret (EOF, b', buf)
     else if i < length buf then mret (int i, b', buf[i := NUL])
     else mstop (Undef Buf_Overflow)))"
  by pat_completeness auto
termination
  by (relation "measure (\<lambda>(getc, schar, b, buf, i). length buf - i)") auto

declare readline_loop.simps [simp del]

definition tcp_readline ::
  "(string \<Rightarrow> ('x, unit) os) \<Rightarrow> int \<Rightarrow> buffer_tcp \<Rightarrow> string \<Rightarrow> ('x, int \<times> buffer_tcp \<times> string) os" where
  "tcp_readline error_handler csk b buf =
     readline_loop (tcp_getchar_bs error_handler csk) signed_char b buf 0"

text \<open>Reading a number of characters into an array of that size.\<close>

fun recv_loop :: "('b \<Rightarrow> ('w, int \<times> 'b) prog) \<Rightarrow> nat \<Rightarrow> 'b \<Rightarrow> ('w, string \<times> 'b) prog" where
  "recv_loop getc 0 b = mret ([], b)"
| "recv_loop getc (Suc n) b =
     mbind (getc b) (\<lambda>(v, b').
     mbind (recv_loop getc n b') (\<lambda>(s, b''). mret (int_char v # s, b'')))"

section \<open>The interface of a byte source\<close>

text \<open>
  \<open>pend b w\<close>: the bytes still to come. A call with a pending good byte returns an \<open>int\<close> that
  converts to it, and leaves the rest pending; the world changes by \<open>same\<close> only.
\<close>

locale byte_source =
  fixes getc :: "'b \<Rightarrow> ('w, int \<times> 'b) prog"
    and schar :: "'w \<Rightarrow> bool"
    and pend :: "'b \<Rightarrow> 'w \<Rightarrow> string"
    and ok :: "'b \<Rightarrow> 'w \<Rightarrow> bool"
    and good :: "char \<Rightarrow> bool"
    and same :: "'w \<Rightarrow> 'w \<Rightarrow> bool"
  assumes getc_next: "ok b w \<Longrightarrow> pend b w = c # cs \<Longrightarrow> good c \<Longrightarrow>
      \<exists>v b' w'. getc b w = (Ret (v, b'), w') \<and> int_char v = c \<and> ok b' w' \<and> pend b' w' = cs \<and> same w w'"
    and same_refl: "same w w"
    and same_trans: "same u v \<Longrightarrow> same v w \<Longrightarrow> same u w"
    and same_schar: "same v w \<Longrightarrow> schar w = schar v"
begin

text \<open>A character of a line that the line reader stores.\<close>

definition line_char :: "'w \<Rightarrow> char \<Rightarrow> bool" where
  "line_char w c \<longleftrightarrow> good c \<and> c \<noteq> nl \<and> c \<noteq> NUL \<and> char_int (schar w) c \<noteq> EOF"

lemma readline_store:
  assumes "ok b w" "pend b w = c # cs" "line_char w c" "i < length buf"
  shows "\<exists>b' w'. readline_loop getc schar b buf i w = readline_loop getc schar b' (buf[i := c]) (Suc i) w' \<and>
    ok b' w' \<and> pend b' w' = cs \<and> same w w'"
proof -
  from assms obtain v b' w' where run: "getc b w = (Ret (v, b'), w')" "int_char v = c"
    and b': "ok b' w'" "pend b' w' = cs" "same w w'"
    using getc_next [of b w c cs] by (auto simp: line_char_def)
  have "readline_loop getc schar b buf i w = readline_loop getc schar b' (buf[i := c]) (Suc i) w'"
    using assms(3,4) same_schar [OF b'(3)]
    by (subst readline_loop.simps) (simp add: run run_simps line_char_def)
  with b' show ?thesis by blast
qed

lemma readline_line:
  assumes "ok b w" "pend b w = line @ nl # rest" "\<And>c. c \<in> set line \<Longrightarrow> line_char w c" "good nl"
    and "i + length line < length buf"
  shows "\<exists>b' w'. readline_loop getc schar b buf i w =
      (Ret (int (i + length line), b', take i buf @ line @ NUL # drop (i + length line + 1) buf), w') \<and>
    ok b' w' \<and> pend b' w' = rest \<and> same w w'"
  using assms
proof (induction line arbitrary: b w buf i)
  case Nil
  then obtain v b' w' where run: "getc b w = (Ret (v, b'), w')" "int_char v = nl"
    and b': "ok b' w'" "pend b' w' = rest" "same w w'"
    using getc_next [of b w nl rest] by auto
  have "readline_loop getc schar b buf i w = (Ret (int i, b', buf[i := NUL]), w')"
    using Nil.prems(5) by (subst readline_loop.simps) (simp add: run run_simps)
  with b' Nil.prems(5) show ?case by (auto simp: upd_conv_take_nth_drop)
next
  case (Cons c line)
  have c: "line_char w c" and i: "i < length buf" using Cons.prems by auto
  with Cons.prems(1,2) obtain b1 w1
    where step: "readline_loop getc schar b buf i w = readline_loop getc schar b1 (buf[i := c]) (Suc i) w1"
      and b1: "ok b1 w1" "pend b1 w1 = line @ nl # rest" "same w w1"
    using readline_store [of b w c "line @ nl # rest" i buf] by auto
  have lc: "line_char w1 d" if "d \<in> set line" for d
    using that Cons.prems(3) [of d] same_schar [OF b1(3)] by (simp add: line_char_def)
  obtain b' w' where rest: "readline_loop getc schar b1 (buf[i := c]) (Suc i) w1 =
      (Ret (int (Suc i + length line), b', take (Suc i) (buf[i := c]) @ line @
        NUL # drop (Suc i + length line + 1) (buf[i := c])), w')"
    and b': "ok b' w'" "pend b' w' = rest" "same w1 w'"
    using Cons.IH [OF b1(1,2) lc Cons.prems(4), of "Suc i" "buf[i := c]"] Cons.prems(5) by auto
  have "take (Suc i) (buf[i := c]) = take i buf @ [c]"
    using i by (simp add: take_Suc_conv_app_nth)
  with rest step b' same_trans [OF b1(3) b'(3)] show ?case by auto
qed

text \<open>A line that does not fit overflows the array.\<close>

lemma readline_overflow:
  assumes "ok b w" "pend b w = line @ c # rest" "\<And>c. c \<in> set line \<Longrightarrow> line_char w c"
    and "good c" and "c = nl \<or> line_char w c" and "i + length line = length buf"
  shows "\<exists>w'. readline_loop getc schar b buf i w = (Undef Buf_Overflow, w') \<and> same w w'"
  using assms
proof (induction line arbitrary: b w buf i)
  case Nil
  then obtain v b' w' where run: "getc b w = (Ret (v, b'), w')" "int_char v = c" and same: "same w w'"
    using getc_next [of b w c rest] by auto
  have "readline_loop getc schar b buf i w = (Undef Buf_Overflow, w')"
    using Nil.prems(5,6) same_schar [OF same]
    by (subst readline_loop.simps) (auto simp add: run run_simps line_char_def)
  with same show ?case by blast
next
  case (Cons d line)
  have d: "line_char w d" and i: "i < length buf" using Cons.prems by auto
  with Cons.prems(1,2) obtain b1 w1
    where step: "readline_loop getc schar b buf i w = readline_loop getc schar b1 (buf[i := d]) (Suc i) w1"
      and b1: "ok b1 w1" "pend b1 w1 = line @ c # rest" "same w w1"
    using readline_store [of b w d "line @ c # rest" i buf] by auto
  have lc: "line_char w1 e = line_char w e" for e
    using same_schar [OF b1(3)] by (simp add: line_char_def)
  have "\<exists>w'. readline_loop getc schar b1 (buf[i := d]) (Suc i) w1 = (Undef Buf_Overflow, w') \<and> same w1 w'"
    using Cons.prems(3-6) by (intro Cons.IH [OF b1(1,2)]) (auto simp: lc)
  with step same_trans [OF b1(3)] show ?case by auto
qed

text \<open>A byte that converts to the value of \<open>EOF\<close> ends the line without a terminator.\<close>

lemma readline_eof:
  assumes "ok b w" "pend b w = line @ c # rest" "\<And>c. c \<in> set line \<Longrightarrow> line_char w c"
    and "good c" "c \<noteq> nl" "c \<noteq> NUL" "char_int (schar w) c = EOF" "i + length line \<le> length buf"
  shows "\<exists>b' w'. readline_loop getc schar b buf i w =
      (Ret (EOF, b', take i buf @ line @ drop (i + length line) buf), w') \<and>
    ok b' w' \<and> pend b' w' = rest \<and> same w w'"
  using assms
proof (induction line arbitrary: b w buf i)
  case Nil
  then obtain v b' w' where run: "getc b w = (Ret (v, b'), w')" "int_char v = c"
    and b': "ok b' w'" "pend b' w' = rest" "same w w'"
    using getc_next [of b w c rest] by auto
  have "readline_loop getc schar b buf i w = (Ret (EOF, b', buf), w')"
    using Nil.prems(5-7) same_schar [OF b'(3)] by (subst readline_loop.simps) (simp add: run run_simps)
  with b' show ?case by auto
next
  case (Cons d line)
  have d: "line_char w d" and i: "i < length buf" using Cons.prems by auto
  with Cons.prems(1,2) obtain b1 w1
    where step: "readline_loop getc schar b buf i w = readline_loop getc schar b1 (buf[i := d]) (Suc i) w1"
      and b1: "ok b1 w1" "pend b1 w1 = line @ c # rest" "same w w1"
    using readline_store [of b w d "line @ c # rest" i buf] by auto
  have lc: "line_char w1 e = line_char w e" for e
    using same_schar [OF b1(3)] by (simp add: line_char_def)
  have "\<exists>b' w'. readline_loop getc schar b1 (buf[i := d]) (Suc i) w1 =
      (Ret (EOF, b', take (Suc i) (buf[i := d]) @ line @ drop (Suc i + length line) (buf[i := d])), w') \<and>
    ok b' w' \<and> pend b' w' = rest \<and> same w1 w'"
    using Cons.prems(3-8) same_schar [OF b1(3)] by (intro Cons.IH [OF b1(1,2)]) (auto simp: lc)
  moreover have "take (Suc i) (buf[i := d]) = take i buf @ [d]"
    using i by (simp add: take_Suc_conv_app_nth)
  ultimately show ?case using step same_trans [OF b1(3)] by auto
qed

lemma recv_block:
  assumes "ok b w" "pend b w = block @ rest" "\<And>c. c \<in> set block \<Longrightarrow> good c"
  shows "\<exists>b' w'. recv_loop getc (length block) b w = (Ret (block, b'), w') \<and>
    ok b' w' \<and> pend b' w' = rest \<and> same w w'"
  using assms
proof (induction block arbitrary: b w)
  case Nil
  then show ?case by (auto simp: run_simps same_refl)
next
  case (Cons c block)
  then obtain v b1 w1 where run: "getc b w = (Ret (v, b1), w1)" "int_char v = c"
    and b1: "ok b1 w1" "pend b1 w1 = block @ rest" "same w w1"
    using getc_next [of b w c "block @ rest"] by auto
  obtain b' w' where rest: "recv_loop getc (length block) b1 w1 = (Ret (block, b'), w')"
    and b': "ok b' w'" "pend b' w' = rest" "same w1 w'"
    using Cons.IH [OF b1(1,2)] Cons.prems(3) by auto
  from run rest b' same_trans [OF b1(3) b'(3)] show ?case by (auto simp: run_simps)
qed

end

text \<open>A source that ends: after its last byte it returns terminators.\<close>

locale closing_source = byte_source +
  assumes getc_end: "ok b w \<Longrightarrow> pend b w = [] \<Longrightarrow>
      \<exists>b' w'. getc b w = (Ret (0, b'), w') \<and> ok b' w' \<and> pend b' w' = [] \<and> same w w'"
begin

lemma readline_closed:
  assumes "ok b w" "pend b w = line" "\<And>c. c \<in> set line \<Longrightarrow> line_char w c" "i + length line < length buf"
  shows "\<exists>b' w'. readline_loop getc schar b buf i w =
      (Ret (int (i + length line), b', take i buf @ line @ NUL # drop (i + length line + 1) buf), w') \<and>
    ok b' w' \<and> pend b' w' = [] \<and> same w w'"
  using assms
proof (induction line arbitrary: b w buf i)
  case Nil
  then obtain b' w' where b': "getc b w = (Ret (0, b'), w')" "ok b' w'" "pend b' w' = []" "same w w'"
    using getc_end [of b w] by auto
  have "readline_loop getc schar b buf i w = (Ret (int i, b', buf[i := NUL]), w')"
    using Nil.prems(4) by (subst readline_loop.simps) (simp add: b'(1) run_simps int_char_0)
  with b' Nil.prems(4) show ?case by (auto simp: upd_conv_take_nth_drop)
next
  case (Cons c line)
  have c: "line_char w c" and i: "i < length buf" using Cons.prems by auto
  with Cons.prems(1,2) obtain b1 w1
    where step: "readline_loop getc schar b buf i w = readline_loop getc schar b1 (buf[i := c]) (Suc i) w1"
      and b1: "ok b1 w1" "pend b1 w1 = line" "same w w1"
    using readline_store [of b w c line i buf] by auto
  have lc: "line_char w1 d" if "d \<in> set line" for d
    using that Cons.prems(3) [of d] same_schar [OF b1(3)] by (simp add: line_char_def)
  obtain b' w' where rest: "readline_loop getc schar b1 (buf[i := c]) (Suc i) w1 =
      (Ret (int (Suc i + length line), b', take (Suc i) (buf[i := c]) @ line @
        NUL # drop (Suc i + length line + 1) (buf[i := c])), w')"
    and b': "ok b' w'" "pend b' w' = []" "same w1 w'"
    using Cons.IH [OF b1(1,2) lc, of "Suc i" "buf[i := c]"] Cons.prems(4) by auto
  have "take (Suc i) (buf[i := c]) = take i buf @ [c]"
    using i by (simp add: take_Suc_conv_app_nth)
  with rest step b' same_trans [OF b1(3) b'(3)] show ?case by auto
qed

end

section \<open>The buffered reader is a byte source\<close>

text \<open>The bytes in the buffer that have not been returned yet.\<close>

definition unread :: "buffer_tcp \<Rightarrow> string" where
  "unread b = (if b_i b < b_dim b
     then take (nat (b_dim b - b_i b)) (drop (nat (b_i b)) (b_buffer b)) else [])"

fun rx_data :: "rx_event \<Rightarrow> string" where
  "rx_data (Data d) = d"
| "rx_data (RxErr e) = []"

definition rx_text :: "rx_event list \<Rightarrow> string" where
  "rx_text es = concat (map rx_data es)"

text \<open>Reads that deliver at least one byte each, until the peer closes.\<close>

definition rx_clean :: "rx_event list \<Rightarrow> bool" where
  "rx_clean es \<longleftrightarrow> list_all (\<lambda>e. rx_data e \<noteq> []) es"

definition pending :: "int \<Rightarrow> buffer_tcp \<Rightarrow> 'x world_scheme \<Rightarrow> string" where
  "pending sk b w = unread b @ rx_text (s_rx (socks w sk))"

definition reader_ok :: "int \<Rightarrow> buffer_tcp \<Rightarrow> 'x world_scheme \<Rightarrow> bool" where
  "reader_ok sk b w \<longleftrightarrow> length (b_buffer b) = BUFSIZ + 1 \<and> 0 \<le> b_i b \<and> b_dim b \<le> int BUFSIZ \<and>
     s_open (socks w sk) \<and> rx_clean (s_rx (socks w sk))"

text \<open>Only the input still to come on the socket differs.\<close>

definition only_rx :: "int \<Rightarrow> 'x world_scheme \<Rightarrow> 'x world_scheme \<Rightarrow> bool" where
  "only_rx sk w w' \<longleftrightarrow> (\<exists>es. w' = upd_sock sk (s_rx_update (\<lambda>_. es)) w)"

lemma only_rx_refl: "only_rx sk w w"
  unfolding only_rx_def
  by (rule exI [of _ "s_rx (socks w sk)"]) (simp add: upd_sock_def)

lemma only_rx_trans: "only_rx sk u v \<Longrightarrow> only_rx sk v w \<Longrightarrow> only_rx sk u w"
  by (auto simp: only_rx_def)

lemma only_rx_upd: "only_rx sk w (upd_sock sk (s_rx_update (\<lambda>_. es)) w)"
  by (auto simp: only_rx_def)

lemma only_rx_keeps:
  "only_rx sk w w' \<Longrightarrow> (\<And>w s. f (w\<lparr>socks := s\<rparr>) = f w) \<Longrightarrow> f w' = f w"
  by (auto simp: only_rx_def upd_sock_def)

lemma only_rx_fields:
  assumes "only_rx sk w w'"
  shows "s_open (socks w' k) = s_open (socks w k)" "s_wx (socks w' k) = s_wx (socks w k)"
    "s_tx (socks w' k) = s_tx (socks w k)" "k \<noteq> sk \<Longrightarrow> socks w' k = socks w k"
  using assms by (auto simp: only_rx_def split: if_splits)

lemma only_rx_tx_clean: "only_rx sk w w' \<Longrightarrow> tx_clean k w' = tx_clean k w"
  by (simp add: tx_clean_def only_rx_fields)

lemma unread_Cons:
  assumes "unread b = c # cs" "length (b_buffer b) = BUFSIZ + 1" "0 \<le> b_i b" "b_dim b \<le> int BUFSIZ"
  shows "b_i b < b_dim b" "b_buffer b ! nat (b_i b) = c" "nat (b_i b) < length (b_buffer b)"
    "unread (b\<lparr>b_i := b_i b + 1\<rparr>) = cs"
proof -
  show i: "b_i b < b_dim b" using assms(1) by (auto simp: unread_def split: if_splits)
  with assms show len: "nat (b_i b) < length (b_buffer b)" by simp
  have split: "drop (nat (b_i b)) (b_buffer b) =
      b_buffer b ! nat (b_i b) # drop (Suc (nat (b_i b))) (b_buffer b)"
    using len by (simp add: Cons_nth_drop_Suc)
  have n: "nat (b_dim b - b_i b) = Suc (nat (b_dim b - (b_i b + 1)))" using i by linarith
  have eq: "c # cs = b_buffer b ! nat (b_i b) #
      take (nat (b_dim b - (b_i b + 1))) (drop (Suc (nat (b_i b))) (b_buffer b))"
    using assms(1) i by (simp add: unread_def split n)
  then show "b_buffer b ! nat (b_i b) = c" by simp
  have "nat (b_i b + 1) = Suc (nat (b_i b))" using assms(3) by simp
  with eq show "unread (b\<lparr>b_i := b_i b + 1\<rparr>) = cs" by (simp add: unread_def)
qed

lemma buffer_next_run:
  assumes "unread b = c # cs" "reader_ok sk b w"
  shows "buffer_next b w = (Ret (char_int (signed_char w) c, b\<lparr>b_i := b_i b + 1\<rparr>), w)"
    "unread (b\<lparr>b_i := b_i b + 1\<rparr>) = cs" "reader_ok sk (b\<lparr>b_i := b_i b + 1\<rparr>) w"
  using assms unread_Cons [OF assms(1)]
  by (simp_all add: reader_ok_def buffer_next_def run_simps)

text \<open>A read event delivers its first \<open>BUFSIZ\<close> bytes; the rest stays for the next read.\<close>

lemma os_read_Data:
  assumes "s_open (socks w sk)" "s_rx (socks w sk) = Data d # es" "rx_clean (Data d # es)"
  shows "\<exists>es'. os_read sk BUFSIZ w = (Ret (int (length (take BUFSIZ d)), take BUFSIZ d),
      upd_sock sk (s_rx_update (\<lambda>_. es')) w) \<and> rx_clean es' \<and>
    take BUFSIZ d @ rx_text es' = rx_text (s_rx (socks w sk)) \<and> take BUFSIZ d \<noteq> []"
  using assms by (auto simp: os_read_def rx_clean_def rx_text_def BUFSIZ_def)

text \<open>Reloading the buffer, with or without the terminator after the data.\<close>

lemma reload_ok:
  assumes ok: "reader_ok sk b w" and empty: "unread b = []"
    and pend: "pending sk b w = c # cs" and t: "t = [] \<or> t = [NUL]"
  shows "\<exists>bytes es' b'. os_read sk BUFSIZ w =
      (Ret (int (length bytes), bytes), upd_sock sk (s_rx_update (\<lambda>_. es')) w) \<and>
    b' = b\<lparr>b_dim := int (length bytes), b_buffer := store_at (bytes @ t) (b_buffer b), b_i := 0\<rparr> \<and>
    reader_ok sk b' (upd_sock sk (s_rx_update (\<lambda>_. es')) w) \<and>
    unread b' = bytes \<and> bytes @ rx_text es' = c # cs \<and> bytes \<noteq> []"
proof -
  have rx: "rx_text (s_rx (socks w sk)) = c # cs" using pend empty by (simp add: pending_def)
  then obtain e es where es: "s_rx (socks w sk) = e # es"
    by (cases "s_rx (socks w sk)") (auto simp: rx_text_def)
  moreover obtain d where "e = Data d"
    using ok es by (cases e) (auto simp: reader_ok_def rx_clean_def)
  ultimately obtain es' where read: "os_read sk BUFSIZ w = (Ret (int (length (take BUFSIZ d)), take BUFSIZ d),
      upd_sock sk (s_rx_update (\<lambda>_. es')) w)" "rx_clean es'"
      "take BUFSIZ d @ rx_text es' = c # cs" "take BUFSIZ d \<noteq> []"
    using os_read_Data [of w sk d es] ok rx by (auto simp: reader_ok_def)
  have len: "length (take BUFSIZ d) \<le> BUFSIZ" by simp
  define bytes where "bytes = take BUFSIZ d"
  define b' where "b' = b\<lparr>b_dim := int (length bytes), b_buffer := store_at (bytes @ t) (b_buffer b), b_i := 0\<rparr>"
  have "length (bytes @ t) \<le> length (b_buffer b)"
    using ok t len by (auto simp: reader_ok_def bytes_def)
  then have "reader_ok sk b' (upd_sock sk (s_rx_update (\<lambda>_. es')) w)"
    using ok read(2) len by (simp add: reader_ok_def b'_def length_store_at bytes_def)
  moreover have "bytes \<noteq> []" using read(4) by (simp add: bytes_def)
  then have "unread b' = bytes" by (simp add: unread_def b'_def store_at_def)
  ultimately show ?thesis using read by (auto simp: b'_def bytes_def)
qed

lemma tcp_getchar_bs_next:
  assumes ok: "reader_ok sk b w" and pend: "pending sk b w = c # cs" and c: "c \<noteq> NUL"
  shows "\<exists>b' w'. tcp_getchar_bs eh sk b w = (Ret (char_int (signed_char w) c, b'), w') \<and>
    reader_ok sk b' w' \<and> pending sk b' w' = cs \<and> only_rx sk w w'"
proof (cases "unread b")
  case (Cons d ds)
  have d: "d = c" and cs: "cs = ds @ rx_text (s_rx (socks w sk))" using pend Cons by (auto simp: pending_def)
  note h = unread_Cons [OF Cons] and nx = buffer_next_run [OF Cons ok]
  have "tcp_getchar_bs eh sk b w = buffer_next b w"
    using ok h c d by (simp add: tcp_getchar_bs_def reader_ok_def run_simps)
  with nx d cs only_rx_refl show ?thesis by (auto simp: pending_def)
next
  case Nil
  obtain bytes es' b1 where read: "os_read sk BUFSIZ w =
      (Ret (int (length bytes), bytes), upd_sock sk (s_rx_update (\<lambda>_. es')) w)"
    and b1: "b1 = b\<lparr>b_dim := int (length bytes), b_buffer := store_at (bytes @ [NUL]) (b_buffer b), b_i := 0\<rparr>"
    and ok1: "reader_ok sk b1 (upd_sock sk (s_rx_update (\<lambda>_. es')) w)"
    and un1: "unread b1 = bytes" and rest: "bytes @ rx_text es' = c # cs" "bytes \<noteq> []"
    using reload_ok [OF ok Nil pend, of "[NUL]"] by blast
  let ?w = "upd_sock sk (s_rx_update (\<lambda>_. es')) w"
  obtain ds where bytes: "bytes = c # ds" "cs = ds @ rx_text es'" using rest by (cases bytes) auto
  have "b_i b \<ge> b_dim b" using Nil ok
    by (auto simp: unread_def reader_ok_def split: if_splits)
  then have "tcp_getchar_bs eh sk b w = buffer_next b1 ?w"
    by (simp add: tcp_getchar_bs_def tcp_receive_def run_simps read b1)
  with buffer_next_run [of b1 c ds, OF _ ok1] un1 bytes only_rx_upd show ?thesis
    by (auto simp: pending_def upd_sock_def)
qed

section \<open>End of file\<close>

text \<open>Once the peer has closed and everything is read, the reader returns a terminator.\<close>

lemma getchar_closed_by_peer:
  assumes "reader_ok sk b w" "pending sk b w = []"
  shows "\<exists>b'. tcp_getchar_bs eh sk b w = (Ret (0, b'), w) \<and> reader_ok sk b' w \<and> pending sk b' w = []"
proof -
  have un: "unread b = []" and "rx_text (s_rx (socks w sk)) = []"
    using assms(2) by (simp_all add: pending_def)
  then have rx: "s_rx (socks w sk) = []"
    using assms(1) by (cases "s_rx (socks w sk)") (auto simp: reader_ok_def rx_clean_def rx_text_def)
  have i: "b_i b \<ge> b_dim b"
    using un assms(1) by (auto simp: unread_def reader_ok_def split: if_splits)
  let ?b = "b\<lparr>b_dim := 0, b_buffer := store_at [NUL] (b_buffer b), b_i := 1\<rparr>"
  have len: "length (store_at [NUL] (b_buffer b)) = BUFSIZ + 1"
    using assms(1) by (simp add: reader_ok_def length_store_at)
  then have "tcp_getchar_bs eh sk b w = (Ret (0, ?b), w)"
    using i rx assms(1)
    by (simp add: tcp_getchar_bs_def tcp_receive_def run_simps os_read_def reader_ok_def buffer_next_def
        store_at_nth char_int_def NUL_def)
  moreover have "reader_ok sk ?b w" using assms(1) len by (simp add: reader_ok_def)
  moreover have "pending sk ?b w = []" using rx by (simp add: pending_def unread_def rx_text_def)
  ultimately show ?thesis by blast
qed

interpretation line_source: closing_source "tcp_getchar_bs eh sk" signed_char "pending sk" "reader_ok sk"
  "\<lambda>c. c \<noteq> NUL" "only_rx sk" for eh :: "string \<Rightarrow> ('x, unit) os" and sk
proof unfold_locales
  fix b :: buffer_tcp and w :: "'x world_scheme" and c cs
  assume "reader_ok sk b w" "pending sk b w = c # cs" "c \<noteq> NUL"
  from tcp_getchar_bs_next [OF this, of eh]
  show "\<exists>v b' w'. tcp_getchar_bs eh sk b w = (Ret (v, b'), w') \<and> int_char v = c \<and>
      reader_ok sk b' w' \<and> pending sk b' w' = cs \<and> only_rx sk w w'"
    by auto
next
  fix b :: buffer_tcp and w :: "'x world_scheme"
  assume "reader_ok sk b w" "pending sk b w = []"
  from getchar_closed_by_peer [OF this, of eh]
  show "\<exists>b' w'. tcp_getchar_bs eh sk b w = (Ret (0, b'), w') \<and>
      reader_ok sk b' w' \<and> pending sk b' w' = [] \<and> only_rx sk w w'"
    using only_rx_refl by auto
next
  fix v w :: "'x world_scheme"
  assume "only_rx sk v w"
  then show "signed_char w = signed_char v" by (rule only_rx_keeps) simp
qed (auto intro: only_rx_refl only_rx_trans)

text \<open>The characters a line may hold: \<open>0xFF\<close> is end of file where \<open>char\<close> is signed.\<close>

definition text_char :: "bool \<Rightarrow> char \<Rightarrow> bool" where
  "text_char sg c \<longleftrightarrow> c \<noteq> nl \<and> c \<noteq> NUL \<and> (sg \<longrightarrow> c \<noteq> CHR 0xFF)"

lemma char_int_EOF: "char_int sg c = EOF \<longleftrightarrow> sg \<and> c = CHR 0xFF"
proof
  assume eq: "char_int sg c = EOF"
  then have "int_char (char_int sg c) = int_char EOF" by simp
  then have "c = CHR 0xFF" by (simp add: int_char_EOF)
  moreover have sg using eq by (cases sg) (simp_all add: char_int_def EOF_def Let_def)
  ultimately show "sg \<and> c = CHR 0xFF" by simp
qed (simp add: char_int_def EOF_def)

lemma line_char_text: "line_source.line_char w c \<longleftrightarrow> text_char (signed_char w) c"
  by (auto simp: line_source.line_char_def text_char_def char_int_EOF)

lemma readline_partial:
  assumes "reader_ok sk b w" "pending sk b w = line" "\<And>c. c \<in> set line \<Longrightarrow> text_char (signed_char w) c"
    and "i + length line < length buf"
  shows "\<exists>b' w'. readline_loop (tcp_getchar_bs eh sk) signed_char b buf i w =
      (Ret (int (i + length line), b', take i buf @ line @ NUL # drop (i + length line + 1) buf), w') \<and>
    reader_ok sk b' w' \<and> pending sk b' w' = [] \<and> only_rx sk w w'"
  using line_source.readline_closed [OF assms(1,2) _ assms(4), of eh] assms(3) by (simp add: line_char_text)

section \<open>Read errors\<close>

text \<open>An error handler that returns, as the client's does.\<close>

definition handler_returns :: "(string \<Rightarrow> ('x, unit) os) \<Rightarrow> bool" where
  "handler_returns eh \<longleftrightarrow> (\<forall>m w. eh m w = (Ret (), w))"

text \<open>
  The bytes that the reader hands out when reads may fail: each failed read counts as one
  byte \<open>0xFF\<close>, the conversion of \<open>EOF\<close> to \<open>char\<close>.
\<close>

fun rx_or_eof :: "rx_event \<Rightarrow> string" where
  "rx_or_eof (Data d) = d"
| "rx_or_eof (RxErr e) = [CHR 0xFF]"

definition arriving :: "int \<Rightarrow> buffer_tcp \<Rightarrow> 'x world_scheme \<Rightarrow> string" where
  "arriving sk b w = unread b @ concat (map rx_or_eof (s_rx (socks w sk)))"

definition reader_open :: "int \<Rightarrow> buffer_tcp \<Rightarrow> 'x world_scheme \<Rightarrow> bool" where
  "reader_open sk b w \<longleftrightarrow> length (b_buffer b) = BUFSIZ + 1 \<and> 0 \<le> b_i b \<and> b_dim b \<le> int BUFSIZ \<and>
     s_open (socks w sk) \<and> \<not> s_nonblk (socks w sk) \<and> Data [] \<notin> set (s_rx (socks w sk))"

definition only_input :: "int \<Rightarrow> 'x world_scheme \<Rightarrow> 'x world_scheme \<Rightarrow> bool" where
  "only_input sk w w' \<longleftrightarrow> (\<exists>es e. w' = (upd_sock sk (s_rx_update (\<lambda>_. es)) w)\<lparr>errno_val := e\<rparr>)"

lemma only_inputI: "w' = (upd_sock sk (s_rx_update (\<lambda>_. es)) w)\<lparr>errno_val := e\<rparr> \<Longrightarrow> only_input sk w w'"
  by (auto simp: only_input_def)

lemma only_input_refl: "only_input sk w w"
  by (rule only_inputI [where es = "s_rx (socks w sk)" and e = "errno_val w"]) (simp add: upd_sock_def)

lemma only_input_trans: "only_input sk u v \<Longrightarrow> only_input sk v w \<Longrightarrow> only_input sk u w"
  unfolding only_input_def upd_sock_def by (elim exE) (simp, blast)

lemma open_empty: "reader_open sk b w \<Longrightarrow> unread b = [] \<Longrightarrow> b_dim b \<le> b_i b"
  by (auto simp: unread_def reader_open_def split: if_splits)

text \<open>A call with bytes in the buffer, with a failing read, and with a read of data.\<close>

lemma getchar_buffered:
  assumes "reader_open sk b w" "unread b = c # cs" "c \<noteq> NUL"
  shows "tcp_getchar_bs eh sk b w = (Ret (char_int (signed_char w) c, b\<lparr>b_i := b_i b + 1\<rparr>), w)"
    "unread (b\<lparr>b_i := b_i b + 1\<rparr>) = cs" "reader_open sk (b\<lparr>b_i := b_i b + 1\<rparr>) w"
  using unread_Cons [OF assms(2)] assms(1,3)
  by (simp_all add: reader_open_def tcp_getchar_bs_def buffer_next_def run_simps)

lemma getchar_error:
  assumes "reader_open sk b w" "unread b = []" "s_rx (socks w sk) = RxErr e # es" "handler_returns eh"
  shows "tcp_getchar_bs eh sk b w =
    (Ret (EOF, b\<lparr>b_dim := - 1\<rparr>), (upd_sock sk (s_rx_update (\<lambda>_. es)) w)\<lparr>errno_val := e\<rparr>)"
proof -
  let ?w = "(upd_sock sk (s_rx_update (\<lambda>_. es)) w)\<lparr>errno_val := e\<rparr>"
  have "os_read sk BUFSIZ w = (Ret (- 1, []), ?w)"
    using assms(1,3) by (simp add: os_read_def reader_open_def fail_with_run)
  moreover have "\<not> s_nonblk (socks ?w sk)" using assms(1) by (simp add: reader_open_def)
  ultimately have "tcp_receive eh sk (b_buffer b) w = (Ret (- 1, b_buffer b), ?w)"
    using assms(4) by (simp add: tcp_receive_def receive_error_def run_simps handler_returns_def)
  then show ?thesis using open_empty [OF assms(1,2)] by (simp add: tcp_getchar_bs_def run_simps)
qed

lemma getchar_read:
  assumes "reader_open sk b w" "unread b = []" "s_rx (socks w sk) = Data d # es"
  defines "bytes \<equiv> take BUFSIZ d" and "es' \<equiv> if length d \<le> BUFSIZ then es else Data (drop BUFSIZ d) # es"
  defines "b' \<equiv> b\<lparr>b_dim := int (length bytes), b_buffer := store_at (bytes @ [NUL]) (b_buffer b), b_i := 0\<rparr>"
    and "w' \<equiv> upd_sock sk (s_rx_update (\<lambda>_. es')) w"
  shows "tcp_getchar_bs eh sk b w = buffer_next b' w'" "reader_open sk b' w'" "unread b' = bytes"
    "bytes @ concat (map rx_or_eof es') = arriving sk b w" "bytes \<noteq> []"
proof -
  have d: "d \<noteq> []" using assms(1,3) by (auto simp: reader_open_def)
  show "tcp_getchar_bs eh sk b w = buffer_next b' w'"
    using assms(1,3) open_empty [OF assms(1,2)]
    by (simp add: tcp_getchar_bs_def tcp_receive_def run_simps os_read_def reader_open_def b'_def w'_def es'_def bytes_def)
  have "length (bytes @ [NUL]) \<le> length (b_buffer b)" using assms(1) by (simp add: bytes_def reader_open_def)
  then show "reader_open sk b' w'"
    using assms(1,3) by (auto simp: reader_open_def b'_def w'_def es'_def length_store_at bytes_def)
  show "bytes \<noteq> []" using d by (simp add: bytes_def BUFSIZ_def)
  then show "unread b' = bytes" by (simp add: unread_def b'_def store_at_def)
  show "bytes @ concat (map rx_or_eof es') = arriving sk b w"
    using assms(2,3) by (simp add: arriving_def bytes_def es'_def)
qed

lemma getchar_arriving:
  assumes "reader_open sk b w" "handler_returns eh" "arriving sk b w = c # cs" "c \<noteq> NUL"
  shows "\<exists>v b' w'. tcp_getchar_bs eh sk b w = (Ret (v, b'), w') \<and> int_char v = c \<and>
    reader_open sk b' w' \<and> arriving sk b' w' = cs \<and> only_input sk w w'"
proof (cases "unread b")
  case (Cons d ds)
  with assms(3) have "d = c" "cs = ds @ concat (map rx_or_eof (s_rx (socks w sk)))" by (simp_all add: arriving_def)
  with getchar_buffered [OF assms(1) Cons] assms(4) only_input_refl show ?thesis
    by (auto simp: arriving_def)
next
  case Nil
  obtain x es where rx: "s_rx (socks w sk) = x # es"
    using assms(3) Nil by (cases "s_rx (socks w sk)") (simp_all add: arriving_def)
  show ?thesis
  proof (cases x)
    case (RxErr e)
    let ?w = "(upd_sock sk (s_rx_update (\<lambda>_. es)) w)\<lparr>errno_val := e\<rparr>"
    have c: "c = CHR 0xFF" "cs = concat (map rx_or_eof es)" using assms(3) Nil rx RxErr by (auto simp: arriving_def)
    have "unread (b\<lparr>b_dim := - 1\<rparr>) = []" using assms(1) by (simp add: unread_def reader_open_def)
    moreover have "reader_open sk (b\<lparr>b_dim := - 1\<rparr>) ?w" using assms(1) rx by (simp add: reader_open_def)
    ultimately show ?thesis
      using getchar_error [OF assms(1) Nil rx [unfolded RxErr] assms(2)] c only_inputI [where w = w and w' = ?w, OF refl]
      by (auto simp: arriving_def int_char_EOF)
  next
    case (Data d)
    let ?es = "if length d \<le> BUFSIZ then es else Data (drop BUFSIZ d) # es"
    let ?w = "upd_sock sk (s_rx_update (\<lambda>_. ?es)) w"
    note r = getchar_read [OF assms(1) Nil rx [unfolded Data]]
    obtain ds where ds: "take BUFSIZ d = c # ds" "cs = ds @ concat (map rx_or_eof ?es)"
      using r(4,5) assms(3) by (cases "take BUFSIZ d") auto
    note un = unread_Cons [OF r(3) [unfolded ds(1)]]
    have "only_input sk w ?w"
      by (rule only_inputI [where es = ?es and e = "errno_val w"]) (simp add: upd_sock_def)
    moreover have "buffer_next b1 v = (Ret (char_int (signed_char v) c, b1\<lparr>b_i := b_i b1 + 1\<rparr>), v) \<and>
        unread (b1\<lparr>b_i := b_i b1 + 1\<rparr>) = ds \<and> reader_open sk (b1\<lparr>b_i := b_i b1 + 1\<rparr>) v"
      if "reader_open sk b1 v" "unread b1 = c # ds" for b1 and v :: "'x world_scheme"
      using unread_Cons [OF that(2)] that(1) by (simp add: reader_open_def buffer_next_def run_simps)
    ultimately show ?thesis
      using r(1-3) ds by (fastforce simp: arriving_def)
  qed
qed

lemma getchar_ended:
  assumes "reader_open sk b w" "arriving sk b w = []"
  shows "\<exists>b'. tcp_getchar_bs eh sk b w = (Ret (0, b'), w) \<and> reader_open sk b' w \<and> arriving sk b' w = []"
proof -
  have "\<forall>x \<in> set (s_rx (socks w sk)). rx_or_eof x = []" using assms(2) by (simp add: arriving_def)
  moreover have "x = Data []" if "rx_or_eof x = []" for x using that by (cases x) simp_all
  ultimately have rx: "s_rx (socks w sk) = []"
    using assms(1) by (cases "s_rx (socks w sk)") (auto simp: reader_open_def)
  with assms have ok: "reader_ok sk b w" "pending sk b w = []"
    by (simp_all add: reader_open_def reader_ok_def rx_clean_def arriving_def pending_def rx_text_def)
  with getchar_closed_by_peer [OF ok, of eh] rx assms(1) show ?thesis
    by (auto simp: reader_open_def reader_ok_def arriving_def pending_def)
qed

interpretation error_source: closing_source "tcp_getchar_bs eh sk" signed_char "arriving sk"
  "\<lambda>b w. reader_open sk b w \<and> handler_returns eh" "\<lambda>c. c \<noteq> NUL" "only_input sk"
  for eh :: "string \<Rightarrow> ('x, unit) os" and sk
proof unfold_locales
  fix b :: buffer_tcp and w :: "'x world_scheme" and c cs
  assume "reader_open sk b w \<and> handler_returns eh" "arriving sk b w = c # cs" "c \<noteq> NUL"
  then show "\<exists>v b' w'. tcp_getchar_bs eh sk b w = (Ret (v, b'), w') \<and> int_char v = c \<and>
      (reader_open sk b' w' \<and> handler_returns eh) \<and> arriving sk b' w' = cs \<and> only_input sk w w'"
    using getchar_arriving [of sk b w eh c cs] by auto
next
  fix b :: buffer_tcp and w :: "'x world_scheme"
  assume "reader_open sk b w \<and> handler_returns eh" "arriving sk b w = []"
  then show "\<exists>b' w'. tcp_getchar_bs eh sk b w = (Ret (0, b'), w') \<and>
      (reader_open sk b' w' \<and> handler_returns eh) \<and> arriving sk b' w' = [] \<and> only_input sk w w'"
    using getchar_ended [of sk b w eh] only_input_refl by auto
next
  fix v w :: "'x world_scheme"
  assume "only_input sk v w"
  then show "signed_char w = signed_char v" by (auto simp: only_input_def upd_sock_def)
qed (auto intro: only_input_refl only_input_trans)

lemma error_line_char: "error_source.line_char w c \<longleftrightarrow> text_char (signed_char w) c"
  by (auto simp: error_source.line_char_def text_char_def char_int_EOF)

text \<open>The line reader on the buffered reader.\<close>

lemma tcp_readline_run:
  assumes "reader_ok sk b w" "pending sk b w = line @ nl # rest"
    and "list_all (text_char (signed_char w)) line" "length line < length buf"
  shows "\<exists>b' w'. tcp_readline eh sk b buf w =
      (Ret (int (length line), b', line @ NUL # drop (length line + 1) buf), w') \<and>
    cstr_of (line @ NUL # drop (length line + 1) buf) = Some line \<and>
    reader_ok sk b' w' \<and> pending sk b' w' = rest \<and> only_rx sk w w'"
proof -
  have "nul_free line" using assms(3) by (auto simp: nul_free_def list_all_iff text_char_def)
  moreover have "\<exists>b' w'. tcp_readline eh sk b buf w =
      (Ret (int (0 + length line), b', take 0 buf @ line @ NUL # drop (0 + length line + 1) buf), w') \<and>
    reader_ok sk b' w' \<and> pending sk b' w' = rest \<and> only_rx sk w w'"
    unfolding tcp_readline_def
    by (rule line_source.readline_line [OF assms(1,2)])
      (use assms(3,4) in \<open>auto simp: list_all_iff line_char_text\<close>)
  ultimately show ?thesis by (simp add: cstr_of_terminated)
qed

section \<open>Properties\<close>

text \<open>
  C11. \<open>tcp_readline\<close> delivers exactly one line: when the bytes still to come on the
  connection are a line, a newline and a rest, the line is stored with a terminator, its
  length is returned, and the rest stays for the next call. The bytes may be split over
  the reads of the connection and the buffer in any way.
\<close>

theorem tcp_readline_line:
  assumes "reader_ok sk b w" "pending sk b w = line @ nl # rest"
    and "list_all (text_char (signed_char w)) line" "length line < length buf"
  shows "\<exists>b' w'. tcp_readline eh sk b buf w =
      (Ret (int (length line), b', line @ NUL # drop (length line + 1) buf), w') \<and>
    cstr_of (line @ NUL # drop (length line + 1) buf) = Some line \<and>
    reader_ok sk b' w' \<and> pending sk b' w' = rest \<and> only_rx sk w w'"
  by (rule tcp_readline_run [OF assms])

theorem tcp_readline_line_witness:
  "\<exists>b' w'. tcp_readline (\<lambda>_. mret ()) 4 (init_buffer_tcp (replicate (BUFSIZ + 1) NUL)) (replicate 20 NUL)
     (world_with_rx [Data ''STA'', Data (''TUS'' @ [nl] @ ''ST''), Data ''OP'']) =
     (Ret (6, b', ''STATUS'' @ replicate 14 NUL), w') \<and> pending 4 b' w' = ''STOP''"
proof -
  have r: "reader_ok 4 (init_buffer_tcp (replicate (BUFSIZ + 1) NUL))
      (world_with_rx [Data ''STA'', Data (''TUS'' @ [nl] @ ''ST''), Data ''OP''])"
    by (simp add: reader_ok_def init_buffer_tcp_def plain_world_defs rx_clean_def upd_sock_def)
  have p: "pending 4 (init_buffer_tcp (replicate (BUFSIZ + 1) NUL))
      (world_with_rx [Data ''STA'', Data (''TUS'' @ [nl] @ ''ST''), Data ''OP'']) = ''STATUS'' @ nl # ''STOP''"
    by (simp add: pending_def unread_def init_buffer_tcp_def plain_world_defs rx_text_def upd_sock_def)
  have t: "list_all (text_char True) ''STATUS''" by (simp add: text_char_def nl_def NUL_def)
  have sg: "signed_char (world_with_rx es) = True" for es by (simp add: plain_world_defs upd_sock_def)
  have len: "length ''STATUS'' < length (replicate 20 NUL)" by simp
  have d: "''STATUS'' @ NUL # drop (length ''STATUS'' + 1) (replicate 20 NUL) = ''STATUS'' @ replicate 14 NUL"
    by (simp add: numeral_eq_Suc)
  show ?thesis
    using tcp_readline_line [OF r p _ len, of "\<lambda>_. mret ()"] t unfolding sg d by auto
qed

text \<open>
  C37. \<open>tcp_readline\<close> does not check the size of its array: a line that is as long as the
  array or longer is written past its end. The arrays of the callers have \<open>BUFSIZ + 1\<close>
  elements, so that a peer that sends a line of more than \<open>BUFSIZ\<close> characters causes it.
\<close>

theorem tcp_readline_overflow:
  assumes "reader_ok sk b w" "pending sk b w = line @ c # rest"
    and "list_all (text_char (signed_char w)) line" "c = nl \<or> text_char (signed_char w) c"
    and "length line = length buf"
  shows "outcome_of (tcp_readline eh sk b buf) w = Undef Buf_Overflow"
proof -
  have "\<exists>w'. tcp_readline eh sk b buf w = (Undef Buf_Overflow, w') \<and> only_rx sk w w'"
    unfolding tcp_readline_def
    by (rule line_source.readline_overflow [OF assms(1,2)])
      (use assms(3-5) in \<open>auto simp: list_all_iff line_char_text text_char_def\<close>)
  then show ?thesis by auto
qed

theorem tcp_readline_overflow_witness:
  "outcome_of (tcp_readline (\<lambda>_. mret ()) 4 (init_buffer_tcp (replicate (BUFSIZ + 1) NUL)) (replicate 3 NUL))
     (world_with_rx [Data ''STATUS'']) = Undef Buf_Overflow"
proof (rule tcp_readline_overflow [where line = "''STA''" and c = "CHR ''T''" and rest = "''US''"])
  show "reader_ok 4 (init_buffer_tcp (replicate (BUFSIZ + 1) NUL)) (world_with_rx [Data ''STATUS''])"
    by (simp add: reader_ok_def init_buffer_tcp_def plain_world_defs rx_clean_def upd_sock_def)
  show "pending 4 (init_buffer_tcp (replicate (BUFSIZ + 1) NUL)) (world_with_rx [Data ''STATUS'']) =
      ''STA'' @ CHR ''T'' # ''US''"
    by (simp add: pending_def unread_def init_buffer_tcp_def plain_world_defs rx_text_def upd_sock_def)
qed (simp_all add: text_char_def nl_def NUL_def plain_world_defs upd_sock_def)

text \<open>
  C38. When the peer closes in the middle of a line, \<open>tcp_readline\<close> returns the characters
  received so far as if they were a whole line: its result is their number, never
  \<open>EOF\<close>. A close between two lines is a line of length 0.
\<close>

theorem tcp_readline_peer_closed:
  assumes "reader_ok sk b w" "pending sk b w = line"
    and "list_all (text_char (signed_char w)) line" "length line < length buf"
  shows "\<exists>b' w'. tcp_readline eh sk b buf w =
      (Ret (int (length line), b', line @ NUL # drop (length line + 1) buf), w') \<and>
    reader_ok sk b' w' \<and> pending sk b' w' = [] \<and> only_rx sk w w'"
proof -
  have "\<exists>b' w'. tcp_readline eh sk b buf w =
      (Ret (int (0 + length line), b', take 0 buf @ line @ NUL # drop (0 + length line + 1) buf), w') \<and>
    reader_ok sk b' w' \<and> pending sk b' w' = [] \<and> only_rx sk w w'"
    unfolding tcp_readline_def
    by (rule readline_partial [OF assms(1,2)]) (use assms(3,4) in \<open>auto simp: list_all_iff\<close>)
  then show ?thesis by simp
qed

theorem tcp_readline_peer_closed_witness:
  "\<exists>b' w'. tcp_readline (\<lambda>_. mret ()) 4 (init_buffer_tcp (replicate (BUFSIZ + 1) NUL)) (replicate 20 NUL)
     (world_with_rx [Data ''STA'']) = (Ret (3, b', ''STA'' @ replicate 17 NUL), w')"
proof -
  have r: "reader_ok 4 (init_buffer_tcp (replicate (BUFSIZ + 1) NUL)) (world_with_rx [Data ''STA''])"
    by (simp add: reader_ok_def init_buffer_tcp_def plain_world_defs rx_clean_def upd_sock_def)
  have p: "pending 4 (init_buffer_tcp (replicate (BUFSIZ + 1) NUL)) (world_with_rx [Data ''STA'']) = ''STA''"
    by (simp add: pending_def unread_def init_buffer_tcp_def plain_world_defs rx_text_def upd_sock_def)
  have t: "list_all (text_char True) ''STA''" by (simp add: text_char_def nl_def NUL_def)
  have sg: "signed_char (world_with_rx es) = True" for es by (simp add: plain_world_defs upd_sock_def)
  have len: "length ''STA'' < length (replicate 20 NUL)" by simp
  have d: "''STA'' @ NUL # drop (length ''STA'' + 1) (replicate 20 NUL) = ''STA'' @ replicate 17 NUL"
    by (simp add: numeral_eq_Suc)
  show ?thesis
    using tcp_readline_peer_closed [OF r p _ len, of "\<lambda>_. mret ()"] t unfolding sg d by auto
qed

text \<open>
  C39. Read errors, with an error handler that returns as the client's does: for
  \<open>tcp_readline\<close> a failed read is a byte \<open>0xFF\<close>, wherever and however often it happens. Where
  \<open>char\<close> is signed that byte is \<open>EOF\<close>: the line ends there, \<open>EOF\<close> is returned, and the characters
  before it are in the array without a terminator. Where \<open>char\<close> is unsigned it is never
  \<open>EOF\<close>: the byte becomes a character of the line and reading goes on, up to the newline, the
  end of the input, or past the end of the array. (\<open>arriving\<close> are the bytes to come, with a
  \<open>0xFF\<close> for each failed read.)
\<close>

theorem tcp_readline_read_error:
  assumes "reader_open sk b w" "handler_returns eh" "list_all (text_char (signed_char w)) line"
  shows "(arriving sk b w = line @ CHR 0xFF # rest \<and> signed_char w \<and> length line \<le> length buf \<longrightarrow>
      (\<exists>b' w'. tcp_readline eh sk b buf w = (Ret (EOF, b', line @ drop (length line) buf), w') \<and>
        arriving sk b' w' = rest \<and> only_input sk w w')) \<and>
    (arriving sk b w = line @ nl # rest \<and> length line < length buf \<longrightarrow>
      (\<exists>b' w'. tcp_readline eh sk b buf w = (Ret (int (length line), b', line @ NUL # drop (length line + 1) buf), w') \<and>
        arriving sk b' w' = rest \<and> only_input sk w w')) \<and>
    (arriving sk b w = line \<and> length line < length buf \<longrightarrow>
      (\<exists>b' w'. tcp_readline eh sk b buf w = (Ret (int (length line), b', line @ NUL # drop (length line + 1) buf), w') \<and>
        arriving sk b' w' = [] \<and> only_input sk w w')) \<and>
    (\<forall>c. arriving sk b w = line @ c # rest \<and> length line = length buf \<and> (c = nl \<or> text_char (signed_char w) c) \<longrightarrow>
      outcome_of (tcp_readline eh sk b buf) w = Undef Buf_Overflow)"
proof -
  have ok: "reader_open sk b w \<and> handler_returns eh" using assms(1,2) by simp
  have line: "error_source.line_char w c" if "c \<in> set line" for c
    using that assms(3) by (simp add: error_line_char list_all_iff)
  have ff: "CHR 0xFF \<noteq> nl" "CHR 0xFF \<noteq> NUL" by (simp_all add: nl_def NUL_def)
  note eof = error_source.readline_eof [OF ok _ line, where c = "CHR 0xFF" and i = 0 and buf = buf]
  note full = error_source.readline_line [OF ok _ line, where i = 0 and buf = buf]
  note closed = error_source.readline_closed [OF ok _ line, where i = 0 and buf = buf]
  note over = error_source.readline_overflow [OF ok _ line, where i = 0 and buf = buf]
  show ?thesis
    unfolding tcp_readline_def
    using eof [where rest = rest] full [where rest = rest] closed over [where rest = rest]
    by (auto simp: char_int_EOF error_line_char text_char_def ff)
qed

text \<open>One failed read, then the end of the input: a line of one character where \<open>char\<close> is unsigned.\<close>

theorem tcp_readline_read_error_witness:
  "\<exists>b' w'. tcp_readline (\<lambda>_. mret ()) 4 (init_buffer_tcp (replicate (BUFSIZ + 1) NUL)) (replicate 3 NUL)
     ((world_with_rx [RxErr EIO])\<lparr>signed_char := False\<rparr>) = (Ret (1, b', [CHR 0xFF, NUL, NUL]), w')"
proof -
  let ?w = "(world_with_rx [RxErr EIO])\<lparr>signed_char := False\<rparr>"
  let ?b = "init_buffer_tcp (replicate (BUFSIZ + 1) NUL)"
  have "reader_open 4 ?b ?w" "arriving 4 ?b ?w = [CHR 0xFF]"
    by (simp_all add: reader_open_def arriving_def unread_def init_buffer_tcp_def plain_world_defs upd_sock_def)
  moreover have "handler_returns ((\<lambda>_. mret ()) :: string \<Rightarrow> (unit, unit) os)" by (simp add: handler_returns_def mret_run)
  moreover have "list_all (text_char (signed_char ?w)) [CHR 0xFF]" by (simp add: text_char_def nl_def NUL_def)
  ultimately show ?thesis
    using tcp_readline_read_error [of 4 ?b ?w "\<lambda>_. mret ()" "[CHR 0xFF]" "[]" "replicate 3 NUL"]
    by (auto simp: numeral_eq_Suc)
qed

text \<open>
  C40. \<open>sleepms\<close> sleeps the given time only below one second: from 1000 to 2147 ms the
  nanoseconds are not a valid \<open>timespec\<close> and it returns at once with \<open>EINVAL\<close>, and above
  that the multiplication overflows \<open>int\<close>.
\<close>

theorem sleepms_ranges:
  "sleepms ms w =
    (if ms < - 2147 \<or> 2147 < ms then (Undef Int_Overflow, w)
     else if 0 \<le> ms \<and> ms < 1000 then (Ret (), w\<lparr>slept := slept w + ms * 1000000\<rparr>)
     else (Ret (), w\<lparr>errno_val := EINVAL\<rparr>))"
proof -
  have "int32 (ms * 1000000) \<longleftrightarrow> - 2147 \<le> ms \<and> ms \<le> 2147"
  proof -
    have "(2::int) ^ 31 = 2147483648" by simp
    then show ?thesis unfolding int32_def by linarith
  qed
  moreover have "0 \<le> ms * 1000000 \<longleftrightarrow> 0 \<le> ms" "ms * 1000000 < 1000000000 \<longleftrightarrow> ms < 1000"
    by linarith+
  ultimately show ?thesis
    by (cases "0 \<le> ms"; cases "ms < 1000")
      (simp_all only: sleepms_def os_nanosleep_def, simp_all add: mstop_run fail_with_run not_less not_le)
qed

end
