(* ===== verification/File_Rename.thy ===== *)
theory File_Rename
  imports Os_World
begin

text \<open>
  \<open>rename\<close> of the C library on the file store: what lies at and below the old path moves to
  the new one. The lemmas give the store after the move and show that it stays well formed.
\<close>

section \<open>Moving a subtree\<close>

definition moved :: "path \<Rightarrow> path \<Rightarrow> path \<Rightarrow> path" where
  "moved p q r = (if prefix p r then q @ drop (length p) r else r)"

definition move_tree :: "path \<Rightarrow> path \<Rightarrow> store \<Rightarrow> store" where
  "move_tree p q st = map (\<lambda>(r, n). (moved p q r, n)) (del_node q st)"

text \<open>
  The target has a directory above it, is not inside the source, and is at most a node with
  nothing below it.
\<close>

definition movable :: "store \<Rightarrow> path \<Rightarrow> path \<Rightarrow> bool" where
  "movable st p q \<longleftrightarrow> store_wf st \<and> p \<noteq> [] \<and> q \<noteq> [] \<and> node_at st p \<noteq> None \<and> \<not> prefix p q \<and>
     node_at st (butlast q) = Some Dir \<and> children st q = []"

lemma below_target:
  assumes "movable st p q" "node_at st r \<noteq> None"
  shows "\<not> strict_prefix q r"
proof
  assume "strict_prefix q r"
  then obtain c s where r: "r = (q @ [c]) @ s" by (auto elim: strict_prefixE')
  have "node_at st (q @ [c]) \<noteq> None"
    using assms st.look_above [of st "q @ [c]" s] r by (cases "s = []") (auto simp: movable_def)
  moreover have "c \<notin> set (children st q)" using assms(1) by (simp add: movable_def)
  ultimately show False using assms(1) children_set [of st q] by (simp add: movable_def)
qed

lemma moved_other: "\<not> prefix p r \<Longrightarrow> moved p q r = r"
  by (simp add: moved_def)

lemma moved_inside: "moved p q (p @ r) = q @ r"
  by (simp add: moved_def)

lemma moved_inj:
  assumes m: "movable st p q" and r: "node_at st r \<noteq> None" "r \<noteq> q" and s: "node_at st s \<noteq> None" "s \<noteq> q"
    and eq: "moved p q r = moved p q s"
  shows "r = s"
proof -
  have nq: "\<not> prefix q r" "\<not> prefix q s"
    using below_target [OF m r(1)] below_target [OF m s(1)] r(2) s(2) by (auto simp: strict_prefix_def)
  show ?thesis
  proof (cases "prefix p r"; cases "prefix p s")
    assume "prefix p r" "prefix p s"
    then show ?thesis using eq by (auto simp: moved_def prefix_def)
  qed (use eq nq in \<open>auto simp: moved_def prefix_def\<close>)
qed

lemma node_at_Some: "distinct (map fst st) \<Longrightarrow> r \<noteq> [] \<Longrightarrow> node_at st r = Some n \<longleftrightarrow> (r, n) \<in> set st"
  by (simp add: node_at_def)

lemma set_del_node: "distinct (map fst st) \<Longrightarrow> set (del_node q st) = {(r, n). (r, n) \<in> set st \<and> r \<noteq> q}"
  by (induction st) (auto simp: del_node_def)

lemma distinct_del_node: "distinct (map fst st) \<Longrightarrow> distinct (map fst (del_node q st))"
  by (simp add: del_node_def distinct_delete)

lemma keys_move_tree: "map fst (move_tree p q st) = map (moved p q) (map fst (del_node q st))"
  by (simp add: move_tree_def split_beta)

lemma move_tree_distinct:
  assumes "movable st p q"
  shows "distinct (map fst (move_tree p q st))"
proof -
  have d: "distinct (map fst st)" and ne: "[] \<notin> set (map fst st)"
    using assms by (simp_all add: movable_def store_wf_def)
  have "inj_on (moved p q) (set (map fst (del_node q st)))"
  proof (rule inj_onI)
    fix r s
    assume r: "r \<in> set (map fst (del_node q st))" and s: "s \<in> set (map fst (del_node q st))"
      and eq: "moved p q r = moved p q s"
    have "r \<in> set (map fst st) \<and> r \<noteq> q" "s \<in> set (map fst st) \<and> s \<noteq> q"
      using r s unfolding keys_del_node by blast+
    then have "node_at st r \<noteq> None \<and> r \<noteq> q" "node_at st s \<noteq> None \<and> s \<noteq> q"
      using ne node_at_key [of r st] node_at_key [of s st] by metis+
    with moved_inj [OF assms _ _ _ _ eq] show "r = s" by blast
  qed
  then show ?thesis using distinct_del_node [OF d, of q] by (simp only: keys_move_tree distinct_map)
qed

text \<open>The store after the move.\<close>

lemma node_at_move_tree:
  assumes m: "movable st p q"
  shows "node_at (move_tree p q st) r =
    (if prefix q r then node_at st (p @ drop (length q) r)
     else if prefix p r then None else node_at st r)"
proof (cases "r = []")
  case True
  with m show ?thesis by (simp add: node_at_def movable_def)
next
  case False
  have d: "distinct (map fst st)" "[] \<notin> set (map fst st)" and p: "p \<noteq> []" and q: "q \<noteq> []"
    using m by (simp_all add: movable_def store_wf_def)
  have key: "node_at st s \<noteq> None" if "(s, n) \<in> set st" for s n
    using that d by (cases "s = []") (auto simp: node_at_Some image_iff)
  have "node_at (move_tree p q st) r = Some n \<longleftrightarrow>
      (\<exists>s. (s, n) \<in> set st \<and> s \<noteq> q \<and> r = moved p q s)" for n
    using node_at_Some [OF move_tree_distinct [OF m] False, of n] set_del_node [OF d(1), of q]
    by (auto simp: move_tree_def)
  moreover have "(\<exists>s. (s, n) \<in> set st \<and> s \<noteq> q \<and> r = moved p q s) \<longleftrightarrow>
      (if prefix q r then node_at st (p @ drop (length q) r)
       else if prefix p r then None else node_at st r) = Some n" (is "?L \<longleftrightarrow> ?R") for n
  proof
    assume ?L
    then obtain s where s: "(s, n) \<in> set st" "s \<noteq> q" "r = moved p q s" by blast
    have nq: "\<not> prefix q s" using below_target [OF m key [OF s(1)]] s(2) by (auto simp: strict_prefix_def)
    have "s \<noteq> []" using s(1) d(2) by force
    with s(1) d(1) have "node_at st s = Some n" by (simp add: node_at_Some)
    with s(3) nq show ?R by (cases "prefix p s") (auto simp: moved_def prefix_def)
  next
    assume R: ?R
    show ?L
    proof (cases "prefix q r")
      case True
      then obtain t where t: "r = q @ t" by (auto simp: prefix_def)
      with R p d(1) have "(p @ t, n) \<in> set st" by (simp add: node_at_Some)
      moreover have "p @ t \<noteq> q" using m by (auto simp: movable_def)
      ultimately show ?thesis using moved_inside [of p q t] t by metis
    next
      case False
      with R have r: "\<not> prefix p r" "node_at st r = Some n" by (auto split: if_splits)
      with \<open>r \<noteq> []\<close> d(1) have "(r, n) \<in> set st" by (simp add: node_at_Some)
      moreover have "r \<noteq> q" using False by auto
      ultimately show ?thesis using moved_other [OF r(1)] by metis
    qed
  qed
  ultimately have "node_at (move_tree p q st) r = Some n \<longleftrightarrow>
      (if prefix q r then node_at st (p @ drop (length q) r)
       else if prefix p r then None else node_at st r) = Some n" for n
    by blast
  then show ?thesis by (metis not_None_eq)
qed

lemma moved_neq_Nil: "movable st p q \<Longrightarrow> r \<noteq> [] \<Longrightarrow> moved p q r \<noteq> []"
  by (auto simp: moved_def movable_def)

lemma wf_move_tree:
  assumes m: "movable st p q"
  shows "store_wf (move_tree p q st)"
  unfolding store_wf_iff
proof (intro conjI allI impI)
  show "distinct (map fst (move_tree p q st))" by (rule move_tree_distinct [OF m])
  have ne: "[] \<notin> set (map fst (del_node q st))"
    using m unfolding keys_del_node by (auto simp: movable_def store_wf_def)
  show "[] \<notin> set (map fst (move_tree p q st))"
  proof
    assume "[] \<in> set (map fst (move_tree p q st))"
    then have "[] \<in> moved p q ` set (map fst (del_node q st))"
      by (simp only: keys_move_tree set_map)
    with ne moved_neq_Nil [OF m] show False by (metis imageE)
  qed
next
  fix r c
  assume some: "node_at (move_tree p q st) (r @ [c]) \<noteq> None"
  have wf: "store_wf st" and q: "q \<noteq> []" "node_at st (butlast q) = Some Dir" "\<not> prefix p q"
    using m by (auto simp: movable_def)
  show "node_at (move_tree p q st) r = Some Dir"
  proof (cases "prefix q (r @ [c])")
    case True
    show ?thesis
    proof (cases "r @ [c] = q")
      case True
      then have r: "r = butlast q" by auto
      then have "\<not> prefix q r" "\<not> prefix p r" using True q(3) by (auto simp: prefix_def)
      with q(2) r show ?thesis by (simp add: node_at_move_tree [OF m])
    next
      case False
      with True have "prefix q r" by (simp only: prefix_snoc) auto
      then obtain s where s: "r = q @ s" by (auto simp: prefix_def)
      with some have "node_at st ((p @ s) @ [c]) \<noteq> None" by (simp add: node_at_move_tree [OF m])
      with wf have "node_at st (p @ s) = Some Dir" by (rule st.wf_parent)
      with s show ?thesis by (simp add: node_at_move_tree [OF m])
    qed
  next
    case False
    then have r: "\<not> prefix p (r @ [c])" "node_at st (r @ [c]) \<noteq> None" "\<not> prefix q r"
      using some by (auto simp: node_at_move_tree [OF m] split: if_splits)
    then have "\<not> prefix p r" by auto
    with r(3) st.wf_parent [OF wf r(2)] show ?thesis by (simp add: node_at_move_tree [OF m])
  qed
qed

section \<open>\<open>rename\<close>\<close>

definition os_rename :: "string \<Rightarrow> string \<Rightarrow> ('x, int) os" where
  "os_rename old new = (\<lambda>w. let p = pcomps old; q = pcomps new; st = fs w in
     if node_at st p = None then fail_with (missing_errno st p) (- 1) w
     else if q = [] \<or> node_at st (butlast q) \<noteq> Some Dir then fail_with (missing_errno st q) (- 1) w
     else if p = [] \<or> denied ''rename'' p w then fail_with EACCES (- 1) w
     else if p = q then (Ret 0, w)
     else if prefix p q then fail_with EINVAL (- 1) w
     else if node_at st p = Some Dir \<and> node_at st q \<notin> {None, Some Dir} then fail_with ENOTDIR (- 1) w
     else if node_at st p \<noteq> Some Dir \<and> node_at st q = Some Dir then fail_with EISDIR (- 1) w
     else if children st q \<noteq> [] then fail_with ENOTEMPTY (- 1) w
     else (Ret 0, w\<lparr>fs := move_tree p q st\<rparr>))"

lemma os_rename_run:
  assumes "movable (fs w) (pcomps old) (pcomps new)" "\<not> denied ''rename'' (pcomps old) w"
    and "node_at (fs w) (pcomps old) = Some Dir" "node_at (fs w) (pcomps new) \<in> {None, Some Dir}"
  shows "os_rename old new w = (Ret 0, w\<lparr>fs := move_tree (pcomps old) (pcomps new) (fs w)\<rparr>)"
  using assms by (auto simp: os_rename_def movable_def Let_def)

lemma preserves_fs_ok_rename [frame_intros]: "preserves fs_ok (os_rename old new)"
proof (rule preservesI)
  fix w :: "'a world_scheme"
  assume "fs_ok w"
  then have wf: "store_wf (fs w)" by (simp add: fs_ok_def)
  show "fs_ok (world_after (os_rename old new) w)"
    using wf wf_move_tree [of "fs w" "pcomps old" "pcomps new"]
    by (auto simp: os_rename_def fs_ok_def fail_with_run Let_def movable_def)
qed

lemma keeps_os_rename [frame_intros]:
  "(\<And>w e. f (w\<lparr>errno_val := e\<rparr>) = f w) \<Longrightarrow> (\<And>w s. f (w\<lparr>fs := s\<rparr>) = f w) \<Longrightarrow> keeps f (os_rename p q)"
  by (auto simp: os_rename_def keeps_def fail_with_run Let_def)

end
