(* ===== verification/Client_World.thy ===== *)
theory Client_World
  imports Common_Lib File_Rename
begin

text \<open>
  The world of the client: the shared \<open>thread_data\<close> record of \<open>client_lib.h\<close>, its mutex and
  its log file, the keyboard and the screen. A variable that the other thread writes is read
  through a script of the values it is given meanwhile (\<open>env_running\<close>, \<open>env_status\<close>), so that
  a theorem about one thread holds for every behaviour of the other. The theory holds the
  logging function, the clock function and the end of the transmission thread.
\<close>

section \<open>State\<close>

text \<open>The screen is what the curses library is asked to do, call by call.\<close>

datatype curses_call =
    Initscr
  | Noecho
  | Nodelay
  | Printw string
  | Mvprintw int int string
  | Move int int
  | Clrtoeol
  | Refresh
  | Endwin

datatype mutex_state = Mx_Uninit | Mx_Free | Mx_Locked | Mx_Destroyed

record thread_data =
  t_status :: int
  t_running :: int
  t_ip :: string
  t_port :: int
  t_lock :: mutex_state
  t_tr :: tr_info

record client_world = world +
  td :: thread_data
  log_open :: bool
  log :: string                  \<comment> \<open>what the log file holds\<close>
  env_running :: "int list"
  env_status :: "int list"
  keys :: "int list"             \<comment> \<open>the next results of \<open>getch\<close>, then \<open>ERR\<close>\<close>
  screen :: "curses_call list"
  create_ok :: "bool list"       \<comment> \<open>results of the next \<open>pthread_create\<close> calls, then success\<close>
  join_ok :: bool
  tid_set :: bool                \<comment> \<open>the identifier of the main thread's \<open>thread_id\<close> is valid\<close>
  threads :: nat                 \<comment> \<open>transmission threads created\<close>

type_synonym ('x, 'a) cl = "('x client_world_scheme, 'a) prog"

definition IPLEN :: nat where "IPLEN = 64"

definition MAXCMDLEN :: nat where "MAXCMDLEN = 128"

definition MAX_LOG_FORMAT :: nat where "MAX_LOG_FORMAT = 256"

text \<open>The error handler of the client does nothing.\<close>

definition client_error_handler :: "string \<Rightarrow> ('x, unit) os" where
  "client_error_handler message = mret ()"

section \<open>Mutex, shared variables and log\<close>

definition mutex_lock :: "('x, unit) cl" where
  "mutex_lock = (\<lambda>w. case t_lock (td w) of
       Mx_Free \<Rightarrow> (Ret (), w\<lparr>td := (td w)\<lparr>t_lock := Mx_Locked\<rparr>\<rparr>)
     | Mx_Locked \<Rightarrow> (Blocked, w)
     | Mx_Uninit \<Rightarrow> (Undef Bad_Mutex, w)
     | Mx_Destroyed \<Rightarrow> (Undef Bad_Mutex, w))"

definition mutex_unlock :: "('x, unit) cl" where
  "mutex_unlock = mmod (\<lambda>w. w\<lparr>td := (td w)\<lparr>t_lock := Mx_Free\<rparr>\<rparr>)"

definition set_status :: "int \<Rightarrow> ('x, unit) cl" where
  "set_status v = mmod (\<lambda>w. w\<lparr>td := (td w)\<lparr>t_status := v\<rparr>\<rparr>)"

definition set_running :: "int \<Rightarrow> ('x, unit) cl" where
  "set_running v = mmod (\<lambda>w. w\<lparr>td := (td w)\<lparr>t_running := v\<rparr>\<rparr>)"

text \<open>Reading \<open>running\<close> in the transmission thread and \<open>status\<close> in the main thread.\<close>

definition read_running :: "('x, int) cl" where
  "read_running = (\<lambda>w. case env_running w of
       [] \<Rightarrow> (Ret (t_running (td w)), w)
     | r # rs \<Rightarrow> (Ret r, w\<lparr>td := (td w)\<lparr>t_running := r\<rparr>, env_running := rs\<rparr>))"

definition read_status :: "('x, int) cl" where
  "read_status = (\<lambda>w. case env_status w of
       [] \<Rightarrow> (Ret (t_status (td w)), w)
     | s # ss \<Rightarrow> (Ret s, w\<lparr>td := (td w)\<lparr>t_status := s\<rparr>, env_status := ss\<rparr>))"

definition log_write :: "string \<Rightarrow> ('x, int) cl" where
  "log_write s = (\<lambda>w. if log_open w then (Ret (int (length s)), w\<lparr>log := log w @ s\<rparr>)
     else (Undef Bad_Stream, w))"

text \<open>
  \<open>strftime\<close> stores at most 26 characters with the terminator and leaves the array
  unspecified when there are more; \<open>cap\<close> is the size of the array of the caller.
\<close>

definition TimestampString :: "nat \<Rightarrow> string \<Rightarrow> string \<Rightarrow> ('x, string) os" where
  "TimestampString cap format uninit =
     mbind (mget clock) (\<lambda>tm_info.
     let s = strftime format tm_info
     in if 26 \<le> length s then mret uninit
        else if cap \<le> length s then mstop (Undef Buf_Overflow)
        else mret (store_at (s @ [NUL]) uninit))"

definition PrintLog :: "string \<Rightarrow> farg list \<Rightarrow> ('x, int) cl" where
  "PrintLog format args =
     mbind (mget (uninit_array 26 ''PrintLog.timestamp'')) (\<lambda>uninit.
     mbind (TimestampString 26 ''%Y-%m-%d %H:%M:%S'' uninit) (\<lambda>ts.
     mbind (read_cstr ts) (\<lambda>timestamp.
     let buffer = snprintf MAX_LOG_FORMAT ''%s - %s'' [FStr timestamp, FStr format] in
     mseq mutex_lock
     (mbind (log_write (vformat buffer args)) (\<lambda>ret.
      mseq mutex_unlock (mret ret))))))"

section \<open>The end of the transmission thread\<close>

definition ExitTransmissionThread :: "int \<Rightarrow> int \<Rightarrow> ('x, 'a) cl" where
  "ExitTransmissionThread sk exit_code =
     mseq (PrintLog (ln ''TT - CLOSING TRANSMISSION THREAD'') [])
     (mseq (tcp_send client_error_handler sk (ln ''CLOSE''))
     (mseq (PrintLog (ln ''TT - TRANSMISSION THREAD CLOSED'') [])
     (mseq (set_status exit_code) (mstop Thread_Exit))))"

section \<open>Runs\<close>

text \<open>A world in which the log can be written: the mutex is free, the file open, the clock sane.\<close>

definition log_ok :: "'x client_world_scheme \<Rightarrow> bool" where
  "log_ok w \<longleftrightarrow> t_lock (td w) = Mx_Free \<and> log_open w \<and> printable_tm (clock w)"

definition logged :: "string \<Rightarrow> farg list \<Rightarrow> 'x client_world_scheme \<Rightarrow> 'x client_world_scheme" where
  "logged format args w = w\<lparr>log := log w @
     vformat (snprintf MAX_LOG_FORMAT ''%s - %s'' [FStr (strftime ''%Y-%m-%d %H:%M:%S'' (clock w)), FStr format]) args\<rparr>"

lemma log_time_nul_free: "printable_tm t \<Longrightarrow> nul_free (strftime ''%Y-%m-%d %H:%M:%S'' t)"
  using strftime_log_chars [of t NUL] isdigit_neq [of NUL] by (auto simp: nul_free_def NUL_def)

lemma PrintLog_locks:
  assumes "printable_tm (clock w)"
  shows "PrintLog format args w = mseq mutex_lock
    (mbind (log_write (vformat (snprintf MAX_LOG_FORMAT ''%s - %s''
        [FStr (strftime ''%Y-%m-%d %H:%M:%S'' (clock w)), FStr format]) args))
      (\<lambda>ret. mseq mutex_unlock (mret ret))) w"
proof -
  let ?s = "strftime ''%Y-%m-%d %H:%M:%S'' (clock w)"
  have len: "length ?s = 19" and nf: "nul_free ?s"
    using assms length_strftime_log log_time_nul_free by blast+
  define a where "a = store_at (?s @ [NUL]) (uninit_array 26 ''PrintLog.timestamp'' w)"
  have "cstr_of a = Some ?s" using cstr_of_terminated [OF nf] by (simp add: a_def store_at_def)
  moreover have "TimestampString 26 ''%Y-%m-%d %H:%M:%S'' (uninit_array 26 ''PrintLog.timestamp'' w) w = (Ret a, w)"
    using len by (simp add: TimestampString_def mbind_mget Let_def a_def mret_def del: strftime.simps)
  ultimately show ?thesis
    by (simp add: PrintLog_def mbind_mget mbind_Ret read_cstr_def mret_run Let_def del: strftime.simps)
qed

lemma PrintLog_run: "log_ok w \<Longrightarrow> \<exists>n. PrintLog format args w = (Ret n, logged format args w)"
  by (simp add: PrintLog_locks log_ok_def mseq_def mbind_def mutex_lock_def log_write_def mutex_unlock_def mmod_def mret_def
    logged_def del: strftime.simps)

lemma PrintLog_bad_mutex:
  "t_lock (td w) \<in> {Mx_Destroyed, Mx_Uninit} \<Longrightarrow> printable_tm (clock w) \<Longrightarrow> PrintLog format args w = (Undef Bad_Mutex, w)"
  by (auto simp: PrintLog_locks mseq_def mutex_lock_def mbind_def simp del: strftime.simps)

end
