(* ===== verification/Client_IO.thy ===== *)
theory Client_IO
  imports Client_World
begin

text \<open>
  \<open>app/client/io_lib.c\<close>: the terminal of the client. The functions of the curses library are
  recorded in the field \<open>screen\<close> of the world in the order of the calls, with the text
  they are given; the results of \<open>getch\<close> come from the field \<open>keys\<close>.
\<close>

section \<open>Curses\<close>

definition curs :: "curses_call \<Rightarrow> ('x, unit) cl" where
  "curs c = mmod (\<lambda>w. w\<lparr>screen := screen w @ [c]\<rparr>)"

definition ERR :: int where "ERR = - 1"

definition getch :: "('x, int) cl" where
  "getch = (\<lambda>w. case keys w of [] \<Rightarrow> (Ret ERR, w) | k # ks \<Rightarrow> (Ret k, w\<lparr>keys := ks\<rparr>))"

section \<open>The functions\<close>

text \<open>The line continuations of the source keep the indentation of the next line.\<close>

definition menu_text :: string where
  "menu_text =
     ''(1) : Start the logging system'' @ [nl] @
     replicate 12 CHR '' '' @ [CHR 0x0D] @ ''(2) : Stop the logging system'' @ [nl] @
     replicate 12 CHR '' '' @ [CHR 0x0D] @ ''(3) : Start the transmission'' @ [nl] @
     replicate 12 CHR '' '' @ [CHR 0x0D] @ ''(4) : Stop the transmission'' @ [nl] @
     replicate 12 CHR '' '' @ [CHR 0x0D] @ ''(5) : Quit''"

definition print_command_info :: "int \<Rightarrow> int \<Rightarrow> bool \<Rightarrow> ('x, unit) cl" where
  "print_command_info y x refresh_flag =
     mseq (curs (Mvprintw y x (ln ''Available Commands:'')))
     (mseq (curs (Printw menu_text))
     (if refresh_flag then curs Refresh else mret ()))"

definition InitIO :: "('x, unit) cl" where
  "InitIO =
     mseq (curs Initscr)
     (mseq (curs Noecho)
     (mseq (curs Nodelay)
     (mseq (curs (Printw (ln (ln ''LIDAR Control System''))))
     (mseq (print_command_info 5 0 False) (curs Refresh)))))"

definition EndIO :: "('x, unit) cl" where
  "EndIO = curs Endwin"

definition PrintInfo :: "int \<Rightarrow> int \<Rightarrow> tr_info \<Rightarrow> ('x, unit) cl" where
  "PrintInfo logger_status thread_status tr =
     mseq (curs (Move 2 0))
     (mseq (curs Clrtoeol)
     (mseq (curs Refresh)
     (mseq (if logger_status \<noteq> 0 then curs (Mvprintw 2 0 ''LOGGER: ON'')
            else curs (Mvprintw 2 0 ''LOGGER: OFF''))
     (mseq (if thread_status = 1 then
              mseq (curs (Move 3 0))
              (mseq (curs Clrtoeol)
              (mbind (read_cstr (nd_first (tr_d tr))) (\<lambda>first.
               curs (Mvprintw 3 0 (vformat ''TRANSMISSION:    %s    %d/%d''
                 [FStr first, FInt (nf_first (tr_f tr)), FInt (nf_last (tr_f tr))])))))
            else
              mseq (curs (Move 3 0))
              (mseq (curs Clrtoeol)
              (curs (Mvprintw 3 0 ''TRANSMISSION: OFF''))))
     (curs Refresh)))))"

definition GetUserInput :: "('x, int) cl" where
  "GetUserInput =
     mbind getch (\<lambda>v.
     mbind (mget signed_char) (\<lambda>sg.
     let ch = char_int sg (int_char v)
     in if ch \<noteq> ERR then mret ch else mret (char_int sg (int_char EOF))))"

section \<open>Runs\<close>

lemma curs_run [run_simps]: "curs c w = (Ret (), w\<lparr>screen := screen w @ [c]\<rparr>)"
  by (simp add: curs_def mmod_run)

lemma InitIO_run: "\<exists>cs. InitIO w = (Ret (), w\<lparr>screen := screen w @ cs\<rparr>)"
  by (simp add: InitIO_def print_command_info_def mseq_def mbind_def curs_run mret_run)
    (blast intro: exI [of _ "[_, _, _, _, _, _, _]"])

text \<open>The key pressed, or \<open>EOF\<close> for none, where \<open>char\<close> is signed.\<close>

lemma GetUserInput_key:
  "keys w = v # ks \<Longrightarrow> 0 \<le> v \<Longrightarrow> v < 128 \<Longrightarrow> GetUserInput w = (Ret v, w\<lparr>keys := ks\<rparr>)"
proof -
  assume k: "keys w = v # ks" and v: "0 \<le> v" "v < 128"
  have "char_int sg (int_char v) = v" for sg
    using v by (simp add: char_int_def int_char_def Let_def nat_less_iff)
  with k v show ?thesis
    by (simp add: GetUserInput_def getch_def mbind_def mget_def mret_def ERR_def Let_def)
qed

lemma GetUserInput_none: "keys w = [] \<Longrightarrow> GetUserInput w = (Ret (if signed_char w then EOF else 255), w)"
proof -
  assume k: "keys w = []"
  have "char_int sg (int_char (- 1)) = (if sg then - 1 else 255)" for sg
    using int_char_EOF by (simp add: char_int_def Let_def EOF_def)
  with k show ?thesis
    by (simp add: GetUserInput_def getch_def mbind_def mget_def mret_def ERR_def Let_def EOF_def)
qed

end
