(* ===== verification/Compression.thy ===== *)
theory Compression
  imports Os_World
begin

text \<open>
  \<open>app/common/compression_lib.c\<close>. The zlib functions are not part of the repository: they
  are the fields of the record \<open>zlib\<close>, an argument of the functions that call them, and
  \<open>zlib_ok\<close> states what their documentation promises. A pointer to a heap block is an
  option (\<open>None\<close> is NULL) holding the bytes of the block.
\<close>

section \<open>zlib\<close>

text \<open>
  \<open>z_compress n s\<close> is the return code of \<open>compress\<close> with room for \<open>n\<close> bytes and what it
  stores; \<open>z_uncompress\<close> likewise. The code of success, \<open>Z_OK\<close>, is 0.
\<close>

record zlib =
  z_bound :: "nat \<Rightarrow> nat"
  z_compress :: "nat \<Rightarrow> string \<Rightarrow> int \<times> string"
  z_uncompress :: "nat \<Rightarrow> string \<Rightarrow> int \<times> string"

definition Z_OK :: int where "Z_OK = 0"

text \<open>
  With \<open>compressBound\<close> bytes of room \<open>compress\<close> succeeds within that room, and
  \<open>uncompress\<close> with room for the original gives it back.
\<close>

definition zlib_ok :: "zlib \<Rightarrow> bool" where
  "zlib_ok z \<longleftrightarrow> (\<forall>s. \<exists>c. z_compress z (z_bound z (length s)) s = (Z_OK, c) \<and>
     length c \<le> z_bound z (length s) \<and>
     (\<forall>n. length s \<le> n \<longrightarrow> z_uncompress z n c = (Z_OK, s)))"

section \<open>The functions\<close>

definition copy_file_in_buffer :: "string \<Rightarrow> ('x, int \<times> string option) os" where
  "copy_file_in_buffer filename =
     mbind (os_fopen_read filename) (\<lambda>f. case f of
       None \<Rightarrow> mret (- 1, None)
     | Some content \<Rightarrow>
         mbind (mget (os_ftell_end filename)) (\<lambda>len.
         mbind (os_malloc len) (\<lambda>ok.
         if \<not> ok then mret (- 2, None)
         else mbind (mget (fread_fails filename)) (\<lambda>bad.
         if len \<noteq> 0 \<and> bad then mret (- 3, Some [])
         else mseq os_fclose (mret (len, Some content))))))"

text \<open>The return value, \<open>*in_len\<close>, \<open>*out\<close> and \<open>*out_len\<close>.\<close>

definition compressor ::
  "zlib \<Rightarrow> string \<Rightarrow> int \<Rightarrow> ('x, int \<times> int \<times> string option \<times> int) os" where
  "compressor z filename out_len0 =
     mbind (copy_file_in_buffer filename) (\<lambda>(in_len, inb).
     if in_len < 0 then mseq (os_free (inb \<noteq> None)) (mret (- 1, in_len, None, out_len0))
     else
       (let out_len = int (z_bound z (nat in_len)) in
        mbind (os_malloc out_len) (\<lambda>ok.
        if \<not> ok then mseq (os_free (inb \<noteq> None)) (mret (- 2, in_len, None, out_len))
        else
          (let (ret, c) = z_compress z (nat out_len) (the inb) in
           mseq (os_free (inb \<noteq> None))
             (mret (if ret \<noteq> Z_OK then - 3 else 0, in_len, Some c, int (length c)))))))"

definition copy_buffer_in_file :: "string \<Rightarrow> string \<Rightarrow> int \<Rightarrow> ('x, int) os" where
  "copy_buffer_in_file filename buf len =
     mbind (os_fopen_write filename) (\<lambda>f.
     if \<not> f then mret (- 1)
     else mbind
       (if len = 0 then mret True
        else if len < 0 \<or> int (length buf) < len then mstop (Undef Str_Overread)
        else os_fwrite filename (take (nat len) buf)) (\<lambda>written.
     if \<not> written then mret (- 2)
     else mseq os_fclose (mret 0)))"

text \<open>
  The return value and \<open>*out_len\<close>. The length goes to \<open>copy_buffer_in_file\<close> as an \<open>int\<close>.
\<close>

definition decompressor :: "zlib \<Rightarrow> string \<Rightarrow> string \<Rightarrow> int \<Rightarrow> int \<Rightarrow> ('x, int \<times> int) os" where
  "decompressor z filename inb in_len out_len =
     mbind (os_malloc out_len) (\<lambda>ok.
     if \<not> ok then mseq (os_free False) (mret (- 1, out_len))
     else
       (let (ret, s) = z_uncompress z (nat out_len) (take (nat in_len) inb) in
        if ret \<noteq> Z_OK then mseq (os_free True) (mret (- 2, int (length s)))
        else mbind (copy_buffer_in_file filename s (wrap_int 32 (int (length s)))) (\<lambda>r.
          if r < 0 then mseq (os_free True) (mret (- 3, int (length s)))
          else mseq (os_free True) (mret (0, int (length s))))))"

section \<open>Runs\<close>

lemma keeps_copy_file_in_buffer [frame_intros]:
  "(\<And>w e. f (w\<lparr>errno_val := e\<rparr>) = f w) \<Longrightarrow> (\<And>w n. f (w\<lparr>streams := n\<rparr>) = f w) \<Longrightarrow>
   (\<And>w n. f (w\<lparr>blocks := n\<rparr>) = f w) \<Longrightarrow> keeps f (copy_file_in_buffer p)"
  unfolding copy_file_in_buffer_def
  by (intro frame_intros) simp_all

lemma copy_file_run:
  assumes "node_at (fs w) (pcomps p) = Some (File s)" "\<not> denied ''fopen'' (pcomps p) w"
    and "\<not> denied ''fread'' (pcomps p) w" "int (length s) \<le> malloc_max w"
  shows "copy_file_in_buffer p w = (Ret (int (length s), Some s), w\<lparr>blocks := blocks w + 1\<rparr>)"
  using assms
  by (simp add: copy_file_in_buffer_def os_fopen_read_def os_malloc_def os_fclose_def denied_def
      os_ftell_end_def fread_fails_def mbind_def mseq_def mget_def mmod_def mret_def)

text \<open>The file can be read and there is memory for it and for its compressed form.\<close>

definition readable :: "zlib \<Rightarrow> 'x world_scheme \<Rightarrow> string \<Rightarrow> string \<Rightarrow> bool" where
  "readable z w p s \<longleftrightarrow> node_at (fs w) (pcomps p) = Some (File s) \<and>
     \<not> denied ''fopen'' (pcomps p) w \<and> \<not> denied ''fread'' (pcomps p) w \<and>
     int (length s) \<le> malloc_max w \<and> int (z_bound z (length s)) \<le> malloc_max w"

lemma compressor_run:
  assumes "readable z w p s" "z_compress z (z_bound z (length s)) s = (Z_OK, c)"
  shows "compressor z p n w = (Ret (0, int (length s), Some c, int (length c)), w\<lparr>blocks := blocks w + 1\<rparr>)"
proof -
  have "copy_file_in_buffer p w = (Ret (int (length s), Some s), w\<lparr>blocks := blocks w + 1\<rparr>)"
    using assms(1) by (intro copy_file_run) (simp_all add: readable_def)
  with assms show ?thesis
    by (simp add: compressor_def exec_defs os_malloc_def os_free_def readable_def Z_OK_def)
qed

text \<open>A file can be written: the directory exists, and nothing denies it.\<close>

definition writable :: "'x world_scheme \<Rightarrow> string \<Rightarrow> bool" where
  "writable w p \<longleftrightarrow> pcomps p \<noteq> [] \<and> node_at (fs w) (butlast (pcomps p)) = Some Dir \<and>
     node_at (fs w) (pcomps p) \<noteq> Some Dir \<and>
     \<not> denied ''fopen'' (pcomps p) w \<and> \<not> denied ''fwrite'' (pcomps p) w"

definition with_file :: "string \<Rightarrow> string \<Rightarrow> 'x world_scheme \<Rightarrow> 'x world_scheme" where
  "with_file p s w = w\<lparr>fs := put_node (pcomps p) (File s) (fs w)\<rparr>"

lemma put_node_twice: "put_node p m (put_node p n st) = put_node p m st"
  by (induction st) (auto simp: put_node_def)

lemma copy_buffer_run:
  assumes "writable w p" "n = int (length s)"
  shows "copy_buffer_in_file p s n w = (Ret 0, with_file p s w)"
  using assms
  by (auto simp: copy_buffer_in_file_def os_fopen_write_def os_fwrite_def os_fclose_def writable_def
      with_file_def put_node_twice exec_defs denied_def)

lemma decompressor_run:
  assumes "writable w p" "z_uncompress z (nat n) c = (Z_OK, s)" "0 \<le> n" "n \<le> malloc_max w"
    and "k = int (length c)" "length s < 2 ^ 31"
  shows "decompressor z p c k n w = (Ret (0, int (length s)), with_file p s w)"
proof -
  have "wrap_int 32 (int (length s)) = int (length s)"
    using assms(6) by (intro wrap_int_in_range) simp_all
  moreover have "writable (w\<lparr>blocks := blocks w + 1\<rparr>) p"
    using assms(1) by (simp add: writable_def denied_def)
  ultimately show ?thesis
    using assms copy_buffer_run [of "w\<lparr>blocks := blocks w + 1\<rparr>" p "int (length s)" s]
    by (simp add: decompressor_def exec_defs os_malloc_def os_free_def with_file_def)
qed

lemma node_at_with_file:
  "pcomps p \<noteq> [] \<Longrightarrow>
   node_at (fs (with_file p s w)) q = (if q = pcomps p then Some (File s) else node_at (fs w) q)"
  by (simp add: with_file_def node_at_put)

lemma fs_ok_with_file:
  assumes "fs_ok w" "writable w p"
  shows "fs_ok (with_file p s w)"
  using assms fs_ok_put [of "fs w" "pcomps p" "File s"] by (simp add: fs_ok_def writable_def with_file_def)

text \<open>Every call of these functions returns, and what it leaves allocated is what it hands out.\<close>

lemma copy_file_total:
  "\<exists>r b w'. copy_file_in_buffer p w = (Ret (r, b), w') \<and>
     blocks w' = blocks w + (if b = None then 0 else 1) \<and> fs w' = fs w \<and> socks w' = socks w \<and>
     (r \<in> {- 1, - 2, - 3} \<or> b \<noteq> None \<and> r = int (length (the b)))"
  by (cases "node_at (fs w) (pcomps p)"; cases "the (node_at (fs w) (pcomps p))")
    (auto simp: copy_file_in_buffer_def os_fopen_read_def os_malloc_def os_fclose_def os_ftell_end_def
      fread_fails_def fail_with_run exec_defs)

lemma copy_buffer_total:
  assumes "0 \<le> n" "n \<le> int (length s)"
  shows "\<exists>r w'. copy_buffer_in_file p s n w = (Ret r, w') \<and> r \<in> {0, - 1, - 2} \<and>
     blocks w' = blocks w \<and> socks w' = socks w"
  using assms
  by (auto simp: copy_buffer_in_file_def os_fopen_write_def os_fwrite_def os_fclose_def fail_with_run exec_defs)

section \<open>A concrete codec\<close>

text \<open>A codec that stores its input: the instance of \<open>zlib\<close> for concrete runs.\<close>

definition stored_zlib :: zlib where
  "stored_zlib =
     \<lparr>z_bound = (\<lambda>n. n),
      z_compress = (\<lambda>n s. if length s \<le> n then (0, s) else (- 5, [])),
      z_uncompress = (\<lambda>n s. if length s \<le> n then (0, s) else (- 5, []))\<rparr>"

lemma stored_zlib_ok: "zlib_ok stored_zlib"
  by (simp add: zlib_ok_def stored_zlib_def Z_OK_def)

section \<open>Properties\<close>

text \<open>
  C16. A file compressed by \<open>compressor\<close> and given to \<open>decompressor\<close> with the sizes the
  first call reports is written with its original bytes, in any world in which the target
  can be written, and no other file changes. Files of 2 GiB and more are excluded, because
  the length becomes an \<open>int\<close> on its way to the file.
\<close>

theorem compress_decompress:
  assumes "zlib_ok z" "readable z v p s" "writable w q" "int (length s) \<le> malloc_max w"
    and "length s < 2 ^ 31"
  shows "\<exists>c v'. compressor z p m v = (Ret (0, int (length s), Some c, int (length c)), v') \<and>
    length c \<le> z_bound z (length s) \<and>
    decompressor z q c (int (length c)) (int (length s)) w = (Ret (0, int (length s)), with_file q s w) \<and>
    (\<forall>r. node_at (fs (with_file q s w)) r = (if r = pcomps q then Some (File s) else node_at (fs w) r))"
proof -
  obtain c where c: "z_compress z (z_bound z (length s)) s = (Z_OK, c)"
      "length c \<le> z_bound z (length s)" "z_uncompress z (length s) c = (Z_OK, s)"
    using assms(1) unfolding zlib_ok_def by blast
  have "decompressor z q c (int (length c)) (int (length s)) w = (Ret (0, int (length s)), with_file q s w)"
    using assms c(3) by (intro decompressor_run) auto
  moreover have "pcomps q \<noteq> []" using assms(3) by (simp add: writable_def)
  ultimately show ?thesis using compressor_run [OF assms(2) c(1), of m] c(2) by (auto simp: node_at_with_file)
qed

theorem compress_decompress_witness:
  "\<exists>v'. compressor stored_zlib ''a'' 0 (plain_world\<lparr>fs := [([''a''], File ''xyz'')]\<rparr>) = (Ret (0, 3, Some ''xyz'', 3), v') \<and>
     decompressor stored_zlib ''b'' ''xyz'' 3 3 plain_world = (Ret (0, 3), with_file ''b'' ''xyz'' plain_world)"
proof -
  have a: "pcomps ''a'' = [''a'']" and b: "pcomps ''b'' = [''b'']" by (simp_all add: pcomps_def)
  have "readable stored_zlib (plain_world\<lparr>fs := [([''a''], File ''xyz'')]\<rparr>) ''a'' ''xyz''"
    by (simp add: readable_def a plain_world_defs denied_def node_at_def stored_zlib_def)
  moreover have "writable plain_world ''b''"
    by (simp add: writable_def b plain_world_defs denied_def node_at_def)
  ultimately show ?thesis
    using compress_decompress [OF stored_zlib_ok, of "plain_world\<lparr>fs := [([''a''], File ''xyz'')]\<rparr>" "''a''" "''xyz''"
        plain_world "''b''" 0]
    by (auto simp: stored_zlib_def plain_world_defs compressor_def exec_defs copy_file_in_buffer_def
        os_fopen_read_def os_malloc_def os_free_def os_fclose_def os_ftell_end_def fread_fails_def a denied_def
        node_at_def Z_OK_def)
qed

text \<open>
  C24. \<open>compressor\<close> always returns, with 0 or one of its three error codes; a block stays
  allocated exactly when it is handed out in \<open>*out\<close>, which is the case after every success;
  and it changes neither files nor connections.
\<close>

theorem compressor_outcome:
  "\<exists>r n c k w'. compressor z p m w = (Ret (r, n, c, k), w') \<and> r \<in> {0, - 1, - 2, - 3} \<and>
     blocks w' = blocks w + (if c = None then 0 else 1) \<and> (r = 0 \<longrightarrow> c \<noteq> None) \<and>
     fs w' = fs w \<and> socks w' = socks w"
proof -
  obtain r b w1 where copy: "copy_file_in_buffer p w = (Ret (r, b), w1)"
    and w1: "blocks w1 = blocks w + (if b = None then 0 else 1)" "fs w1 = fs w" "socks w1 = socks w"
    and r: "r \<in> {- 1, - 2, - 3} \<or> b \<noteq> None \<and> r = int (length (the b))"
    using copy_file_total [of p w] by blast
  show ?thesis
  proof (cases "r < 0")
    case True
    with copy w1 show ?thesis by (auto simp: compressor_def os_free_def exec_defs)
  next
    case False
    with r have b: "b \<noteq> None" by auto
    obtain ret c where z: "z_compress z (nat (int (z_bound z (nat r)))) (the b) = (ret, c)" by fastforce
    show ?thesis
      using False copy w1 b z by (auto simp: compressor_def os_malloc_def os_free_def exec_defs)
  qed
qed

theorem compressor_outcome_witness:
  "\<exists>r n k w'. compressor stored_zlib ''a'' 0 plain_world = (Ret (r, n, None, k), w') \<and> blocks w' = 0"
proof -
  obtain r n c k w' where run: "compressor stored_zlib ''a'' 0 plain_world = (Ret (r, n, c, k), w')"
    and w': "blocks w' = blocks plain_world + (if c = None then 0 else 1)"
    using compressor_outcome [of stored_zlib "''a''" 0 plain_world] by blast
  moreover have "node_at (fs plain_world) (pcomps ''a'') = None" by (simp add: plain_world_def node_at_def pcomps_def)
  then have "c = None"
    using run by (simp add: compressor_def copy_file_in_buffer_def os_fopen_read_def exec_defs fail_with_run
      os_free_def plain_world_def denied_def)
  ultimately show ?thesis by (auto simp: plain_world_def)
qed

text \<open>
  C25. \<open>decompressor\<close> frees what it allocates on every path: whatever the compressed bytes,
  it returns 0, -1, -2 or -3 with as many live blocks as before, provided \<open>uncompress\<close>
  respects the room it is given and the file is below 2 GiB.
\<close>

theorem decompressor_no_leak:
  assumes "\<And>c. length (snd (z_uncompress z (nat n) c)) \<le> nat n" "n < 2 ^ 31"
  shows "\<exists>r m w'. decompressor z p c k n w = (Ret (r, m), w') \<and> r \<in> {0, - 1, - 2, - 3} \<and>
    blocks w' = blocks w \<and> socks w' = socks w"
proof (cases "0 \<le> n \<and> n \<le> malloc_max w")
  case False
  then show ?thesis by (auto simp: decompressor_def os_malloc_def os_free_def exec_defs)
next
  case True
  obtain ret s where z: "z_uncompress z (nat n) (take (nat k) c) = (ret, s)" by fastforce
  have "length s \<le> nat n" using assms(1) [of "take (nat k) c"] z by simp
  with assms(2) True have wrap: "wrap_int 32 (int (length s)) = int (length s)"
    by (intro wrap_int_in_range) simp_all
  let ?w = "w\<lparr>blocks := blocks w + 1\<rparr>"
  obtain r w' where "copy_buffer_in_file p s (int (length s)) ?w = (Ret r, w')" "r \<in> {0, - 1, - 2}"
    "blocks w' = blocks ?w" "socks w' = socks ?w"
    using copy_buffer_total [of "int (length s)" s p ?w] by auto
  with True z wrap show ?thesis by (auto simp: decompressor_def os_malloc_def os_free_def exec_defs)
qed

theorem decompressor_no_leak_witness:
  "\<exists>r m w'. decompressor stored_zlib ''b'' ''xyz'' 3 2 plain_world = (Ret (r, m), w') \<and> blocks w' = 0"
proof -
  have "length (snd (z_uncompress stored_zlib (nat 2) c)) \<le> nat 2" for c
    by (simp add: stored_zlib_def)
  moreover have "blocks plain_world = 0" by (simp add: plain_world_def)
  ultimately show ?thesis
    using decompressor_no_leak [of stored_zlib 2 "''b''" "''xyz''" 3 plain_world] by auto
qed

end
