(* ===== verification/Make_Path.thy ===== *)
theory Make_Path
  imports Os_World
begin

text \<open>
  The function \<open>MakePath\<close>, which \<open>app/client/client_lib.c\<close> and
  \<open>data_generation/voxl-logger_lib.c\<close> both define with arrays of different sizes, and what it
  does to the file store: it creates every directory of the path that does not exist yet.
\<close>

section \<open>The loops\<close>

text \<open>
  The inner loop copies a name with the character that ends it, a slash or the terminator of
  the path, behind the characters already in \<open>tmp\<close>, an array of \<open>cap\<close> characters.
\<close>

fun next_name :: "nat \<Rightarrow> string \<Rightarrow> string \<Rightarrow> (string \<times> string) option" where
  "next_name cap tmp [] = (if cap \<le> length tmp then None else Some (tmp @ [NUL], []))"
| "next_name cap tmp (c # rest) =
     (if cap \<le> length tmp then None
      else if c = CHR ''/'' \<or> c = NUL then Some (tmp @ [c], rest)
      else next_name cap (tmp @ [c]) rest)"

lemma next_name_shorter: "next_name cap tmp rest = Some (t, r) \<Longrightarrow> rest \<noteq> [] \<Longrightarrow> length r < length rest"
  by (induction cap tmp rest rule: next_name.induct) (fastforce split: if_splits dest: sym)+

text \<open>The outer loop; \<open>rest\<close> is the path from \<open>i\<close> on.\<close>

function make_path_loop :: "nat \<Rightarrow> string \<Rightarrow> string \<Rightarrow> ('x, int) os" where
  "make_path_loop cap tmp rest =
     (if rest = [] then mret 0
      else case next_name cap tmp rest of
          None \<Rightarrow> mstop (Undef Buf_Overflow)
        | Some (tmp', rest') \<Rightarrow>
            if cap \<le> length tmp' then mstop (Undef Buf_Overflow)
            else
              mbind (os_mkdir (takeWhile (\<lambda>c. c \<noteq> NUL) tmp')) (\<lambda>ret.
              mbind (mget errno_val) (\<lambda>e.
              if ret \<noteq> 0 \<and> e \<noteq> EEXIST then mret (- 1) else make_path_loop cap tmp' rest')))"
  by pat_completeness auto
termination
  by (relation "measure (\<lambda>(cap, tmp, rest). length rest)") (auto dest: next_name_shorter)

declare make_path_loop.simps [simp del]

section \<open>The directories of a path\<close>

definition ensure_dir :: "path \<Rightarrow> store \<Rightarrow> store" where
  "ensure_dir p st = (if node_at st p = None then put_node p Dir st else st)"

definition ensure_dirs :: "path \<Rightarrow> store \<Rightarrow> store" where
  "ensure_dirs p st = fold ensure_dir (prefixes p) st"

lemma ensure_dirs_snoc: "ensure_dirs (p @ [c]) st = ensure_dir (p @ [c]) (ensure_dirs p st)"
  by (simp add: ensure_dirs_def prefixes_snoc)

lemma ensure_dirs_Nil [simp]: "ensure_dirs [] st = st"
  by (simp add: ensure_dirs_def ensure_dir_def node_at_def)

lemma node_at_ensure_dirs:
  "node_at (ensure_dirs p st) q =
    (if prefix q p \<and> node_at st q = None then Some Dir else node_at st q)"
proof (induction p arbitrary: q rule: rev_induct)
  case Nil
  then show ?case by (simp add: node_at_def)
next
  case (snoc c p)
  have ne: "p @ [c] \<noteq> []" by simp
  have self: "node_at (ensure_dirs p st) (p @ [c]) = node_at st (p @ [c])" by (simp add: snoc.IH)
  show ?case
  proof (cases "node_at st (p @ [c])")
    case None
    with self show ?thesis
      by (simp add: ensure_dirs_snoc ensure_dir_def node_at_put prefix_snoc snoc.IH)
  next
    case (Some n)
    with self show ?thesis by (auto simp: ensure_dirs_snoc ensure_dir_def prefix_snoc snoc.IH)
  qed
qed

text \<open>Nothing on the path is a file, and no directory of it is denied.\<close>

definition creatable :: "'x world_scheme \<Rightarrow> path \<Rightarrow> bool" where
  "creatable w p \<longleftrightarrow> (\<forall>q. prefix q p \<longrightarrow> node_at (fs w) q \<in> {None, Some Dir} \<and> \<not> denied ''mkdir'' q w)"

text \<open>One \<open>mkdir\<close> of the loop.\<close>

lemma mkdir_ensures:
  assumes "fs w = ensure_dirs p st" "pcomps s = p @ r" "length r \<le> 1"
    and "\<And>q. prefix q (p @ r) \<Longrightarrow> node_at st q \<in> {None, Some Dir} \<and> \<not> denied ''mkdir'' q w"
  shows "\<exists>ret e. os_mkdir s w = (Ret ret, w\<lparr>fs := ensure_dirs (p @ r) st, errno_val := e\<rparr>) \<and>
    (ret = 0 \<or> e = EEXIST)"
proof (cases "node_at (fs w) (p @ r) = None")
  case True
  then have "node_at (ensure_dirs p st) (p @ r) = None" using assms(1) by simp
  moreover have "node_at (ensure_dirs p st) p = Some Dir"
    using assms(4) [of p] by (auto simp: node_at_ensure_dirs)
  ultimately obtain c where r: "r = [c]" using assms(3) by (cases r) auto
  with assms(1) True have "ensure_dirs (p @ r) st = put_node (p @ r) Dir (fs w)"
    by (simp add: ensure_dirs_snoc ensure_dir_def)
  moreover have "\<not> denied ''mkdir'' (p @ r) w" using assms(4) [of "p @ r"] by simp
  ultimately have "os_mkdir s w = (Ret 0, w\<lparr>fs := ensure_dirs (p @ r) st, errno_val := errno_val w\<rparr>)"
    using True r assms(1,2) \<open>node_at (ensure_dirs p st) p = Some Dir\<close> by (simp add: os_mkdir_def)
  then show ?thesis by blast
next
  case False
  with assms(1,3) have "ensure_dirs (p @ r) st = fs w"
    by (cases r) (auto simp: ensure_dirs_snoc ensure_dir_def)
  with False assms(2) have "os_mkdir s w = (Ret (- 1), w\<lparr>fs := ensure_dirs (p @ r) st, errno_val := EEXIST\<rparr>)"
    by (simp add: os_mkdir_def fail_with_run)
  then show ?thesis by blast
qed

text \<open>One name of the path.\<close>

lemma next_name_slash:
  "CHR ''/'' \<notin> set a \<Longrightarrow> nul_free a \<Longrightarrow> length tmp + length a < cap \<Longrightarrow>
   next_name cap tmp (a @ CHR ''/'' # rest) = Some (tmp @ a @ ''/'', rest)"
  by (induction a arbitrary: tmp) (auto simp: nul_free_def)

lemma next_name_end:
  "CHR ''/'' \<notin> set a \<Longrightarrow> nul_free a \<Longrightarrow> length tmp + length a < cap \<Longrightarrow>
   next_name cap tmp a = Some (tmp @ a @ [NUL], [])"
  by (induction a arbitrary: tmp) (auto simp: nul_free_def)

lemma split_slash: "CHR ''/'' \<in> set s \<Longrightarrow> \<exists>a b. s = a @ CHR ''/'' # b \<and> CHR ''/'' \<notin> set a"
  by (metis split_list_first)

definition dir_text :: "string \<Rightarrow> bool" where
  "dir_text s \<longleftrightarrow> s = [] \<or> last s = CHR ''/''"

lemma pcomps_dir_text:
  assumes "dir_text t" "CHR ''/'' \<notin> set a"
  shows "pcomps (t @ a) = pcomps t @ (if a = [] then [] else [a])"
proof -
  have a: "pcomps a = (if a = [] then [] else [a])" using assms(2) pcomps_name [of a] by (simp add: name_ok_def)
  show ?thesis
  proof (cases t rule: rev_cases)
    case (snoc t' c)
    with assms(1) have "t = t' @ ''/''" by (simp add: dir_text_def)
    with a show ?thesis using pcomps_append [of t' a] by (simp add: pcomps_append_slash)
  qed (simp add: a)
qed

lemma takeWhile_nul_free: "nul_free s \<Longrightarrow> takeWhile (\<lambda>c. c \<noteq> NUL) s = s"
  "nul_free s \<Longrightarrow> takeWhile (\<lambda>c. c \<noteq> NUL) (s @ [NUL]) = s"
  by (auto simp: nul_free_def takeWhile_append takeWhile_eq_all_conv)

section \<open>The result\<close>

lemma make_path_loop_run:
  assumes "fs w = ensure_dirs (pcomps tmp) st" "dir_text tmp" "nul_free (tmp @ rest)"
    and "length (tmp @ rest) + 1 < cap"
    and "\<And>q. prefix q (pcomps (tmp @ rest)) \<Longrightarrow> node_at st q \<in> {None, Some Dir} \<and> \<not> denied ''mkdir'' q w"
  shows "\<exists>e. make_path_loop cap tmp rest w =
    (Ret 0, w\<lparr>fs := ensure_dirs (pcomps (tmp @ rest)) st, errno_val := e\<rparr>)"
  using assms
proof (induction "length rest" arbitrary: tmp rest w rule: less_induct)
  case less
  show ?case
  proof (cases "CHR ''/'' \<in> set rest")
    case True
    then obtain a b where ab: "rest = a @ CHR ''/'' # b" "CHR ''/'' \<notin> set a" using split_slash by blast
    let ?r = "if a = [] then [] else [a]" and ?tmp = "tmp @ a @ ''/''"
    have pc: "pcomps ?tmp = pcomps tmp @ ?r"
      using pcomps_dir_text [OF less.prems(2) ab(2)] pcomps_append_slash [of "tmp @ a"] by simp
    have all: "pcomps (tmp @ rest) = (pcomps tmp @ ?r) @ pcomps b"
      using pcomps_append [of "tmp @ a" b] pcomps_dir_text [OF less.prems(2) ab(2)] by (simp add: ab(1))
    have nf: "nul_free ?tmp" "nul_free a" using less.prems(3) ab(1) by (auto simp: nul_free_def)
    have q: "node_at st q \<in> {None, Some Dir} \<and> \<not> denied ''mkdir'' q w" if "prefix q (pcomps tmp @ ?r)" for q
      using less.prems(5) all prefix_prefix [OF that, of "pcomps b"] by simp
    have len: "length ?r \<le> 1" by simp
    obtain ret e where mk: "os_mkdir ?tmp w = (Ret ret, w\<lparr>fs := ensure_dirs (pcomps tmp @ ?r) st, errno_val := e\<rparr>)"
      and ok: "ret = 0 \<or> e = EEXIST"
      using mkdir_ensures [OF less.prems(1) pc len q] by blast
    let ?w = "w\<lparr>fs := ensure_dirs (pcomps tmp @ ?r) st, errno_val := e\<rparr>"
    have step: "make_path_loop cap tmp rest w = make_path_loop cap ?tmp b ?w"
      using ab nf less.prems(4) mk ok next_name_slash [OF ab(2) nf(2), of tmp cap b]
      by (subst make_path_loop.simps) (cases "ret = 0"; simp add: takeWhile_nul_free(1) mbind_def mget_def)
    have "\<exists>e'. make_path_loop cap ?tmp b ?w = (Ret 0, ?w\<lparr>fs := ensure_dirs (pcomps (?tmp @ b)) st, errno_val := e'\<rparr>)"
    proof (rule less.hyps)
      show "fs ?w = ensure_dirs (pcomps ?tmp) st" by (simp add: pc)
      show "length b < length rest" by (simp add: ab(1))
      show "dir_text ?tmp" by (simp add: dir_text_def)
      show "nul_free (?tmp @ b)" "length (?tmp @ b) + 1 < cap" using less.prems(3,4) by (simp_all add: ab(1))
      show "node_at st q \<in> {None, Some Dir} \<and> \<not> denied ''mkdir'' q ?w" if "prefix q (pcomps (?tmp @ b))" for q
        using that less.prems(5) [of q] by (simp add: ab(1) denied_def)
    qed
    with step show ?thesis by (simp add: ab(1))
  next
    case False
    show ?thesis
    proof (cases "rest = []")
      case True
      with less.prems(1) show ?thesis
        by (subst make_path_loop.simps) (auto simp: mret_def intro!: exI [of _ "errno_val w"])
    next
      case ne: False
      have pc: "pcomps (tmp @ rest) = pcomps tmp @ [rest]"
        using pcomps_dir_text [OF less.prems(2) False] ne by simp
      obtain ret e where mk: "os_mkdir (tmp @ rest) w =
          (Ret ret, w\<lparr>fs := ensure_dirs (pcomps tmp @ [rest]) st, errno_val := e\<rparr>)" and ok: "ret = 0 \<or> e = EEXIST"
        using mkdir_ensures [OF less.prems(1) pc] less.prems(5) pc by auto
      have nf: "nul_free rest" using less.prems(3) by (auto simp: nul_free_def)
      have "make_path_loop cap tmp rest w =
          make_path_loop cap (tmp @ rest @ [NUL]) [] (w\<lparr>fs := ensure_dirs (pcomps tmp @ [rest]) st, errno_val := e\<rparr>)"
        using ne nf less.prems(3,4) mk ok next_name_end [OF False nf, of tmp cap]
          takeWhile_nul_free(2) [of "tmp @ rest"]
        by (subst make_path_loop.simps) (cases "ret = 0"; simp add: mbind_def mget_def)
      then show ?thesis using pc by (subst (asm) (2) make_path_loop.simps) (auto simp: mret_def)
    qed
  qed
qed

end
