(* ===== verification/Client_Lib.thy ===== *)
theory Client_Lib
  imports Client_IO Compression Make_Path
begin

text \<open>
  \<open>app/client/client_lib.c\<close>, the transfer of files: the reader of binary data, requests of
  the transmission thread, the reception of one file, and the local directories. A function
  that ends the thread does so by the outcome \<open>Thread_Exit\<close>. The reader of the connection
  and the array \<open>rec\<close> are arguments and results.
\<close>

section \<open>Constants\<close>

definition MAX_PATH_LEN :: nat where "MAX_PATH_LEN = 256"

definition MAX_REL_PATH_LEN :: nat where "MAX_REL_PATH_LEN = MAX_PATH_LEN div 2"

definition DATA_DIR :: string where "DATA_DIR = ''rec_data''"

definition WAIT_DELAY_MS :: int where "WAIT_DELAY_MS = 100"

text \<open>A return code of zlib for a null pointer with a length that is not 0.\<close>

definition Z_STREAM_ERROR :: int where "Z_STREAM_ERROR = - 2"

section \<open>Reading from the connection\<close>

definition tcp_binary_getchar_bs :: "int \<Rightarrow> buffer_tcp \<Rightarrow> ('x, int \<times> buffer_tcp) cl" where
  "tcp_binary_getchar_bs sk b =
     (if b_i b \<ge> b_dim b then
        mbind (tcp_binary_receive client_error_handler sk (b_buffer b)) (\<lambda>(dim, buf).
        mseq (if dim = - 1 then
                mseq (PrintLog (ln ''ERROR - TT - Connection error while using tcp_binary_getchar_bs'') [])
                  (ExitTransmissionThread sk (- 2))
              else mret ())
          (buffer_next (b\<lparr>b_dim := dim, b_buffer := buf, b_i := 0\<rparr>)))
      else buffer_next b)"

text \<open>
  The loop that fills \<open>rec_buffer\<close>; \<open>ok\<close> says that \<open>malloc\<close> succeeded. The counter is an
  \<open>int\<close>: it overflows after \<open>2 ^ 31 - 1\<close> bytes.
\<close>

definition receive_buffer :: "int \<Rightarrow> bool \<Rightarrow> int \<Rightarrow> buffer_tcp \<Rightarrow> ('x, string \<times> buffer_tcp) cl" where
  "receive_buffer sk ok rec_len b =
     (if rec_len \<le> 0 then mret ([], b)
      else if \<not> ok then mbind (tcp_binary_getchar_bs sk b) (\<lambda>_. mstop (Undef Null_Deref))
      else mbind (recv_loop (tcp_binary_getchar_bs sk) (nat (min rec_len (2 ^ 31))) b) (\<lambda>sb.
        if 2 ^ 31 \<le> rec_len then mstop (Undef Int_Overflow) else mret sb))"

text \<open>The result is the return value, the reader and \<open>*orig_len\<close>.\<close>

definition ReceiveAndDecompress ::
  "zlib \<Rightarrow> int \<Rightarrow> buffer_tcp \<Rightarrow> string \<Rightarrow> int \<Rightarrow> int \<Rightarrow> ('x, int \<times> buffer_tcp \<times> int) cl" where
  "ReceiveAndDecompress z sk b file_path rec_len orig_len =
     mbind (mget (uninit_array (BUFSIZ + 1) ''ReceiveAndDecompress.rec'')) (\<lambda>uninit.
     mbind (os_malloc rec_len) (\<lambda>ok.
     mbind (receive_buffer sk ok rec_len b) (\<lambda>(rec_buffer, b).
     mbind (tcp_readline client_error_handler sk b uninit) (\<lambda>(ret, b, rec).
     mseq (if ret = EOF \<or> ret = 0 then
             mseq (PrintLog (ln ''ERROR - TT - Connection error while receiving %s'') [FStr file_path])
               (ExitTransmissionThread sk (- 2))
           else mret ())
     (mbind (read_cstr rec) (\<lambda>s.
     if strncmp s ''END'' 3 \<noteq> 0 then mret (- 4, b, orig_len)
     else
       mbind (decompressor (if ok then z else z\<lparr>z_uncompress := (\<lambda>_ _. (Z_STREAM_ERROR, []))\<rparr>)
          file_path rec_buffer rec_len orig_len) (\<lambda>(ret, orig_len).
       if ret < 0 then mseq (os_free ok) (mret (ret, b, orig_len))
       else mseq (os_free ok) (mret (0, b, orig_len)))))))))"

section \<open>Requests of the transmission thread\<close>

text \<open>The result is the return value, the reader and the array \<open>rec\<close>.\<close>

definition TcpSendReceiveTT ::
  "int \<Rightarrow> buffer_tcp \<Rightarrow> string \<Rightarrow> string \<Rightarrow> ('x, int \<times> buffer_tcp \<times> string) cl" where
  "TcpSendReceiveTT sk b send rec =
     mbind (tcp_send client_error_handler sk send) (\<lambda>r.
     if r = 0 then
       mseq (PrintLog (ln ''TT - ERROR, UNABLE TO WRITE'') [])
       (mseq (ExitTransmissionThread sk (- 2) :: ('x, unit) cl)
       (mret (- 1, b, store_at (ln ''TT - ERROR, UNABLE TO WRITE'' @ [NUL]) rec)))
     else
       mbind (tcp_readline client_error_handler sk b rec) (\<lambda>(ret, b, rec).
       if ret = EOF \<or> ret = 0 then
         mseq (PrintLog (ln ''TT - ERROR, UNABLE TO READ'') [])
         (mseq (ExitTransmissionThread sk (- 2) :: ('x, unit) cl)
         (mret (- 2, b, store_at (ln ''TT - ERROR, UNABLE TO READ'' @ [NUL]) rec)))
       else
         mbind (read_cstr rec) (\<lambda>s.
         mseq (if strncmp s ''ERROR'' 5 = 0 then
                 mseq (PrintLog (ln ''TT - R - ERROR received from Server: %s'') [FStr s])
                   (ExitTransmissionThread sk (- 1))
               else mret ())
         (mseq (PrintLog (ln ''TT - R - %s'') [FStr s])
         (mret (0, b, rec))))))"

definition RequestFile ::
  "zlib \<Rightarrow> int \<Rightarrow> buffer_tcp \<Rightarrow> string \<Rightarrow> string \<Rightarrow> ('x, int \<times> buffer_tcp) cl" where
  "RequestFile z sk b rel_path data_dir =
     mbind (mget (\<lambda>w. (uninit_array (BUFSIZ + 1) ''RequestFile.buf'' w, uninit_array (MAX_PATH_LEN div 2) ''RequestFile.temp'' w,
       junk_int w ''RequestFile.orig_len'', junk_int w ''RequestFile.rec_len''))) (\<lambda>(buf0, temp0, orig0, rec0).
     mbind (os_sprintf MAXCMDLEN (ln ''SEND_FILE %s'') [FStr rel_path]) (\<lambda>cmd.
     mbind (TcpSendReceiveTT sk b cmd buf0) (\<lambda>(_, b, buf).
     mbind (read_cstr buf) (\<lambda>line.
     if strncmp line ''SENDING REQUESTED'' 17 = 0 then
       let vs = sscanf line ''%*s %*s %*s %ld %ld'';
           orig_len = sint_at vs 0 orig0; rec_len = sint_at vs 1 rec0
       in mbind (scan_word (MAX_PATH_LEN div 2) temp0 (sscanf rel_path ''%*[^/]%s'') 0) (\<lambda>temp.
          mbind (read_cstr temp) (\<lambda>tail.
          mbind (read_cstr data_dir) (\<lambda>dir.
          mbind (os_sprintf MAX_PATH_LEN ''%s/%s'' [FStr dir, FStr tail]) (\<lambda>file_path.
          mbind (ReceiveAndDecompress z sk b file_path rec_len orig_len) (\<lambda>(ret, b, _).
          mret (ret, b))))))
     else mret (- 5, b)))))"

section \<open>Local directories\<close>

text \<open>The permissions of the new directories are not part of the store.\<close>

definition MakePath :: "string \<Rightarrow> ('x, int) os" where
  "MakePath path = make_path_loop MAX_PATH_LEN [] path"

definition DirExists :: "string \<Rightarrow> ('x, int) os" where
  "DirExists dir =
     mbind (os_opendir dir) (\<lambda>d. case d of
       Some _ \<Rightarrow> mret 1
     | None \<Rightarrow> mbind (mget errno_val) (\<lambda>e. if e = ENOENT then mret 0 else mret (- 1)))"

definition CreateTransmissionDir :: "string \<Rightarrow> int \<Rightarrow> ('x, int) os" where
  "CreateTransmissionDir dir_name logger_n =
     (let logger2_n = (if logger_n = 0 then 1 else 0 :: int);
          path = (\<lambda>f n. snprintf MAX_PATH_LEN f [FStr dir_name, FInt n])
      in mbind (MakePath (path ''%s/voxl-logger/log%04d/run/mpa/tof'' logger_n)) (\<lambda>r. if r < 0 then mret (- 1) else
         mbind (MakePath (path ''%s/voxl-logger/log%04d/data'' logger_n)) (\<lambda>r. if r < 0 then mret (- 1) else
         mbind (MakePath (path ''%s/voxl-logger/log%04d/etc/modalai'' logger_n)) (\<lambda>r. if r < 0 then mret (- 1) else
         mbind (MakePath (path ''%s/voxl-logger/log%04d/run/mpa/vvpx4_body_wrt_local'' logger2_n)) (\<lambda>r. if r < 0 then mret (- 1) else
         mbind (MakePath (path ''%s/voxl-logger/log%04d/data'' logger2_n)) (\<lambda>r. if r < 0 then mret (- 1) else
         mbind (MakePath (path ''%s/voxl-logger/log%04d/etc/modalai'' logger2_n)) (\<lambda>r. if r < 0 then mret (- 1) else
         mret 0)))))))"

section \<open>The files of a recording besides its point clouds\<close>

text \<open>The body that the source repeats for each of the four files.\<close>

definition request_one :: "zlib \<Rightarrow> int \<Rightarrow> string \<Rightarrow> buffer_tcp \<Rightarrow> string \<Rightarrow> ('x, int \<times> buffer_tcp) cl" where
  "request_one z sk dir b file_name =
     mseq (PrintLog (ln ''TT - Requesting %s'') [FStr file_name])
     (mbind (RequestFile z sk b file_name dir) (\<lambda>(ret, b).
      if ret = 0 then mseq (PrintLog (ln ''TT - Finished writing %s'') [FStr file_name]) (mret (0, b))
      else mseq (PrintLog (ln ''ERROR - TT - %d ret writing %s'') [FInt ret, FStr file_name]) (mret (- 1, b))))"

definition RequestAllReaminingFiles :: "zlib \<Rightarrow> int \<Rightarrow> buffer_tcp \<Rightarrow> string \<Rightarrow> ('x, int \<times> buffer_tcp) cl" where
  "RequestAllReaminingFiles z sk b dir =
     mseq mutex_lock
     (mbind (mget (\<lambda>w. tr_d (t_tr (td w)))) (\<lambda>d.
      mseq mutex_unlock
      (let other_data_n = (if nd_logger_n d = 0 then 1 else 0 :: int);
           name = (\<lambda>first f n. snprintf MAX_REL_PATH_LEN f [FStr first, FInt n])
       in mbind (read_cstr (nd_first d)) (\<lambda>first.
          mbind (request_one z sk dir b (name first ''%s/voxl-logger/log%04d/run/mpa/tof/data.csv'' (nd_logger_n d)))
            (\<lambda>(r, b). if r < 0 then mret (- 1, b) else
          mbind (request_one z sk dir b (name first ''%s/voxl-logger/log%04d/info.json'' (nd_logger_n d)))
            (\<lambda>(r, b). if r < 0 then mret (- 1, b) else
          mbind (request_one z sk dir b
              (name first ''%s/voxl-logger/log%04d/run/mpa/vvpx4_body_wrt_local/data.csv'' other_data_n))
            (\<lambda>(r, b). if r < 0 then mret (- 1, b) else
          mbind (request_one z sk dir b (name first ''%s/voxl-logger/log%04d/info.json'' other_data_n))
            (\<lambda>(r, b). if r < 0 then mret (- 1, b) else
          mret (0, b)))))))))"

end
