(* ===== verification/Client_Thread.thy ===== *)
theory Client_Thread
  imports Client_Lib
begin

text \<open>
  \<open>transmission_thread\<close> of \<open>app/client/client_lib.c\<close>. The variables that keep their value from
  one round of its loop to the next are the record \<open>tt_vars\<close>; the two loops take fuel, the
  number of rounds and waits, because the source does not bound them. The variable
  \<open>running\<close>, which the main thread writes, is read through the script of the world.
\<close>

section \<open>The variables of the thread\<close>

record tt_vars =
  tt_b :: buffer_tcp
  tt_rec :: string              \<comment> \<open>an array of \<open>BUFSIZ + 1\<close> characters\<close>
  tt_dir :: string              \<comment> \<open>\<open>transmission_dir\<close>, an array of \<open>MAX_REL_PATH_LEN\<close> characters\<close>
  tt_tr :: tr_info
  tt_folder :: string           \<comment> \<open>an array of \<open>TIMESTAMP_LEN\<close> characters\<close>
  tt_logger_n :: int
  tt_rec_len :: int
  tt_orig_len :: int

definition tt_uninit :: "'x world_scheme \<Rightarrow> tt_vars" where
  "tt_uninit w =
     \<lparr>tt_b = init_buffer_tcp (uninit_array (BUFSIZ + 1) ''transmission_thread.b'' w),
      tt_rec = uninit_array (BUFSIZ + 1) ''transmission_thread.rec'' w,
      tt_dir = uninit_array MAX_REL_PATH_LEN ''transmission_thread.transmission_dir'' w,
      tt_tr =
        \<lparr>tr_f = \<lparr>nf_first = junk_int w ''transmission_thread.tr.f.first'',
           nf_last = junk_int w ''transmission_thread.tr.f.last'',
           nf_count = junk_int w ''transmission_thread.tr.f.count''\<rparr>,
         tr_d = \<lparr>nd_first = uninit_array TIMESTAMP_LEN ''transmission_thread.tr.d.first'' w,
           nd_last = uninit_array TIMESTAMP_LEN ''transmission_thread.tr.d.last'' w,
           nd_count = junk_int w ''transmission_thread.tr.d.count'',
           nd_logger_n = junk_int w ''transmission_thread.tr.d.logger_n''\<rparr>\<rparr>,
      tt_folder = uninit_array TIMESTAMP_LEN ''transmission_thread.folder'' w,
      tt_logger_n = junk_int w ''transmission_thread.logger_n'',
      tt_rec_len = junk_int w ''transmission_thread.rec_len'',
      tt_orig_len = junk_int w ''transmission_thread.orig_len''\<rparr>"

section \<open>One round\<close>

definition tt_request :: "int \<Rightarrow> string \<Rightarrow> tt_vars \<Rightarrow> ('x, tt_vars) cl" where
  "tt_request sk cmd v =
     mbind (TcpSendReceiveTT sk (tt_b v) cmd (tt_rec v)) (\<lambda>(_, b, rec).
     mret (v\<lparr>tt_b := b, tt_rec := rec\<rparr>))"

fun tt_wait :: "nat \<Rightarrow> int \<Rightarrow> tt_vars \<Rightarrow> ('x, tt_vars) cl" where
  "tt_wait 0 sk v = mstop Still_Running"
| "tt_wait (Suc n) sk v =
     mbind (read_cstr (tt_rec v)) (\<lambda>rec.
     mbind (if strncmp rec ''WAIT'' 4 = 0 then read_running else mret 0) (\<lambda>running.
     if running \<noteq> 0 then
       mseq (PrintLog (ln ''TT - Wait received, waiting...'') [])
       (mseq (sleepms WAIT_DELAY_MS)
       (mseq (PrintLog (ln ''TT - Requesting the next file'') [])
       (mbind (tt_request sk (ln ''SEND_NEXT'') v) (tt_wait n sk))))
     else mret v))"

text \<open>What \<open>sscanf\<close> stores of a \<open>SENDING\<close> line, besides the name of the recording.\<close>

definition tr_scanned :: "sval list \<Rightarrow> string \<Rightarrow> tr_info \<Rightarrow> tr_info" where
  "tr_scanned vs first tr =
     \<lparr>tr_f = \<lparr>nf_first = sint_at vs 2 (nf_first (tr_f tr)), nf_last = sint_at vs 3 (nf_last (tr_f tr)),
        nf_count = sint_at vs 4 (nf_count (tr_f tr))\<rparr>,
      tr_d = (tr_d tr)\<lparr>nd_first := first, nd_logger_n := sint_at vs 1 (nd_logger_n (tr_d tr))\<rparr>\<rparr>"

definition set_tr :: "tr_info \<Rightarrow> ('x, unit) cl" where
  "set_tr tr = mmod (\<lambda>w. w\<lparr>td := (td w)\<lparr>t_tr := tr\<rparr>\<rparr>)"

text \<open>The file of a \<open>SENDING\<close> line is received and its removal requested.\<close>

definition tt_receive ::
  "zlib \<Rightarrow> int \<Rightarrow> tt_vars \<Rightarrow> string \<Rightarrow> string \<Rightarrow> ('x, tt_vars) cl" where
  "tt_receive z sk v first dir =
     (let tr = tt_tr v;
          file_name = snprintf MAX_PATH_LEN ''%s/voxl-logger/log%04d/run/mpa/tof/data_%d.pcd''
            [FStr dir, FInt (nd_logger_n (tr_d tr)), FInt (nf_first (tr_f tr))]
      in mseq (PrintLog (ln ''TT - Receiving %s, compressed size: %ld, original size: %ld'')
           [FStr file_name, FInt (tt_rec_len v), FInt (tt_orig_len v)])
         (mbind (ReceiveAndDecompress z sk (tt_b v) file_name (tt_rec_len v) (tt_orig_len v)) (\<lambda>(ret, b, orig_len).
          mseq (if ret < 0 then
                  mseq (PrintLog (ln '' ERROR - TT - ReceiveAndDecompress() ret: %d'') [FInt ret])
                    (ExitTransmissionThread sk (- 1))
                else mret ())
          (mseq (PrintLog (ln ''TT - Finished writing %s'') [FStr file_name])
          (let v = v\<lparr>tt_b := b, tt_orig_len := orig_len\<rparr>
           in if ret = 0 then
                mseq (PrintLog (ln ''TT - Request to remove file %d, dir %s'') [FInt (nf_first (tr_f tr)), FStr first])
                (mbind (os_sprintf MAXCMDLEN (ln ''REMOVE_FILE %s %d %d'')
                   [FStr first, FInt (nd_logger_n (tr_d tr)), FInt (nf_first (tr_f tr))]) (\<lambda>cmd.
                 tt_request sk cmd v))
              else mret v)))))"

definition tt_sending :: "zlib \<Rightarrow> int \<Rightarrow> tt_vars \<Rightarrow> ('x, tt_vars) cl" where
  "tt_sending z sk v =
     mbind (read_cstr (tt_rec v)) (\<lambda>rec.
     let vs = sscanf rec ''%*s %s %d %d %d %d %ld %ld''
     in mbind (scan_word TIMESTAMP_LEN (nd_first (tr_d (tt_tr v))) vs 0) (\<lambda>first_array.
        let tr = tr_scanned vs first_array (tt_tr v) in
        mseq mutex_lock
        (mseq (set_tr tr)
        (mseq mutex_unlock
        (mbind (read_cstr (nd_first (tr_d tr))) (\<lambda>first.
         let dir = snprintf MAX_REL_PATH_LEN ''%s/%s-active'' [FStr DATA_DIR, FStr first]
         in mbind (DirExists dir) (\<lambda>ex.
            mseq (if ex = 0 then mseq (CreateTransmissionDir dir (nd_logger_n (tr_d tr))) (mret ()) else mret ())
            (tt_receive z sk
              (v\<lparr>tt_dir := store_at (dir @ [NUL]) (tt_dir v), tt_tr := tr, tt_rec_len := sint_at vs 6 (tt_rec_len v),
                tt_orig_len := sint_at vs 5 (tt_orig_len v)\<rparr>) first dir))))))))"

definition tt_empty :: "zlib \<Rightarrow> int \<Rightarrow> tt_vars \<Rightarrow> ('x, tt_vars) cl" where
  "tt_empty z sk v =
     mbind (read_cstr (tt_rec v)) (\<lambda>rec.
     let vs = sscanf rec ''%*s %s %d''; logger_n = sint_at vs 1 (tt_logger_n v)
     in mbind (scan_word TIMESTAMP_LEN (tt_folder v) vs 0) (\<lambda>folder_array.
        mseq (PrintLog (ln ''TT - Finished sending files (EMPTY)'') [])
        (mbind (RequestAllReaminingFiles z sk (tt_b v) (tt_dir v)) (\<lambda>(r, b).
         mseq (if r < 0 then
                 mseq (PrintLog (ln ''ERROR - TT - Failed to requenst remaining files'') [])
                   (ExitTransmissionThread sk (- 1))
               else mret ())
         (mbind (read_cstr folder_array) (\<lambda>folder.
          mseq (PrintLog (ln ''TT - Request to remove %s from the server'') [FStr folder])
          (mbind (tt_request sk (snprintf MAX_REL_PATH_LEN (ln ''REMOVE_DIR %s'') [FStr folder])
             (v\<lparr>tt_b := b, tt_folder := folder_array, tt_logger_n := logger_n\<rparr>)) (\<lambda>v.
           mseq (PrintLog (ln ''TT - Renaming local dir to %s'') [FStr folder])
           (mbind (read_cstr (tt_dir v)) (\<lambda>dir.
            mseq (os_rename dir (snprintf MAX_REL_PATH_LEN ''%s/%s'' [FStr DATA_DIR, FStr folder]))
            (mret v)))))))))))"

definition tt_round :: "zlib \<Rightarrow> nat \<Rightarrow> int \<Rightarrow> tt_vars \<Rightarrow> ('x, tt_vars) cl" where
  "tt_round z n sk v =
     mseq (PrintLog (ln ''TT - Requesting the next file'') [])
     (mbind (tt_request sk (ln ''SEND_NEXT'') v) (\<lambda>v.
      mbind (tt_wait n sk v) (\<lambda>v.
      mbind (read_cstr (tt_rec v)) (\<lambda>rec.
      mbind (if strncmp rec ''SENDING'' 7 = 0 then tt_sending z sk v else mret v) (\<lambda>v.
      mbind (read_cstr (tt_rec v)) (\<lambda>rec.
      if strncmp rec ''EMPTY'' 5 = 0 then tt_empty z sk v else mret v))))))"

section \<open>The thread\<close>

fun tt_loop :: "zlib \<Rightarrow> nat \<Rightarrow> int \<Rightarrow> tt_vars \<Rightarrow> ('x, unit) cl" where
  "tt_loop z 0 sk v = mstop Still_Running"
| "tt_loop z (Suc n) sk v =
     mbind (tt_round z (Suc n) sk v) (\<lambda>v.
     mbind (read_cstr (tt_rec v)) (\<lambda>rec.
     mbind (if strncmp rec ''NO_TR'' 4 \<noteq> 0 then read_running else mret 0) (\<lambda>running.
     if running \<noteq> 0 then tt_loop z n sk v else mret ())))"

definition transmission_thread :: "zlib \<Rightarrow> nat \<Rightarrow> ('x, unit) cl" where
  "transmission_thread z n =
     mseq (set_status 1)
     (mbind (mget (\<lambda>w. (t_ip (td w), t_port (td w), tt_uninit w))) (\<lambda>(ip, port, v).
      mbind (create_tcp_client_connection client_error_handler ip port) (\<lambda>transmission_sk.
      mseq (if transmission_sk < 0 then
              mseq (PrintLog (ln ''ERROR - TT - cannot open TCP connection'') [])
                (ExitTransmissionThread transmission_sk (- 1))
            else mret ())
      (mseq (tt_loop z n transmission_sk v)
      (mseq (PrintLog (ln ''TT - Transmission finished, ending transmission thread'') [])
        (ExitTransmissionThread transmission_sk 0))))))"

end
