(* ===== verification/Client_Ends.thy ===== *)
theory Client_Ends
  imports Client_Thread
begin

text \<open>
  How the transmission thread can end, whatever the server, the network, the files and the
  other thread do. \<open>plain m\<close>: a run of \<open>m\<close> returns, or is undefined behaviour, and leaves
  alone what the two threads share; \<open>ends stop m\<close>: a run of \<open>m\<close> returns, or ends the thread
  with one of the three statuses the main thread knows; with \<open>stop\<close> the thread has been told
  to stop and the run does end.
\<close>

section \<open>Operations that only use the operating system\<close>

definition shared :: "'x client_world_scheme \<Rightarrow> bool \<times> thread_data \<times> int list" where
  "shared w = (sigpipe_ign w, td w, env_running w)"

fun comes_back :: "'a outcome \<Rightarrow> bool" where
  "comes_back (Ret a) = True"
| "comes_back (Undef u) = True"
| "comes_back r = False"

definition plain :: "('x, 'a) cl \<Rightarrow> bool" where
  "plain m \<longleftrightarrow> (\<forall>w. sigpipe_ign w \<longrightarrow> shared (world_after m w) = shared w \<and> comes_back (outcome_of m w))"

named_theorems plain_intros

lemma plainI: "(\<And>w. sigpipe_ign w \<Longrightarrow> shared (world_after m w) = shared w \<and> comes_back (outcome_of m w)) \<Longrightarrow> plain m"
  by (simp add: plain_def)

lemma plain_mret [plain_intros]: "plain (mret a)"
  by (simp add: plain_def mret_def)

lemma plain_mget [plain_intros]: "plain (mget f)"
  by (simp add: plain_def mget_def)

lemma plain_undef [plain_intros]: "plain (mstop (Undef u))"
  by (simp add: plain_def mstop_def)

lemma plain_mmod: "(\<And>w. shared (f w) = shared w) \<Longrightarrow> plain (mmod f)"
  by (simp add: plain_def mmod_def)

lemma plain_mbind [plain_intros]:
  assumes "plain m" "\<And>a. plain (f a)"
  shows "plain (mbind m f)"
proof (rule plainI)
  fix w :: "'a client_world_scheme"
  assume s: "sigpipe_ign w"
  obtain r w' where run: "m w = (r, w')" by (cases "m w")
  with assms(1) s have w': "shared w' = shared w" "comes_back r" by (auto simp: plain_def dest: spec [of _ w])
  with s have s': "sigpipe_ign w'" by (simp add: shared_def)
  show "shared (world_after (mbind m f) w) = shared w \<and> comes_back (outcome_of (mbind m f) w)"
  proof (cases r)
    case (Ret a)
    with assms(2) [of a] s' w' run show ?thesis by (simp add: plain_def mbind_def)
  qed (use run w' in \<open>simp_all add: mbind_def\<close>)
qed

lemma plain_mseq [plain_intros]: "plain m \<Longrightarrow> plain n \<Longrightarrow> plain (mseq m n)"
  by (simp add: mseq_def plain_mbind)

lemma plain_if [plain_intros]: "(b \<Longrightarrow> plain m) \<Longrightarrow> (\<not> b \<Longrightarrow> plain n) \<Longrightarrow> plain (if b then m else n)"
  by simp

lemma plain_option [plain_intros]:
  "plain m \<Longrightarrow> (\<And>x. plain (n x)) \<Longrightarrow> plain (case y of None \<Rightarrow> m | Some x \<Rightarrow> n x)"
  by (cases y) simp_all

lemma plain_prod [plain_intros]: "(\<And>x y. plain (n x y)) \<Longrightarrow> plain (case p of (x, y) \<Rightarrow> n x y)"
  by (cases p) simp

lemma shared_updates [simp]:
  "shared (w\<lparr>errno_val := e\<rparr>) = shared w" "shared (w\<lparr>fs := st\<rparr>) = shared w" "shared (w\<lparr>blocks := n\<rparr>) = shared w"
  "shared (w\<lparr>streams := n\<rparr>) = shared w" "shared (w\<lparr>out := o1\<rparr>) = shared w" "shared (w\<lparr>err := o1\<rparr>) = shared w"
  "shared (w\<lparr>slept := n\<rparr>) = shared w" "shared (w\<lparr>dials := ds\<rparr>) = shared w" "shared (w\<lparr>socks := ks\<rparr>) = shared w"
  "shared (w\<lparr>log := l\<rparr>) = shared w" "shared (upd_sock k f w) = shared w"
  by (simp_all add: shared_def upd_sock_def)

lemma plain_fail_with [simp]: "shared (world_after (fail_with e r) w) = shared w" "outcome_of (fail_with e r) w = Ret r"
  by (simp_all add: fail_with_run)

lemma plain_os [plain_intros]:
  "plain (os_malloc n)" "plain (os_free b)" "plain (os_fopen_write p)" "plain (os_fwrite p s)" "plain os_fclose"
  "plain (os_mkdir p)" "plain (os_opendir p)" "plain (os_rename p q)" "plain (os_read k m)" "plain (os_write k s)"
  "plain os_dial" "plain (os_nanosleep i j)"
  by (rule plainI, simp add: os_malloc_def os_free_def os_fopen_write_def os_fwrite_def os_fclose_def os_mkdir_def
    os_opendir_def os_rename_def os_read_def os_write_def os_dial_def os_nanosleep_def Let_def mmod_def
    split: option.split node.split list.split rx_event.split wx_event.split dial_event.split)+

lemma plain_handler [plain_intros]: "plain (client_error_handler m)"
  by (simp add: client_error_handler_def plain_mret)

lemma plain_cstr [plain_intros]: "plain (load a i)" "plain (read_cstr a)" "plain (scan_word cap old vs k)"
  "plain (os_sprintf cap f as)"
  by (rule plainI, simp add: load_def read_cstr_def scan_word_def os_sprintf_def mret_def mstop_def split: option.split)+

lemma plain_tcp [plain_intros]:
  "plain (tcp_send client_error_handler sk s)" "plain (receive_error client_error_handler m sk)"
  "plain (create_tcp_client_connection client_error_handler ip port)"
  unfolding tcp_send_def receive_error_def create_tcp_client_connection_def
  by (intro plain_intros; simp split: dial_event.split add: plain_mseq plain_handler plain_mret)+

lemma plain_receive [plain_intros]:
  "plain (tcp_receive client_error_handler sk b)" "plain (tcp_binary_receive client_error_handler sk b)"
  unfolding tcp_receive_def tcp_binary_receive_def by (intro plain_intros)+

lemma plain_getchar [plain_intros]: "plain (buffer_next b)" "plain (tcp_getchar_bs client_error_handler sk b')"
  unfolding tcp_getchar_bs_def buffer_next_def by (intro plain_intros)+

lemma plain_readline_loop:
  assumes "\<And>b. plain (getc b)"
  shows "plain (readline_loop getc signed_char b buf i)"
proof (induction "length buf - i" arbitrary: b buf i)
  case 0
  then show ?case by (subst readline_loop.simps) (intro plain_intros assms; simp)
next
  case (Suc n)
  then show ?case by (subst readline_loop.simps) (intro plain_intros assms; simp)
qed

lemma plain_tcp_readline [plain_intros]: "plain (tcp_readline client_error_handler sk b buf)"
  unfolding tcp_readline_def by (intro plain_readline_loop plain_intros)

lemma plain_decompressor [plain_intros]: "plain (decompressor z p s n k)"
  unfolding decompressor_def copy_buffer_in_file_def Let_def by (intro plain_intros)

lemma plain_make_path_loop: "plain (make_path_loop cap tmp rest :: ('a, int) cl)"
proof (induction cap tmp rest rule: make_path_loop.induct)
  case (1 cap tmp rest)
  show ?case
  proof (cases "next_name cap tmp rest")
    case None
    then show ?thesis by (subst make_path_loop.simps) (simp add: plain_mret plain_undef del: make_path_loop.simps)
  next
    case (Some a)
    obtain tmp' rest' where a: "a = (tmp', rest')" by (cases a)
    have step: "plain (make_path_loop cap tmp' rest' :: ('a, int) cl)"
      if "rest \<noteq> []" "\<not> cap \<le> length tmp'" "\<not> (ret \<noteq> 0 \<and> e \<noteq> EEXIST)" for ret :: int and e
      using 1 [OF that(1) Some _ that(2,3)] a by simp
    show ?thesis
      by (subst make_path_loop.simps) (unfold Some a option.case prod.case, intro plain_intros step; assumption?)
  qed
qed

lemma plain_dirs [plain_intros]: "plain (MakePath p)" "plain (DirExists p)" "plain (CreateTransmissionDir p l)"
proof -
  show m: "plain (MakePath p)" for p unfolding MakePath_def by (rule plain_make_path_loop)
  show "plain (DirExists p)" unfolding DirExists_def by (intro plain_intros)
  show "plain (CreateTransmissionDir p l)" unfolding CreateTransmissionDir_def Let_def by (intro plain_intros m)
qed

lemma plain_sleepms [plain_intros]: "plain (sleepms ms)"
  unfolding sleepms_def by (intro plain_intros)

section \<open>The thread\<close>

definition thread_inv :: "bool \<Rightarrow> 'x client_world_scheme \<Rightarrow> bool" where
  "thread_inv stop w \<longleftrightarrow> sigpipe_ign w \<and> t_lock (td w) = Mx_Free \<and>
     (stop \<longrightarrow> t_running (td w) = 0 \<and> env_running w = [])"

fun ended :: "bool \<Rightarrow> 'a outcome \<Rightarrow> 'x client_world_scheme \<Rightarrow> bool" where
  "ended stop (Ret a) w = thread_inv stop w"
| "ended stop Thread_Exit w = (t_status (td w) \<in> {0, - 1, - 2})"
| "ended stop (Undef u) w = True"
| "ended stop Still_Running w = (\<not> stop)"
| "ended stop r w = False"

definition ends :: "bool \<Rightarrow> ('x, 'a) cl \<Rightarrow> bool" where
  "ends stop m \<longleftrightarrow> (\<forall>w. thread_inv stop w \<longrightarrow> ended stop (outcome_of m w) (world_after m w))"

named_theorems ends_intros

lemma endsI: "(\<And>w. thread_inv stop w \<Longrightarrow> ended stop (outcome_of m w) (world_after m w)) \<Longrightarrow> ends stop m"
  by (simp add: ends_def)

lemma endsD: "ends stop m \<Longrightarrow> thread_inv stop w \<Longrightarrow> m w = (r, w') \<Longrightarrow> ended stop r w'"
  by (auto simp: ends_def dest: spec [of _ w])

lemma plain_ends: "plain m \<Longrightarrow> ends stop m"
proof (rule endsI)
  fix w :: "'a client_world_scheme"
  assume "plain m" and i: "thread_inv stop w"
  then have "shared (world_after m w) = shared w" "comes_back (outcome_of m w)"
    by (auto simp: plain_def thread_inv_def)
  with i show "ended stop (outcome_of m w) (world_after m w)"
    by (cases "outcome_of m w") (auto simp: shared_def thread_inv_def)
qed

lemma ends_mbind [ends_intros]:
  assumes "ends stop m" "\<And>a. ends stop (f a)"
  shows "ends stop (mbind m f)"
proof (rule endsI)
  fix w :: "'a client_world_scheme"
  assume i: "thread_inv stop w"
  obtain r w' where run: "m w = (r, w')" by (cases "m w")
  note e = endsD [OF assms(1) i run]
  show "ended stop (outcome_of (mbind m f) w) (world_after (mbind m f) w)"
    using e assms(2) run by (cases r) (auto simp: mbind_def ends_def)
qed

lemma ends_mseq [ends_intros]: "ends stop m \<Longrightarrow> ends stop n \<Longrightarrow> ends stop (mseq m n)"
  by (simp add: mseq_def ends_mbind)

lemma ends_if [ends_intros]: "(b \<Longrightarrow> ends stop m) \<Longrightarrow> (\<not> b \<Longrightarrow> ends stop n) \<Longrightarrow> ends stop (if b then m else n)"
  by simp

lemma ends_prod [ends_intros]: "(\<And>x y. ends stop (n x y)) \<Longrightarrow> ends stop (case p of (x, y) \<Rightarrow> n x y)"
  by (cases p) simp

lemma ends_still: "\<not> stop \<Longrightarrow> ends stop (mstop Still_Running)"
  by (simp add: ends_def mstop_def)

text \<open>What the thread does with the data it shares.\<close>

lemma PrintLog_ends [ends_intros]: "ends stop (PrintLog f as)"
proof -
  have *: "ends stop (mseq mutex_lock (mbind (log_write s) (\<lambda>ret. mseq mutex_unlock (mret ret))) :: ('a, int) cl)" for s
  proof (rule endsI)
    fix w :: "'a client_world_scheme"
    assume i: "thread_inv stop w"
    then have "(td w)\<lparr>t_lock := Mx_Free\<rparr> = td w" by (cases "td w") (simp add: thread_inv_def)
    with i show "ended stop (outcome_of (mseq mutex_lock (mbind (log_write s) (\<lambda>ret. mseq mutex_unlock (mret ret)))) w)
        (world_after (mseq mutex_lock (mbind (log_write s) (\<lambda>ret. mseq mutex_unlock (mret ret)))) w)"
      by (simp add: thread_inv_def mutex_lock_def mutex_unlock_def log_write_def mseq_def mbind_def mret_def mmod_def)
  qed
  show ?thesis
    unfolding PrintLog_def TimestampString_def Let_def
    by (intro ends_mbind * plain_ends plain_intros)
qed

lemma ExitTransmissionThread_ends [ends_intros]: "c \<in> {0, - 1, - 2} \<Longrightarrow> ends stop (ExitTransmissionThread sk c)"
proof -
  assume c: "c \<in> {0, - 1, - 2}"
  have "ends stop (mseq (set_status c) (mstop Thread_Exit) :: ('a, 'b) cl)"
    using c by (intro endsI) (simp add: set_status_def mseq_def mbind_def mmod_def mstop_def)
  then show ?thesis
    unfolding ExitTransmissionThread_def
    by (intro ends_mseq [OF PrintLog_ends] ends_mseq [OF plain_ends [OF plain_tcp(1)]])
qed

lemmas plain_steps [ends_intros] = plain_intros [THEN plain_ends]

lemma binary_getchar_ends [ends_intros]: "ends stop (tcp_binary_getchar_bs sk b)"
  unfolding tcp_binary_getchar_bs_def by (intro ends_intros) simp_all

lemma recv_loop_ends: "(\<And>b. ends stop (getc b)) \<Longrightarrow> ends stop (recv_loop getc n b)"
  by (induction n arbitrary: b) (auto intro!: ends_mbind ends_prod intro: plain_ends plain_mret)

lemma ReceiveAndDecompress_ends [ends_intros]: "ends stop (ReceiveAndDecompress z sk b p n k)"
proof -
  have "ends stop (receive_buffer sk ok n b)" for ok
    unfolding receive_buffer_def by (intro ends_intros recv_loop_ends)
  then show ?thesis unfolding ReceiveAndDecompress_def by (intro ends_intros) simp_all
qed

lemma TcpSendReceiveTT_ends [ends_intros]: "ends stop (TcpSendReceiveTT sk b s r)"
  unfolding TcpSendReceiveTT_def by (intro ends_intros) simp_all

lemma RequestFile_ends [ends_intros]: "ends stop (RequestFile z sk b p d)"
  unfolding RequestFile_def Let_def by (intro ends_intros)

lemma request_one_ends [ends_intros]: "ends stop (request_one z sk d b f)"
  unfolding request_one_def by (intro ends_intros)

lemma thread_inv_relock:
  "thread_inv stop w \<Longrightarrow> w\<lparr>td := (td w)\<lparr>t_lock := Mx_Free\<rparr>\<rparr> = w"
  by (cases w; cases "td w") (simp add: thread_inv_def)

lemma RequestAll_ends [ends_intros]: "ends stop (RequestAllReaminingFiles z sk b d)"
proof -
  have *: "ends stop (mseq mutex_lock (mbind (mget f) (\<lambda>x. mseq mutex_unlock (k x))) :: ('a, 'b) cl)"
    if "\<And>x. ends stop (k x)" for f and k :: "'c \<Rightarrow> ('a, 'b) cl"
  proof (rule endsI)
    fix w :: "'a client_world_scheme"
    assume i: "thread_inv stop w"
    have "mseq mutex_lock (mbind (mget f) (\<lambda>x. mseq mutex_unlock (k x))) w =
        k (f (w\<lparr>td := (td w)\<lparr>t_lock := Mx_Locked\<rparr>\<rparr>)) w"
      using i
      by (simp add: mseq_def mbind_def mget_def mutex_lock_def mutex_unlock_def mmod_def thread_inv_relock [OF i]
        thread_inv_def [of stop w])
    with that i show "ended stop (outcome_of (mseq mutex_lock (mbind (mget f) (\<lambda>x. mseq mutex_unlock (k x)))) w)
        (world_after (mseq mutex_lock (mbind (mget f) (\<lambda>x. mseq mutex_unlock (k x)))) w)"
      by (simp add: ends_def)
  qed
  show ?thesis
    unfolding RequestAllReaminingFiles_def Let_def by (intro * ends_intros)
qed

lemma locked_set_ends: "ends stop m \<Longrightarrow> ends stop (mseq mutex_lock (mseq (set_tr tr) (mseq mutex_unlock m)))"
proof (rule endsI)
  fix w :: "'a client_world_scheme"
  assume m: "ends stop m" and i: "thread_inv stop w"
  have e: "(td w)\<lparr>t_tr := tr, t_lock := Mx_Free\<rparr> = (td w)\<lparr>t_tr := tr\<rparr>"
    using i by (cases "td w") (simp add: thread_inv_def)
  have "mseq mutex_lock (mseq (set_tr tr) (mseq mutex_unlock m)) w = m (w\<lparr>td := (td w)\<lparr>t_tr := tr\<rparr>\<rparr>)"
    using i by (simp add: mseq_def mbind_def mutex_lock_def mutex_unlock_def set_tr_def mmod_def thread_inv_def e)
  moreover have "thread_inv stop (w\<lparr>td := (td w)\<lparr>t_tr := tr\<rparr>\<rparr>)" using i by (simp add: thread_inv_def)
  ultimately show "ended stop (outcome_of (mseq mutex_lock (mseq (set_tr tr) (mseq mutex_unlock m))) w)
      (world_after (mseq mutex_lock (mseq (set_tr tr) (mseq mutex_unlock m))) w)"
    using m by (simp add: ends_def)
qed

lemma tt_request_ends [ends_intros]: "ends stop (tt_request sk c v)"
  unfolding tt_request_def by (intro ends_intros)

lemma tt_receive_ends [ends_intros]: "ends stop (tt_receive z sk v f d)"
  unfolding tt_receive_def Let_def by (intro ends_intros) simp_all

lemma tt_sending_ends [ends_intros]: "ends stop (tt_sending z sk v)"
  unfolding tt_sending_def Let_def by (intro ends_intros locked_set_ends)

lemma tt_empty_ends [ends_intros]: "ends stop (tt_empty z sk v)"
  unfolding tt_empty_def Let_def by (intro ends_intros) simp_all

text \<open>The two loops look at \<open>running\<close>; a thread that is told to stop leaves them.\<close>

lemma read_running_ends:
  assumes "\<And>r. \<not> stop \<or> r = 0 \<Longrightarrow> ends stop (k r)"
  shows "ends stop (mbind (if b then read_running else mret 0) k)"
proof (rule endsI)
  fix w :: "'a client_world_scheme"
  assume i: "thread_inv stop w"
  have "\<exists>r w'. (if b then read_running else mret 0) w = (Ret r, w') \<and> thread_inv stop w' \<and> (\<not> stop \<or> r = 0)"
  proof (cases b)
    case True
    with i show ?thesis by (cases "env_running w") (auto simp: read_running_def thread_inv_def)
  qed (use i in \<open>simp add: mret_def\<close>)
  then obtain r w' where run: "(if b then read_running else mret 0) w = (Ret r, w')" and i': "thread_inv stop w'"
    and r: "\<not> stop \<or> r = 0" by blast
  from assms [OF r] i' run show "ended stop (outcome_of (mbind (if b then read_running else mret 0) k) w)
      (world_after (mbind (if b then read_running else mret 0) k) w)"
    by (simp add: mbind_def ends_def)
qed

lemma tt_wait_ends: "\<not> stop \<or> 0 < n \<Longrightarrow> ends stop (tt_wait n sk v :: ('a, tt_vars) cl)"
proof (induction n arbitrary: v)
  case (Suc n)
  note IH = Suc.IH [OF disjI1]
  show ?case
    unfolding tt_wait.simps
    by (rule ends_mbind, intro ends_intros, rule read_running_ends) (intro ends_intros IH; auto)
qed (simp add: ends_still)

lemma tt_round_ends: "ends stop (tt_round z (Suc n) sk v)"
  unfolding tt_round_def by (intro ends_intros tt_wait_ends) simp_all

lemma tt_loop_ends: "\<not> stop \<or> 0 < n \<Longrightarrow> ends stop (tt_loop z n sk v :: ('a, unit) cl)"
proof (induction n arbitrary: v)
  case (Suc n)
  note IH = Suc.IH [OF disjI1]
  show ?case
    unfolding tt_loop.simps
    by (rule ends_mbind, rule tt_round_ends, rule ends_mbind, intro ends_intros, rule read_running_ends)
      (intro ends_intros IH; auto)
qed (simp add: ends_still)

lemma transmission_thread_ends_run: "ends False (transmission_thread z n)"
proof -
  have "ends False (set_status 1)"
    by (rule endsI) (simp add: set_status_def mmod_def thread_inv_def)
  then show ?thesis
    unfolding transmission_thread_def by (intro ends_intros tt_loop_ends) simp_all
qed

text \<open>The thread function does not return.\<close>

definition no_return :: "('w, 'a) prog \<Rightarrow> bool" where
  "no_return m \<longleftrightarrow> (\<forall>w a. outcome_of m w \<noteq> Ret a)"

lemma no_return_mbind: "(\<And>a. no_return (f a)) \<Longrightarrow> no_return (mbind m f)"
  by (simp add: no_return_def mbind_def split: prod.split outcome.split)

lemma no_return_mseq: "no_return n \<Longrightarrow> no_return (mseq m n)"
  by (simp add: mseq_def no_return_mbind)

lemma no_return_thread: "no_return (transmission_thread z n)"
proof -
  have stop: "no_return (mstop Thread_Exit)" by (simp add: no_return_def mstop_def)
  show ?thesis
    unfolding transmission_thread_def ExitTransmissionThread_def split_def
    by (intro no_return_mbind no_return_mseq stop)
qed

end
