(* ===== verification/Client_Main.thy ===== *)
theory Client_Main
  imports Client_Lib
begin

text \<open>
  The main thread of the client: the functions of \<open>app/client/client_lib.c\<close> it calls and
  \<open>main\<close> of \<open>app/client/client.c\<close>. \<open>pthread_create\<close> only counts the new thread: what the
  transmission thread does to \<open>status\<close> is read through the script of the world.
\<close>

section \<open>Requests and the end of the program\<close>

definition EXIT_FAILURE :: int where "EXIT_FAILURE = 1"

definition EXIT_SUCCESS :: int where "EXIT_SUCCESS = 0"

definition close_log :: "('x, unit) cl" where
  "close_log = mseq os_fclose (mmod (\<lambda>w. w\<lparr>log_open := False\<rparr>))"

text \<open>\<open>pthread_join\<close>: \<open>True\<close> for success.\<close>

definition thread_join :: "('x, bool) cl" where
  "thread_join = (\<lambda>w. if tid_set w then (Ret (join_ok w), w) else (Undef Bad_Thread, w))"

definition mutex_destroy :: "('x, unit) cl" where
  "mutex_destroy = mmod (\<lambda>w. w\<lparr>td := (td w)\<lparr>t_lock := Mx_Destroyed\<rparr>\<rparr>)"

definition ExitMainThread :: "int \<Rightarrow> int \<Rightarrow> ('x, 'a) cl" where
  "ExitMainThread sk exit_code =
     mseq (PrintLog (ln ''CLOSING MAIN THREAD'') [])
     (mbind read_status (\<lambda>status.
      mbind (mget (\<lambda>w. t_running (td w))) (\<lambda>running.
      mseq (if status = 1 \<or> running = 1 then
              mseq (PrintLog (ln ''Transmission thread is running, trying to join...'') [])
              (mseq (set_running 0)
              (mbind thread_join (\<lambda>ok.
               if \<not> ok then
                 mseq (PrintLog (ln ''Failed to join transmission thread'') [])
                 (mseq EndIO (mseq close_log (mstop (Exit EXIT_FAILURE))))
               else mseq (PrintLog (ln ''Transmission thread joined'') []) (mret ()))))
            else mseq (PrintLog (ln ''Transmission thread is not running, nothing to join...'') []) (mret ()))
      (mseq EndIO
      (mseq mutex_destroy
      (mseq (os_print (ln ''Closing client...'') [])
      (mseq (tcp_send client_error_handler sk (ln ''CLOSE''))
      (mseq (PrintLog (ln ''CLIENT CLOSED'') [])
      (mseq close_log (mstop (Exit exit_code)))))))))))"

definition TcpSendReceiveMT ::
  "int \<Rightarrow> buffer_tcp \<Rightarrow> string \<Rightarrow> string \<Rightarrow> ('x, int \<times> buffer_tcp \<times> string) cl" where
  "TcpSendReceiveMT sk b send rec =
     mbind (tcp_send client_error_handler sk send) (\<lambda>r.
     if r = 0 then
       mseq (PrintLog (ln ''ERROR, UNABLE TO WRITE'') [])
       (mret (- 1, b, store_at (ln ''ERROR, UNABLE TO WRITE'' @ [NUL]) rec))
     else
       mbind (tcp_readline client_error_handler sk b rec) (\<lambda>(ret, b, rec).
       if ret = EOF \<or> ret = 0 then
         mseq (PrintLog (ln ''ERROR, UNABLE TO READ'') [])
         (mret (- 2, b, store_at (ln ''ERROR, UNABLE TO READ'' @ [NUL]) rec))
       else
         mbind (read_cstr rec) (\<lambda>s.
         mseq (if strncmp s ''ERROR'' 5 = 0 then
                 mseq (PrintLog (ln ''R - ERROR received from Server: %s'') [FStr s])
                   (ExitMainThread sk EXIT_FAILURE)
               else mret ())
         (mseq (if strncmp s ''STATUS'' 6 \<noteq> 0 then mseq (PrintLog (ln ''R - %s'') [FStr s]) (mret ()) else mret ())
         (mret (0, b, rec))))))"

section \<open>The transmission thread and the connection\<close>

text \<open>\<open>pthread_create\<close>: \<open>True\<close> for success; a failure leaves the identifier undefined.\<close>

definition thread_create :: "('x, bool) cl" where
  "thread_create = (\<lambda>w. case create_ok w of
       [] \<Rightarrow> (Ret True, w\<lparr>tid_set := True, threads := Suc (threads w)\<rparr>)
     | ok # oks \<Rightarrow> (Ret ok, w\<lparr>tid_set := ok, threads := (if ok then Suc (threads w) else threads w), create_ok := oks\<rparr>))"

definition CreateTransmissionThread :: "('x, int) cl" where
  "CreateTransmissionThread =
     mseq (set_running 1)
     (mseq (PrintLog (ln ''Starting the transmission thread'') [])
     (mbind thread_create (\<lambda>ok.
      if \<not> ok then mseq (PrintLog (ln ''ERROR - Failed to create transmission thread'') []) (mret (- 1))
      else mseq (PrintLog (ln ''Transmission thread started'') []) (mret 0))))"

text \<open>The result is the return value, \<open>*connected\<close> and \<open>*end\<close>; one unit of fuel is one attempt.\<close>

fun connect_loop :: "nat \<Rightarrow> string \<Rightarrow> int \<Rightarrow> ('x, int \<times> bool \<times> bool) cl" where
  "connect_loop 0 ip port = mstop Still_Running"
| "connect_loop (Suc n) ip port =
     mbind (create_tcp_client_connection client_error_handler ip port) (\<lambda>sk.
     if sk < 0 then
       mseq (PrintLog (ln ''Unable to connect to the Server, retrying in a bit'') [])
       (mseq (curs (Mvprintw 2 0 ''LOGGER: DISCONNECTED''))
       (mseq (curs Refresh)
       (mbind GetUserInput (\<lambda>ch.
        if ch = 53 then mret (sk, False, True)
        else mseq (os_nanosleep 3 0) (connect_loop n ip port)))))
     else
       mseq (PrintLog (ln ''Successfully connected to the Server'') []) (mret (sk, True, False)))"

definition Connect :: "nat \<Rightarrow> string \<Rightarrow> int \<Rightarrow> ('x, int \<times> bool \<times> bool) cl" where
  "Connect n ip port =
     mseq (PrintLog (ln ''Trying to connect to the Server'') []) (connect_loop n ip port)"

section \<open>The main program\<close>

definition MS_DELAY :: int where "MS_DELAY = 100"

definition LOG_FILE :: string where "LOG_FILE = ''lidar_control.log''"

record main_vars =
  m_b :: buffer_tcp
  m_rec :: string
  m_active :: bool
  m_end :: bool
  m_logger_status :: int

text \<open>A request of the loop: the flag is \<open>False\<close> when the connection is lost.\<close>

definition m_request :: "int \<Rightarrow> string \<Rightarrow> main_vars \<Rightarrow> ('x, main_vars) cl" where
  "m_request sk cmd v =
     mbind (TcpSendReceiveMT sk (m_b v) cmd (m_rec v)) (\<lambda>(r, b, rec).
     mret (v\<lparr>m_b := b, m_rec := rec, m_active := \<not> r < 0\<rparr>))"

definition start_thread :: "int \<Rightarrow> ('x, unit) cl" where
  "start_thread sk =
     mbind CreateTransmissionThread (\<lambda>r. if r < 0 then ExitMainThread sk EXIT_FAILURE else mret ())"

text \<open>The commands of the user; the keys are the characters 1 to 5.\<close>

definition client_key :: "int \<Rightarrow> int \<Rightarrow> main_vars \<Rightarrow> ('x, main_vars) cl" where
  "client_key sk ch v =
     (if ch = 49 then
        mseq (PrintLog (ln ''Sending START command'') [])
        (mbind (mget (uninit_array TIMESTAMP_LEN ''main.timestamp'')) (\<lambda>uninit.
         mbind (TimestampString TIMESTAMP_LEN ''%Y%m%d-%H%M%S'' uninit) (\<lambda>ts.
         mbind (read_cstr ts) (\<lambda>timestamp.
         m_request sk (snprintf MAXCMDLEN (ln ''START %s'') [FStr timestamp]) v))))
      else if ch = 50 then
        mseq (PrintLog (ln ''Sending STOP command'') []) (m_request sk (ln ''STOP'') v)
      else if ch = 51 then
        mbind read_status (\<lambda>s. if s = 0 then mseq (start_thread sk) (mret v) else mret v)
      else if ch = 52 then
        mbind read_status (\<lambda>s. if s = 1 then
          mseq (set_running 0) (mseq (PrintLog (ln ''Stopping the transmission thread'') []) (mret v)) else mret v)
      else if ch = 53 then mret (v\<lparr>m_end := True\<rparr>)
      else mret v)"

text \<open>The rest of a turn after the user's command.\<close>

definition client_report :: "int \<Rightarrow> main_vars \<Rightarrow> ('x, main_vars) cl" where
  "client_report sk v =
     mbind read_status (\<lambda>s.
     mseq (if s = - 1 then
             mseq (PrintLog (ln ''ERROR detected on transmission thread, ending main thread'') [])
               (ExitMainThread sk EXIT_FAILURE)
           else mret ())
     (mseq mutex_lock
     (mbind (mget (\<lambda>w. t_tr (td w))) (\<lambda>tr.
      mbind read_status (\<lambda>transmission_status.
      mseq mutex_unlock
      (mseq (PrintInfo (m_logger_status v) transmission_status tr)
      (mseq (sleepms MS_DELAY) (mret v))))))))"

definition client_turn :: "int \<Rightarrow> main_vars \<Rightarrow> ('x, main_vars) cl" where
  "client_turn sk v =
     mbind (m_request sk (ln ''STATUS'') v) (\<lambda>v.
     if \<not> m_active v then mret v
     else
       mbind (read_cstr (m_rec v)) (\<lambda>rec.
       let v = v\<lparr>m_logger_status := sint_at (sscanf rec ''%*s %d'') 0 (m_logger_status v)\<rparr>
       in mbind read_status (\<lambda>s.
          mseq (if s = - 2 then start_thread sk else mret ())
          (mbind GetUserInput (\<lambda>ch.
           mbind (if ch \<noteq> EOF then client_key sk ch v else mret v) (\<lambda>v.
           if \<not> m_active v then mret v else client_report sk v))))))"

fun client_session :: "nat \<Rightarrow> int \<Rightarrow> main_vars \<Rightarrow> ('x, main_vars) cl" where
  "client_session 0 sk v = mstop Still_Running"
| "client_session (Suc n) sk v =
     (if m_active v \<and> \<not> m_end v then mbind (client_turn sk v) (client_session n sk) else mret v)"

fun client_loop :: "nat \<Rightarrow> string \<Rightarrow> int \<Rightarrow> main_vars \<Rightarrow> ('x, int) cl" where
  "client_loop 0 ip port v = mstop Still_Running"
| "client_loop (Suc n) ip port v =
     mbind (Connect (Suc n) ip port) (\<lambda>(sk, connected, fin).
     mbind (client_session (Suc n) sk (v\<lparr>m_active := connected, m_end := fin\<rparr>)) (\<lambda>v.
     if m_end v then ExitMainThread sk EXIT_SUCCESS else client_loop n ip port v))"

text \<open>\<open>strcpy(t.ip, argv[1])\<close> and \<open>atoi(argv[2])\<close>; an argument that is not given is a null pointer.\<close>

definition read_args :: "string list \<Rightarrow> ('x, string \<times> int) cl" where
  "read_args argv =
     (if length argv < 2 then mstop (Undef Null_Deref)
      else if IPLEN \<le> length (argv ! 1) then mstop (Undef Buf_Overflow)
      else if length argv < 3 then mstop (Undef Null_Deref)
      else mret (argv ! 1, atoi (argv ! 2)))"

definition client_main :: "nat \<Rightarrow> string list \<Rightarrow> ('x, int) cl" where
  "client_main n argv =
     mseq (mmod (\<lambda>w. w\<lparr>sigpipe_ign := True\<rparr>))
     (mbind (os_fopen_write LOG_FILE) (\<lambda>f.
      if \<not> f then mseq (os_eprint (ln ''Impossible to open the log file %s'') [FStr LOG_FILE]) (mstop (Exit EXIT_FAILURE))
      else
        mseq (mmod (\<lambda>w. w\<lparr>log_open := True, log := [], td := (td w)\<lparr>t_running := 0, t_status := 0\<rparr>\<rparr>))
        (mbind (read_args argv) (\<lambda>(ip, port).
         mbind (mget (\<lambda>w. (setup_fails w ''pthread_mutex_init'', uninit_array (BUFSIZ + 1) ''main.control_buffer'' w,
           uninit_array (BUFSIZ + 1) ''main.rec'' w))) (\<lambda>(fails, buf0, rec0).
         mseq (mmod (\<lambda>w. w\<lparr>td := (td w)\<lparr>t_ip := ip, t_port := port\<rparr>\<rparr>))
         (if fails then mseq (os_eprint (ln ''Mutex init failed'') []) (mstop (Exit EXIT_FAILURE))
          else
            mseq (mmod (\<lambda>w. w\<lparr>td := (td w)\<lparr>t_lock := Mx_Free\<rparr>\<rparr>))
            (if length argv \<noteq> 3 then
               mseq (os_eprint (ln ''args: server_ip_address tcp_port'') []) (mstop (Exit EXIT_FAILURE))
             else
               mseq InitIO
               (mseq (PrintLog (ln ''Starting the system'') [])
               (client_loop n ip port
                 \<lparr>m_b = init_buffer_tcp buf0, m_rec = rec0, m_active = False, m_end = False, m_logger_status = 0\<rparr>)))))))))"

end
