(* ===== verification/Server_Find.thy ===== *)
theory Server_Find
  imports Common_Lib
begin

text \<open>
  The search part of \<open>app/server/server_lib.c\<close>: which recording is sent next and which of
  its files. \<open>FindFirstDir\<close> and \<open>FindNextFile\<close> are one scheme, a scan of a directory for
  the smallest and the largest key; the interface \<open>extremum_scan\<close> states it once and is
  interpreted on the steps of both loops. An object the code reads without having set it
  is a field of the world (\<open>junk_int\<close>, \<open>junk_str\<close>) named after it.
\<close>

section \<open>Constants and helpers\<close>

definition MAX_PATH_LEN :: nat where "MAX_PATH_LEN = 256"

definition BUFFER_DIM :: nat where "BUFFER_DIM = 256"

section \<open>Keys of directory entries\<close>

definition ExtractFileNumber :: "int \<Rightarrow> string \<Rightarrow> int" where
  "ExtractFileNumber uninit_n filename = sint_at (sscanf filename ''%*[^_]_%d.%*s'') 0 uninit_n"

text \<open>
  \<open>tm_isdst\<close> is not set by \<open>strptime\<close> with this format: each call finds its own value there, here a
  function of the argument, since the names in a directory differ.
\<close>

definition StringToTime :: "(tm \<Rightarrow> int \<Rightarrow> int) \<Rightarrow> (string \<Rightarrow> int) \<Rightarrow> string \<Rightarrow> int" where
  "StringToTime mktime uninit_isdst s =
     (case strptime_ts s of Some tm \<Rightarrow> mktime tm (uninit_isdst s) | None \<Rightarrow> - 1)"

section \<open>The scan of a directory\<close>

definition file_entry :: "string \<Rightarrow> bool" where
  "file_entry d_name \<longleftrightarrow> strcmp d_name ''data.csv'' \<noteq> 0 \<and> strncmp d_name ''.'' 1 \<noteq> 0 \<and>
     strncmp d_name ''..'' 2 \<noteq> 0"

definition next_file_step :: "int \<Rightarrow> next_file \<Rightarrow> string \<Rightarrow> next_file" where
  "next_file_step uninit_n f d_name =
     (if file_entry d_name then
        (let f1 =
           (if nf_count f = 0 then
              (let n = ExtractFileNumber uninit_n d_name in f\<lparr>nf_first := n, nf_last := n\<rparr>)
            else
              (let tmp = ExtractFileNumber uninit_n d_name;
                   f2 = (if tmp < nf_first f then f\<lparr>nf_first := tmp\<rparr> else f)
               in if tmp > nf_last f2 then f2\<lparr>nf_last := tmp\<rparr> else f2))
         in f1\<lparr>nf_count := nf_count f1 + 1\<rparr>)
      else f)"

definition FindNextFile :: "next_file \<Rightarrow> string \<Rightarrow> ('x, int \<times> next_file) os" where
  "FindNextFile f path =
     mbind (os_opendir path) (\<lambda>d. case d of
       None \<Rightarrow> mret (0, f)
     | Some names \<Rightarrow>
         mbind (mget (\<lambda>w. junk_int w ''ExtractFileNumber.n'')) (\<lambda>n.
         mret (0, foldl (next_file_step n) (f\<lparr>nf_count := 0\<rparr>) names)))"

definition dir_entry :: "string \<Rightarrow> bool" where
  "dir_entry d_name \<longleftrightarrow> strncmp d_name ''.'' 1 \<noteq> 0 \<and> strncmp d_name ''..'' 2 \<noteq> 0"

text \<open>The loop of \<open>FindFirstDir\<close>, with its variables \<open>ts_first\<close> and \<open>ts_last\<close>.\<close>

definition first_dir_step ::
  "(string \<Rightarrow> int) \<Rightarrow> next_dir \<times> int \<times> int \<Rightarrow> string \<Rightarrow> next_dir \<times> int \<times> int" where
  "first_dir_step to_time s d_name =
     (case s of (nd, ts_first, ts_last) \<Rightarrow>
      if dir_entry d_name then
        (let name = strncpy d_name TIMESTAMP_LEN;
             (nd1, tf1, tl1) =
               (if nd_count nd = 0 then
                  (let t = to_time d_name in (nd\<lparr>nd_first := name, nd_last := name\<rparr>, t, t))
                else
                  (let ts_tmp = to_time d_name;
                       (nd2, tf2) = (if ts_tmp < ts_first then (nd\<lparr>nd_first := name\<rparr>, ts_tmp)
                                     else (nd, ts_first))
                   in if ts_tmp > ts_last then (nd2\<lparr>nd_last := name\<rparr>, tf2, ts_tmp)
                      else (nd2, tf2, ts_last)))
         in (nd1\<lparr>nd_count := nd_count nd1 + 1\<rparr>, tf1, tl1))
      else (nd, ts_first, ts_last))"

definition FindFirstDir :: "next_dir \<Rightarrow> string \<Rightarrow> ('x, int \<times> next_dir) os" where
  "FindFirstDir nd dir_name =
     mbind (os_opendir dir_name) (\<lambda>d. case d of
       None \<Rightarrow> mret (0, nd)
     | Some names \<Rightarrow>
         mbind (mget (\<lambda>w. (StringToTime (mk_time w) (\<lambda>s. junk_int w (''StringToTime.tm.tm_isdst '' @ s)),
            junk_int w ''FindFirstDir.ts_first'', junk_int w ''FindFirstDir.ts_last''))) (\<lambda>(to_time, tf, tl).
         mret (0, fst (foldl (first_dir_step to_time) (nd\<lparr>nd_count := 0\<rparr>, tf, tl) names))))"

section \<open>The search\<close>

definition DirExists :: "string \<Rightarrow> ('x, int) os" where
  "DirExists dir =
     mbind (os_opendir dir) (\<lambda>d.
     if d \<noteq> None then mret 1
     else mbind (mget errno_val) (\<lambda>e. if e = ENOENT then mret 0 else mret (- 1)))"

definition FindLidarDataInfo :: "next_dir \<Rightarrow> string \<Rightarrow> ('x, int \<times> next_dir) os" where
  "FindLidarDataInfo nd0 dir_name =
     mbind (FindFirstDir nd0 dir_name) (\<lambda>(_, nd).
     if nd_count nd = 0 then mret (0, nd)
     else mbind (read_cstr (nd_first nd)) (\<lambda>first.
     mbind (DirExists (snprintf MAX_PATH_LEN ''%s/%s/voxl-logger/log0000/run/mpa/tof''
       [FStr dir_name, FStr first])) (\<lambda>r.
     if r = 1 then mret (0, nd\<lparr>nd_logger_n := 0\<rparr>)
     else mbind (DirExists (snprintf MAX_PATH_LEN ''%s/%s/voxl-logger/log0001/run/mpa/tof''
       [FStr dir_name, FStr first])) (\<lambda>r.
     if r = 1 then mret (0, nd\<lparr>nd_logger_n := 1\<rparr>)
     else mret (- 1, nd)))))"

text \<open>
  The function ends without a \<open>return\<close> when both searches succeed; the value its caller
  then reads is \<open>FindNextTr.return\<close>.
\<close>

definition FindNextTr :: "tr_info \<Rightarrow> string \<Rightarrow> ('x, int \<times> tr_info) os" where
  "FindNextTr tr dir_name =
     mbind (FindLidarDataInfo (tr_d tr) dir_name) (\<lambda>(r, d).
     let tr1 = tr\<lparr>tr_d := d\<rparr> in
     if r < 0 then mret (- 1, tr1)
     else mbind (read_cstr (nd_first d)) (\<lambda>first.
     mbind (FindNextFile (tr_f tr1) (snprintf MAX_PATH_LEN ''%s/%s/voxl-logger/log%04d/run/mpa/tof''
       [FStr dir_name, FStr first, FInt (nd_logger_n d)])) (\<lambda>(r, f).
     let tr2 = tr1\<lparr>tr_f := f\<rparr> in
     if r < 0 then mret (- 2, tr2)
     else mbind (mget (\<lambda>w. junk_int w ''FindNextTr.return'')) (\<lambda>v. mret (v, tr2)))))"

section \<open>The scan scheme\<close>

text \<open>
  A step ignores an entry, or counts it and keeps the smallest and the largest key and the
  labels of the first entries that have them.
\<close>

locale extremum_scan =
  fixes entry :: "string \<Rightarrow> bool"
    and key :: "string \<Rightarrow> int"
    and label :: "string \<Rightarrow> 'n"
    and step :: "'s \<Rightarrow> string \<Rightarrow> 's"
    and cnt :: "'s \<Rightarrow> int"
    and lo :: "'s \<Rightarrow> int"
    and hi :: "'s \<Rightarrow> int"
    and lo_label :: "'s \<Rightarrow> 'n"
    and hi_label :: "'s \<Rightarrow> 'n"
  assumes step_skip: "\<not> entry x \<Longrightarrow> step s x = s"
    and cnt_step: "entry x \<Longrightarrow> cnt (step s x) = cnt s + 1"
    and lo_step: "entry x \<Longrightarrow> lo (step s x) = (if cnt s = 0 \<or> key x < lo s then key x else lo s)"
    and hi_step: "entry x \<Longrightarrow> hi (step s x) = (if cnt s = 0 \<or> hi s < key x then key x else hi s)"
    and label_step: "entry x \<Longrightarrow>
      lo_label (step s x) = (if cnt s = 0 \<or> key x < lo s then label x else lo_label s)"
    and hi_label_step: "entry x \<Longrightarrow>
      hi_label (step s x) = (if cnt s = 0 \<or> hi s < key x then label x else hi_label s)"
begin

definition scanned :: "'s \<Rightarrow> string list \<Rightarrow> bool" where
  "scanned s xs \<longleftrightarrow> cnt s = int (length xs) \<and>
     (xs \<noteq> [] \<longrightarrow> (\<forall>y \<in> set xs. lo s \<le> key y \<and> key y \<le> hi s) \<and>
       (\<exists>x \<in> set xs. key x = hi s \<and> hi_label s = label x) \<and>
       (\<exists>x \<in> set xs. key x = lo s \<and> lo_label s = label x))"

lemma scanned_step:
  assumes "scanned s xs" "entry x"
  shows "scanned (step s x) (xs @ [x])"
proof (cases "xs = []")
  case True
  with assms show ?thesis by (simp add: scanned_def cnt_step lo_step hi_step label_step hi_label_step)
next
  case False
  then have n: "cnt s \<noteq> 0" and bounds: "\<forall>y \<in> set xs. lo s \<le> key y \<and> key y \<le> hi s"
    and top: "\<exists>x \<in> set xs. key x = hi s \<and> hi_label s = label x"
    and bot: "\<exists>x \<in> set xs. key x = lo s \<and> lo_label s = label x"
    using assms(1) by (auto simp: scanned_def)
  have "cnt (step s x) = int (length (xs @ [x]))" using assms by (simp add: scanned_def cnt_step)
  moreover have "\<forall>y \<in> set (xs @ [x]). lo (step s x) \<le> key y \<and> key y \<le> hi (step s x)"
    using bounds n assms(2) by (auto simp: lo_step hi_step)
  moreover have "\<exists>y \<in> set (xs @ [x]). key y = hi (step s x) \<and> hi_label (step s x) = label y"
    using top n assms(2) by (auto simp: hi_step hi_label_step)
  moreover have "\<exists>y \<in> set (xs @ [x]). key y = lo (step s x) \<and> lo_label (step s x) = label y"
    using bot n assms(2) by (auto simp: lo_step label_step)
  ultimately show ?thesis by (simp add: scanned_def)
qed

lemma scanned_foldl:
  "scanned s xs \<Longrightarrow> scanned (foldl step s ys) (xs @ filter entry ys)"
proof (induction ys arbitrary: s xs)
  case (Cons y ys)
  show ?case
  proof (cases "entry y")
    case True
    with Cons show ?thesis using Cons.IH [OF scanned_step [OF Cons.prems True]] by simp
  next
    case False
    with Cons show ?thesis by (simp add: step_skip)
  qed
qed simp

lemma scan_result:
  assumes "cnt s = 0"
  shows "scanned (foldl step s ys) (filter entry ys)"
proof -
  have "scanned s []" using assms by (simp add: scanned_def)
  from scanned_foldl [OF this, of ys] show ?thesis by simp
qed

lemma scanned_Min_Max:
  assumes "scanned s xs" "xs \<noteq> []"
  shows "lo s = Min (key ` set xs)" "hi s = Max (key ` set xs)"
  using assms by (auto simp: scanned_def intro!: Min_eqI [symmetric] Max_eqI [symmetric]) (metis imageI)+

text \<open>
  Where a strictly monotone numbering \<open>f\<close> of the entries has a least and a greatest index,
  their labels are the ones found, whatever the order of the entries.
\<close>

lemma scanned_indexed:
  fixes f :: "'i::linorder \<Rightarrow> string"
  assumes "scanned s xs" "set xs = f ` I" "finite I" "I \<noteq> {}"
    and mono: "\<And>i j. i \<in> I \<Longrightarrow> j \<in> I \<Longrightarrow> i < j \<Longrightarrow> key (f i) < key (f j)"
  shows "lo_label s = label (f (Min I))" "hi_label s = label (f (Max I))"
    "lo s = key (f (Min I))" "hi s = key (f (Max I))"
proof -
  have xs: "xs \<noteq> []" using assms(2,4) by auto
  obtain i j where i: "i \<in> I" "key (f i) = lo s" "lo_label s = label (f i)"
    and j: "j \<in> I" "key (f j) = hi s" "hi_label s = label (f j)"
    using assms(1,2) xs by (auto simp: scanned_def)
  have le: "lo s \<le> key (f k) \<and> key (f k) \<le> hi s" if "k \<in> I" for k
    using assms(1,2) xs that by (auto simp: scanned_def)
  have "i = Min I"
    using mono [of "Min I" i] le [of "Min I"] i assms(3,4) Min_le [of I i] Min_in [of I]
    by (cases "Min I = i") (auto simp: order_less_le)
  moreover have "j = Max I"
    using mono [of j "Max I"] le [of "Max I"] j assms(3,4) Max_ge [of I j] Max_in [of I]
    by (cases "Max I = j") (auto simp: order_less_le)
  ultimately show "lo_label s = label (f (Min I))" "hi_label s = label (f (Max I))"
    "lo s = key (f (Min I))" "hi s = key (f (Max I))" using i j by simp_all
qed

end

interpretation file_scan: extremum_scan file_entry "ExtractFileNumber j" "ExtractFileNumber j"
  "next_file_step j" nf_count nf_first nf_last nf_first nf_last for j
  by unfold_locales (auto simp: next_file_step_def Let_def)

interpretation dir_scan: extremum_scan dir_entry to_time "\<lambda>x. strncpy x TIMESTAMP_LEN"
  "first_dir_step to_time" "\<lambda>(nd, tf, tl). nd_count nd" "\<lambda>(nd, tf, tl). tf" "\<lambda>(nd, tf, tl). tl"
  "\<lambda>(nd, tf, tl). nd_first nd" "\<lambda>(nd, tf, tl). nd_last nd" for to_time
  by unfold_locales (auto simp: first_dir_step_def Let_def split: prod.splits)

section \<open>Names of files and recordings\<close>

text \<open>The name of the \<open>n\<close>-th point cloud.\<close>

definition data_name :: "int \<Rightarrow> string" where
  "data_name n = vformat ''data_%d.pcd'' [FInt n]"

lemma data_name_eq: "data_name n = ''data_'' @ fmt_d n @ ''.pcd''"
  by (simp add: data_name_def format_simps)

lemma ExtractFileNumber_data_name:
  assumes "int32 n"
  shows "ExtractFileNumber j (data_name n) = n"
proof -
  have "sformat ''%*[^_]_%d.%*s'' = [SUntil CHR ''_'', SLit CHR ''_'', SInt 32, SLit CHR ''.'', SWord False]"
    by (simp add: sformat_simps)
  moreover have "no_digit_start ''.pcd''" by (simp add: isdigit_def)
  ultimately show ?thesis
    using assms scan_SInt_app [of "''.pcd''" 32 _ n]
    by (simp add: ExtractFileNumber_def sscanf_def data_name_eq wrap_int_32 isspace_def del: scan.simps(5))
qed

lemma of_char_dot: "of_char c = (46 :: nat) \<longleftrightarrow> c = CHR ''.''"
proof -
  have "of_char (CHR ''.'') = (46 :: nat)" by simp
  then show ?thesis by (metis of_char_eq_iff)
qed

lemma file_entry_iff:
  "nul_free x \<Longrightarrow> file_entry x \<longleftrightarrow> x \<noteq> ''data.csv'' \<and> take 1 x \<noteq> ''.''"
proof -
  assume x: "nul_free x"
  have "nul_free ''data.csv''" "nul_free ''.''" "nul_free ''..''" by (simp_all add: nul_free_def NUL_def)
  then show ?thesis
    using x by (cases x) (auto simp: file_entry_def strcmp_0_iff strncmp_0_iff numeral_2_eq_2 of_char_dot)
qed

lemma dir_entry_iff: "nul_free x \<Longrightarrow> dir_entry x \<longleftrightarrow> take 1 x \<noteq> ''.''"
proof -
  assume x: "nul_free x"
  have "nul_free ''.''" "nul_free ''..''" by (simp_all add: nul_free_def NUL_def)
  then show ?thesis
    using x by (cases x) (auto simp: dir_entry_def strncmp_0_iff numeral_2_eq_2 of_char_dot)
qed

lemma dot_entries [simp]: "\<not> file_entry ''.''" "\<not> file_entry ''..''" "\<not> dir_entry ''.''" "\<not> dir_entry ''..''"
  by (simp_all add: file_entry_iff dir_entry_iff nul_free_def NUL_def)

lemma StringToTime_strftime: "printable_tm t \<Longrightarrow> StringToTime mk d (strftime_ts t) = mk t (d (strftime_ts t))"
  using strptime_strftime [of t "[]"] by (simp add: StringToTime_def)

section \<open>Runs of the searches\<close>

text \<open>A directory that can be listed, with its entries in directory order.\<close>

definition listed :: "'x world_scheme \<Rightarrow> string \<Rightarrow> string list \<Rightarrow> bool" where
  "listed w path names \<longleftrightarrow> node_at (fs w) (pcomps path) = Some Dir \<and>
     \<not> denied ''opendir'' (pcomps path) w \<and> names = children (fs w) (pcomps path)"

lemma os_opendir_listed:
  "listed w path names \<Longrightarrow> os_opendir path w = (Ret (Some (''.'' # ''..'' # names)), w)"
  by (simp add: os_opendir_def listed_def Let_def)

lemma FindNextFile_run:
  assumes "listed w path names"
  shows "FindNextFile f path w =
    (Ret (0, foldl (next_file_step (junk_int w ''ExtractFileNumber.n'')) (f\<lparr>nf_count := 0\<rparr>) names), w)"
  using assms
  by (simp add: FindNextFile_def exec_defs os_opendir_listed next_file_step_def)

definition dir_time :: "'x world_scheme \<Rightarrow> string \<Rightarrow> int" where
  "dir_time w = StringToTime (mk_time w) (\<lambda>s. junk_int w (''StringToTime.tm.tm_isdst '' @ s))"

lemma FindFirstDir_run:
  assumes "listed w path names"
  shows "FindFirstDir nd path w = (Ret (0, fst (foldl (first_dir_step (dir_time w))
     (nd\<lparr>nd_count := 0\<rparr>, junk_int w ''FindFirstDir.ts_first'', junk_int w ''FindFirstDir.ts_last'') names)), w)"
  using assms
  by (simp add: FindFirstDir_def exec_defs os_opendir_listed first_dir_step_def dir_time_def)

lemma FindNextFile_scanned:
  assumes "listed w path names"
  shows "\<exists>f'. FindNextFile f path w = (Ret (0, f'), w) \<and>
    file_scan.scanned (junk_int w ''ExtractFileNumber.n'') f' (filter file_entry names)"
  using FindNextFile_run [OF assms, of f] file_scan.scan_result [of "f\<lparr>nf_count := 0\<rparr>"] by auto

lemma FindFirstDir_scanned:
  assumes "listed w path names"
  shows "\<exists>s. FindFirstDir nd path w = (Ret (0, fst s), w) \<and>
    dir_scan.scanned (dir_time w) s (filter dir_entry names)"
  using FindFirstDir_run [OF assms, of nd]
    dir_scan.scan_result [of "(nd\<lparr>nd_count := 0\<rparr>, junk_int w ''FindFirstDir.ts_first'',
      junk_int w ''FindFirstDir.ts_last'')"] by fastforce

section \<open>Facts the properties share\<close>

lemma nul_free_data_name: "nul_free (data_name n)"
  using nul_free_fmt_d [of n] by (auto simp: data_name_eq nul_free_def NUL_def)

lemma file_entry_data_name [simp]: "file_entry (data_name n)"
  by (simp add: file_entry_iff nul_free_data_name) (simp add: data_name_eq)

lemma nul_free_strftime: "printable_tm t \<Longrightarrow> nul_free (strftime_ts t)"
  by (auto simp: nul_free_def dest!: strftime_ts_chars isdigit_neq simp: NUL_def)

lemma strftime_not_dot: "printable_tm t \<Longrightarrow> take 1 (strftime_ts t) \<noteq> ''.''"
  using strftime_ts_chars [of "CHR ''.''" t] by (cases "strftime_ts t") (auto simp: isdigit_def)

lemma dir_entry_strftime [simp]: "printable_tm t \<Longrightarrow> dir_entry (strftime_ts t)"
  using strftime_not_dot [of t] by (simp add: dir_entry_iff nul_free_strftime)

lemma cstr_of_timestamp: "printable_tm t \<Longrightarrow> cstr_of (strncpy (strftime_ts t) TIMESTAMP_LEN) = Some (strftime_ts t)"
  by (simp add: cstr_of_strncpy nul_free_strftime TIMESTAMP_LEN_def)

lemma dir_time_strftime:
  "printable_tm t \<Longrightarrow> dir_time w (strftime_ts t) = mk_time w t (junk_int w (''StringToTime.tm.tm_isdst '' @ strftime_ts t))"
  by (simp add: dir_time_def StringToTime_strftime)

lemma FindNextFile_data_names:
  assumes "listed w path names" "filter file_entry names = map data_name ns"
    and "list_all int32 ns" "ns \<noteq> []"
  shows "FindNextFile f path w =
    (Ret (0, \<lparr>nf_first = Min (set ns), nf_last = Max (set ns), nf_count = int (length ns)\<rparr>), w)"
proof -
  let ?j = "junk_int w ''ExtractFileNumber.n''"
  obtain f' where run: "FindNextFile f path w = (Ret (0, f'), w)"
    and sc: "file_scan.scanned ?j f' (map data_name ns)"
    using FindNextFile_scanned [OF assms(1), of f] assms(2) by auto
  have key: "ExtractFileNumber ?j ` set (map data_name ns) = set ns"
    using assms(3) by (force simp: list_all_iff ExtractFileNumber_data_name)
  have "map data_name ns \<noteq> []" using assms(4) by simp
  from file_scan.scanned_Min_Max [OF sc this] sc
  have "nf_first f' = Min (set ns)" "nf_last f' = Max (set ns)" "nf_count f' = int (length ns)"
    unfolding key by (simp_all add: file_scan.scanned_def)
  then have "f' = \<lparr>nf_first = Min (set ns), nf_last = Max (set ns), nf_count = int (length ns)\<rparr>" by simp
  with run show ?thesis by simp
qed

lemma FindNextFile_none:
  "listed w path names \<Longrightarrow> filter file_entry names = [] \<Longrightarrow>
   FindNextFile f path w = (Ret (0, f\<lparr>nf_count := 0\<rparr>), w)"
proof -
  assume w: "listed w path names" and none: "filter file_entry names = []"
  from none have "foldl (next_file_step j) g names = g" for g j
  proof (induction names arbitrary: g)
    case (Cons a names)
    then show ?case by (auto simp: next_file_step_def split: if_splits)
  qed simp
  with w show ?thesis by (simp add: FindNextFile_run)
qed

lemma file_entry_csv: "\<not> file_entry ''data.csv''"
  by (simp add: file_entry_iff nul_free_def NUL_def)

text \<open>
  The local time is strictly monotone on the times \<open>ts\<close>, with whatever each call finds in
  \<open>tm_isdst\<close>, as it is in a zone without daylight saving time.
\<close>

definition mktime_mono :: "'x world_scheme \<Rightarrow> tm list \<Rightarrow> bool" where
  "mktime_mono w ts \<longleftrightarrow> list_all (\<lambda>s. list_all (\<lambda>t. s < t \<longrightarrow>
     mk_time w s (junk_int w (''StringToTime.tm.tm_isdst '' @ strftime_ts s)) <
     mk_time w t (junk_int w (''StringToTime.tm.tm_isdst '' @ strftime_ts t))) ts) ts"

lemma FindFirstDir_timestamps:
  assumes "listed w path names" "filter dir_entry names = map strftime_ts ts"
    and "list_all printable_tm ts" "ts \<noteq> []" "mktime_mono w ts"
  shows "\<exists>nd'. FindFirstDir nd path w = (Ret (0, nd'), w) \<and> nd_count nd' = int (length ts) \<and>
    cstr_of (nd_first nd') = Some (strftime_ts (Min (set ts))) \<and>
    cstr_of (nd_last nd') = Some (strftime_ts (Max (set ts)))"
proof -
  obtain s where run: "FindFirstDir nd path w = (Ret (0, fst s), w)"
    and sc: "dir_scan.scanned (dir_time w) s (map strftime_ts ts)"
    using FindFirstDir_scanned [OF assms(1), of nd] assms(2) by auto
  have pr: "printable_tm t" if "t \<in> set ts" for t using that assms(3) by (simp add: list_all_iff)
  have mono: "dir_time w (strftime_ts i) < dir_time w (strftime_ts j)"
    if "i \<in> set ts" "j \<in> set ts" "i < j" for i j
    using that assms(5) by (simp add: dir_time_strftime pr mktime_mono_def list_all_iff)
  have "Min (set ts) \<in> set ts" "Max (set ts) \<in> set ts" using assms(4) by simp_all
  with dir_scan.scanned_indexed [OF sc, of strftime_ts "set ts"] mono assms(4) sc run show ?thesis
    by (cases s) (auto simp: dir_scan.scanned_def cstr_of_timestamp pr)
qed

section \<open>Properties\<close>

text \<open>
  C19. \<open>FindNextFile\<close> finds the smallest and the largest number of the point clouds of a
  directory and counts them, in whatever order the directory lists them; \<open>data.csv\<close>
  and hidden entries do not count.
\<close>

theorem FindNextFile_first_last:
  assumes "listed w path names" "filter file_entry names = map data_name ns" "list_all int32 ns"
  shows "FindNextFile f path w =
    (Ret (0, if ns = [] then f\<lparr>nf_count := 0\<rparr> else
       \<lparr>nf_first = Min (set ns), nf_last = Max (set ns), nf_count = int (length ns)\<rparr>), w)"
proof (cases "ns = []")
  case True
  with FindNextFile_none [OF assms(1)] assms(2) show ?thesis by simp
next
  case False
  with FindNextFile_data_names [OF assms] show ?thesis by simp
qed

theorem FindNextFile_first_last_witness:
  "\<forall>f. FindNextFile f ''d'' (plain_world\<lparr>fs := [([''d''], Dir), ([''d'', ''data_10.pcd''], File []),
      ([''d'', ''data.csv''], File []), ([''d'', ''data_9.pcd''], File [])]\<rparr>) =
    (Ret (0, \<lparr>nf_first = 9, nf_last = 10, nf_count = 2\<rparr>),
     plain_world\<lparr>fs := [([''d''], Dir), ([''d'', ''data_10.pcd''], File []),
      ([''d'', ''data.csv''], File []), ([''d'', ''data_9.pcd''], File [])]\<rparr>)"
proof
  fix f
  have names: "data_name 10 = ''data_10.pcd''" "data_name 9 = ''data_9.pcd''"
    by (simp_all add: data_name_eq fmt_d_def digs.simps digit_char_table)
  have "listed (plain_world\<lparr>fs := [([''d''], Dir), ([''d'', ''data_10.pcd''], File []),
      ([''d'', ''data.csv''], File []), ([''d'', ''data_9.pcd''], File [])]\<rparr>) ''d''
      [''data_10.pcd'', ''data.csv'', ''data_9.pcd'']"
    by (simp add: listed_def plain_world_def node_at_def denied_def children_def pcomps_def)
  from FindNextFile_first_last [OF this, of "[10, 9]" f]
  show "FindNextFile f ''d'' (plain_world\<lparr>fs := [([''d''], Dir), ([''d'', ''data_10.pcd''], File []),
      ([''d'', ''data.csv''], File []), ([''d'', ''data_9.pcd''], File [])]\<rparr>) =
    (Ret (0, \<lparr>nf_first = 9, nf_last = 10, nf_count = 2\<rparr>),
     plain_world\<lparr>fs := [([''d''], Dir), ([''d'', ''data_10.pcd''], File []),
      ([''d'', ''data.csv''], File []), ([''d'', ''data_9.pcd''], File [])]\<rparr>)"
    using file_entry_data_name [of 10] file_entry_data_name [of 9]
    by (simp add: names int32_def file_entry_csv)
qed

text \<open>
  C10. \<open>FindFirstDir\<close> finds the oldest and the newest recording: where every entry of the
  directory is named by a timestamp, \<open>first\<close> is the name with the least time, \<open>last\<close> the
  one with the greatest, and \<open>count\<close> the number of recordings.
\<close>

theorem FindFirstDir_oldest:
  assumes "listed w path names" "filter dir_entry names = map strftime_ts ts"
    and "list_all printable_tm ts" "ts \<noteq> []" "mktime_mono w ts"
  shows "\<exists>nd'. FindFirstDir nd path w = (Ret (0, nd'), w) \<and> nd_count nd' = int (length ts) \<and>
    cstr_of (nd_first nd') = Some (strftime_ts (Min (set ts))) \<and>
    cstr_of (nd_last nd') = Some (strftime_ts (Max (set ts)))"
  by (rule FindFirstDir_timestamps [OF assms])

theorem FindFirstDir_oldest_witness:
  "\<forall>nd. \<exists>nd'. FindFirstDir nd ''g'' (plain_world\<lparr>fs := [([''g''], Dir), ([''g'', ''20230102-083000''], Dir),
      ([''g'', ''20221231-235959''], Dir)]\<rparr>) = (Ret (0, nd'), plain_world\<lparr>fs := [([''g''], Dir),
      ([''g'', ''20230102-083000''], Dir), ([''g'', ''20221231-235959''], Dir)]\<rparr>) \<and>
    nd_count nd' = 2 \<and> cstr_of (nd_first nd') = Some ''20221231-235959''"
proof
  fix nd
  let ?w = "plain_world\<lparr>fs := [([''g''], Dir), ([''g'', ''20230102-083000''], Dir),
      ([''g'', ''20221231-235959''], Dir)]\<rparr>"
  let ?a = "Tm 123 0 2 8 30 0" and ?b = "Tm 122 11 31 23 59 59"
  have names: "strftime_ts ?a = ''20230102-083000''" "strftime_ts ?b = ''20221231-235959''"
    by (simp_all add: strftime_ts_def pad2_def pad4_def digit_char_table)
  have pr: "printable_tm ?a" "printable_tm ?b"
    by (simp_all add: printable_tm_def valid_tm_def days_in_month_def days_before_month_def month_starts_def
        leap_def nth_Cons')
  have ls: "?b < ?a" by (simp add: less_tm_def tm_key_def)
  have "listed ?w ''g'' [''20230102-083000'', ''20221231-235959'']"
    by (simp add: listed_def plain_world_def node_at_def denied_def children_def pcomps_def)
  moreover have "filter dir_entry [''20230102-083000'', ''20221231-235959''] = map strftime_ts [?a, ?b]"
    using dir_entry_strftime [OF pr(1)] dir_entry_strftime [OF pr(2)] by (simp add: names)
  moreover have "mktime_mono ?w [?a, ?b]"
    using ls mktime_fixed_mono [of ?b ?a] pr
    by (auto simp: mktime_mono_def plain_world_def printable_tm_def dest: less_trans)
  moreover have "Min (set [?a, ?b]) = ?b" using ls by (simp add: min_def)
  ultimately show "\<exists>nd'. FindFirstDir nd ''g'' ?w = (Ret (0, nd'), ?w) \<and>
    nd_count nd' = 2 \<and> cstr_of (nd_first nd') = Some ''20221231-235959''"
    using FindFirstDir_oldest [of ?w "''g''" "[''20230102-083000'', ''20221231-235959'']" "[?a, ?b]" nd] pr
    by (auto simp: names)
qed

end
