(* ===== verification/Server_Cmds.thy ===== *)
theory Server_Cmds
  imports Server_Find Compression
begin

text \<open>
  The commands of \<open>app/server/server_lib.c\<close> and the error handler of \<open>server.c\<close>. The
  search of the next file is \<open>Server_Find\<close>; here are the process check, start and stop of
  the logger, the transmission of files and the removal of files and recordings. A
  command is scanned into arrays of the sizes of the source.
\<close>

section \<open>Error handler\<close>

definition server_error_handler :: "string \<Rightarrow> ('x, unit) os" where
  "server_error_handler message =
     mseq (os_print (ln ''fatal error: %s'') [FStr message]) (mstop (Exit 1))"

section \<open>The logger process\<close>

definition ProcNumber :: "string \<Rightarrow> ('x, int) os" where
  "ProcNumber name =
     mbind (os_popen (snprintf (BUFFER_DIM - 9) ''pgrep -l %s'' [FStr name])) (\<lambda>res. case res of
       None \<Rightarrow> mret (- 1)
     | Some text \<Rightarrow> mret (int (length (fgets_pieces (BUFFER_DIM - 1) text))))"

definition Status :: "int \<Rightarrow> string \<Rightarrow> ('x, int) os" where
  "Status csk logger_name =
     mbind (ProcNumber logger_name) (\<lambda>n.
     if n = 0 then mseq (tcp_send server_error_handler csk (ln ''STATUS: 0'')) (mret 0)
     else if n > 0 then mseq (tcp_send server_error_handler csk (ln ''STATUS: 1'')) (mret 0)
     else mseq (tcp_send server_error_handler csk (ln ''ERROR FINDING ACTIVE PROCESSES'')) (mret (- 1)))"

definition Start :: "int \<Rightarrow> string \<Rightarrow> string \<Rightarrow> string \<Rightarrow> ('x, int) os" where
  "Start csk cmd start_name logger_name =
     mbind (mget (uninit_array TIMESTAMP_LEN ''Start.timestamp'')) (\<lambda>uninit.
     mbind (scan_word TIMESTAMP_LEN uninit (sscanf cmd ''%*s %s'') 0) (\<lambda>ts.
     mbind (read_cstr ts) (\<lambda>timestamp.
     let voxl_command = snprintf 128 ''%s %s'' [FStr start_name, FStr timestamp] in
     mbind (ProcNumber logger_name) (\<lambda>n.
     if n = 0 then
       mseq (os_system voxl_command)
       (mseq (os_print (ln ''Starting the logging system'') [])
       (mseq (tcp_send server_error_handler csk (ln ''Logging system STARTED'')) (mret 0)))
     else if n > 0 then
       mseq (os_print (ln ''Logging system is already active'') [])
       (mseq (tcp_send server_error_handler csk (ln ''The logging system is already running'')) (mret 0))
     else
       mseq (os_print (ln ''Error finding active processes'') [])
       (mseq (tcp_send server_error_handler csk (ln ''ERROR FINDING ACTIVE PROCESSES'')) (mret (- 1)))))))"

definition Stop :: "int \<Rightarrow> string \<Rightarrow> string \<Rightarrow> ('x, int) os" where
  "Stop csk stop_name logger_name =
     mbind (ProcNumber logger_name) (\<lambda>n.
     if n > 0 then
       mseq (os_system stop_name)
       (mseq (os_print (ln ''Stopping the logging system'') [])
       (mseq (tcp_send server_error_handler csk (ln ''Logging system STOPPED'')) (mret 0)))
     else if n = 0 then
       mseq (os_print (ln ''Logging system is NOT active'') [])
       (mseq (tcp_send server_error_handler csk (ln ''The logging system is NOT running'')) (mret 0))
     else
       mseq (os_print (ln ''Error finding active processes'') [])
       (mseq (tcp_send server_error_handler csk (ln ''ERROR FINDING ACTIVE PROCESSES'')) (mret (- 1))))"

section \<open>Sending files\<close>

text \<open>The length goes to \<open>tcp_binary_send\<close> as an \<open>int\<close>.\<close>

definition CompressAndSend :: "zlib \<Rightarrow> int \<Rightarrow> string \<Rightarrow> string \<Rightarrow> ('x, int) os" where
  "CompressAndSend z csk file_path buf =
     mbind (compressor z file_path 0) (\<lambda>(r, source_len, comp_buffer, comp_len).
     if r < 0 then
       mseq (os_free (comp_buffer \<noteq> None))
       (mseq (tcp_send server_error_handler csk (ln ''ERROR compressing buffer'')) (mret (- 1)))
     else
       mseq (tcp_send server_error_handler csk
         (snprintf (BUFSIZ + 1) (ln ''%s %ld %ld'') [FStr buf, FInt source_len, FInt comp_len]))
       (mseq (tcp_binary_send server_error_handler csk (the comp_buffer) (wrap_int 32 comp_len))
       (mseq (os_free (comp_buffer \<noteq> None))
       (mseq (tcp_send server_error_handler csk (ln ''END'')) (mret 0)))))"

text \<open>\<open>struct tr_info tr\<close> before it is set.\<close>

definition uninit_tr :: "'x world_scheme \<Rightarrow> tr_info" where
  "uninit_tr w =
     \<lparr>tr_f = \<lparr>nf_first = junk_int w ''SendNext.tr.f.first'', nf_last = junk_int w ''SendNext.tr.f.last'',
        nf_count = junk_int w ''SendNext.tr.f.count''\<rparr>,
      tr_d = \<lparr>nd_first = uninit_array TIMESTAMP_LEN ''SendNext.tr.d.first'' w,
        nd_last = uninit_array TIMESTAMP_LEN ''SendNext.tr.d.last'' w,
        nd_count = junk_int w ''SendNext.tr.d.count'', nd_logger_n = junk_int w ''SendNext.tr.d.logger_n''\<rparr>\<rparr>"

text \<open>The second half of \<open>SendNext\<close>: what is sent for the result \<open>tr\<close> of the search.\<close>

definition send_decision :: "zlib \<Rightarrow> int \<Rightarrow> string \<Rightarrow> int \<Rightarrow> tr_info \<Rightarrow> ('x, int) os" where
  "send_decision z csk dir_name logger_state tr =
     (let f = tr_f tr; d = tr_d tr;
          min_count = (if logger_state \<noteq> 0 \<and> nd_count d = 1 then 2 else 1)
      in if nd_count d = 0 then
           mseq (os_print (ln ''No transmission folders found, sending NO_TR'') [])
           (mseq (tcp_send server_error_handler csk (ln ''NO_TR'')) (mret 0))
         else if nf_count f \<ge> min_count then
           mbind (read_cstr (nd_first d)) (\<lambda>first.
           let buf = snprintf (BUFSIZ + 1) ''SENDING %s %d %d %d %d''
                 [FStr first, FInt (nd_logger_n d), FInt (nf_first f), FInt (nf_last f), FInt (nf_count f)];
               file_name = snprintf MAX_PATH_LEN ''%s/%s/voxl-logger/log%04d/run/mpa/tof/data_%d.pcd''
                 [FStr dir_name, FStr first, FInt (nd_logger_n d), FInt (nf_first f)]
           in mseq (os_print (ln ''Sending %s'') [FStr file_name])
              (mbind (CompressAndSend z csk file_name buf) (\<lambda>ret.
               if ret < 0 then mseq (os_eprint (ln ''Error compressing buffer'') []) (mret (- 1))
               else mseq (os_print (ln ''Finished sending %s'') [FStr file_name]) (mret 0))))
         else if logger_state \<noteq> 0 \<and> nd_count d = 1 then
           mseq (os_print (ln ''Sending WAIT'') [])
           (mseq (tcp_send server_error_handler csk (ln ''WAIT'')) (mret 0))
         else
           mseq (os_print (ln ''Sending EMPTY'') [])
           (mbind (read_cstr (nd_first d)) (\<lambda>first.
            mseq (tcp_send server_error_handler csk
              (snprintf (BUFSIZ + 1) (ln ''EMPTY %s %d'') [FStr first, FInt (nd_logger_n d)]))
            (mret 0))))"

definition SendNext :: "zlib \<Rightarrow> int \<Rightarrow> string \<Rightarrow> string \<Rightarrow> ('x, int) os" where
  "SendNext z csk logger_name dir_name =
     mbind (mget uninit_tr) (\<lambda>tr0.
     mbind (FindNextTr tr0 dir_name) (\<lambda>(ret, tr).
     if ret = - 1 then
       mseq (os_eprint (ln ''Error finding the next dir'') [])
       (mseq (tcp_send server_error_handler csk (ln ''ERROR FINDING NEXT DIR'')) (mret (- 1)))
     else if ret = - 2 then
       mseq (os_eprint (ln ''Error finding the next file'') [])
       (mseq (tcp_send server_error_handler csk (ln ''ERROR FINDING NEXT FILE'')) (mret (- 1)))
     else
       mbind (ProcNumber logger_name) (\<lambda>logger_state.
       if logger_state < 0 then
         mseq (os_eprint (ln ''Error finding active processes'') [])
         (mseq (tcp_send server_error_handler csk (ln ''ERROR FINDING ACTIVE PROCESSES'')) (mret (- 1)))
       else send_decision z csk dir_name logger_state tr)))"

definition DATA_DIR :: string where "DATA_DIR = ''../../data_generation/generated_data''"

definition SendFile :: "zlib \<Rightarrow> int \<Rightarrow> string \<Rightarrow> ('x, int) os" where
  "SendFile z csk cmd =
     mbind (mget (uninit_array (MAX_PATH_LEN div 2) ''SendFile.rel_path'')) (\<lambda>uninit.
     mbind (scan_word (MAX_PATH_LEN div 2) uninit (sscanf cmd ''%*s %s'') 0) (\<lambda>rp.
     mbind (read_cstr rp) (\<lambda>rel_path.
     let file_path = snprintf MAX_PATH_LEN ''%s/%s'' [FStr DATA_DIR, FStr rel_path];
         buf = snprintf (BUFSIZ + 1) ''SENDING REQUESTED %s'' [FStr file_path]
     in mbind (CompressAndSend z csk file_path buf) (\<lambda>ret.
        if ret < 0 then mseq (os_eprint (ln ''ERROR compressing buffer'') []) (mret (- 1))
        else mseq (os_print (ln ''Finished sending %s'') [FStr file_path]) (mret 0)))))"

section \<open>Removing\<close>

definition RemoveFile :: "int \<Rightarrow> string \<Rightarrow> string \<Rightarrow> ('x, int) os" where
  "RemoveFile csk cmd dir_name =
     mbind (mget (\<lambda>w. (uninit_array TIMESTAMP_LEN ''RemoveFile.timestamp'' w, junk_int w ''RemoveFile.logger_n'',
       junk_int w ''RemoveFile.file_number''))) (\<lambda>(uninit, ln0, fn0).
     let vs = sscanf cmd ''%*s %s %d %d'' in
     mbind (scan_word TIMESTAMP_LEN uninit vs 0) (\<lambda>ts.
     let logger_n = sint_at vs 1 ln0; file_number = sint_at vs 2 fn0 in
     mbind (read_cstr ts) (\<lambda>timestamp.
     let file_name = snprintf MAX_PATH_LEN ''%s/%s/voxl-logger/log%04d/run/mpa/tof/data_%d.pcd''
           [FStr dir_name, FStr timestamp, FInt logger_n, FInt file_number] in
     mseq (os_print (ln ''Removing %s'') [FStr file_name])
     (mbind (os_remove file_name) (\<lambda>r.
      if r \<noteq> 0 then
        mseq (tcp_send server_error_handler csk (ln ''ERROR DELETING FILE'')) (mret (- 1))
      else
        mbind (os_sprintf (BUFSIZ + 1) (ln ''FILE %d, %s REMOVED'') [FInt file_number, FStr timestamp]) (\<lambda>buf.
        mseq (tcp_send server_error_handler csk buf) (mret 0)))))))"

definition unlink_cb :: "path \<Rightarrow> ('x, int) os" where
  "unlink_cb fpath =
     mbind (os_remove_at fpath) (\<lambda>rv.
     mseq (if rv \<noteq> 0 then os_perror (path_text fpath) else mret ()) (mret rv))"

definition rmrf :: "string \<Rightarrow> ('x, int) os" where
  "rmrf path = os_nftw_depth path unlink_cb"

definition RemoveDir :: "int \<Rightarrow> string \<Rightarrow> string \<Rightarrow> ('x, int) os" where
  "RemoveDir csk cmd dir_name =
     mbind (mget (uninit_array TIMESTAMP_LEN ''RemoveDir.timestamp'')) (\<lambda>uninit.
     mbind (scan_word TIMESTAMP_LEN uninit (sscanf cmd ''%*s %s'') 0) (\<lambda>ts.
     mbind (read_cstr ts) (\<lambda>timestamp.
     let path = snprintf MAX_PATH_LEN ''%s/%s'' [FStr dir_name, FStr timestamp] in
     mbind (rmrf path) (\<lambda>r.
     if r < 0 then
       mseq (tcp_send server_error_handler csk
         (snprintf (BUFSIZ + 1) (ln ''ERROR REMOVING DIR %s'') [FStr timestamp])) (mret (- 1))
     else
       mseq (tcp_send server_error_handler csk
         (snprintf (BUFSIZ + 1) (ln ''DIR %s REMOVED'') [FStr timestamp])) (mret 0)))))"

section \<open>Request lines\<close>

lemma sformat_word: "sformat ''%*s %s'' = [SWord False, SSpace, SWord True]"
  by (simp add: sformat_simps)

lemma sformat_remove: "sformat ''%*s %s %d %d'' =
    [SWord False, SSpace, SWord True, SSpace, SInt 32, SSpace, SInt 32]"
  by (simp add: sformat_simps)

lemma sscanf_word:
  "word_ok c \<Longrightarrow> word_ok t \<Longrightarrow> sscanf (c @ CHR '' '' # t) ''%*s %s'' = [SvStr t]"
  by (simp add: sscanf_def sformat_word scan_word_simps del: scan.simps(2-6))

lemma sscanf_remove:
  assumes "word_ok c" "word_ok t" "int32 l" "int32 n"
  shows "sscanf (c @ CHR '' '' # t @ CHR '' '' # fmt_d l @ CHR '' '' # fmt_d n) ''%*s %s %d %d'' =
    [SvStr t, SvInt l, SvInt n]"
  using assms
  by (simp add: sscanf_def sformat_remove scan_word_simps fmt_d_word wrap_int_32 del: scan.simps(2-6))

end
