(* ===== verification/Rx_Frame.thy ===== *)
theory Rx_Frame
  imports Tcp_Socket
begin

text \<open>
  Operations that do not look at the input still to come on a connection: they commute with
  any change of it. With these rules the commands of the server are shown to be independent
  of how far the client has already sent ahead.
\<close>

definition set_rx :: "int \<Rightarrow> rx_event list \<Rightarrow> 'x world_scheme \<Rightarrow> 'x world_scheme" where
  "set_rx sk es = upd_sock sk (s_rx_update (\<lambda>_. es))"

lemma set_rx_simps [simp]:
  "set_rx sk es (set_rx sk es2 w) = set_rx sk es w"
  "set_rx sk (s_rx (socks w sk)) w = w"
  "s_rx (socks (set_rx sk es w) sk) = es"
  "s_open (socks (set_rx sk es w) k) = s_open (socks w k)"
  "s_wx (socks (set_rx sk es w) k) = s_wx (socks w k)"
  "s_tx (socks (set_rx sk es w) k) = s_tx (socks w k)"
  "s_nonblk (socks (set_rx sk es w) k) = s_nonblk (socks w k)"
  by (simp_all add: set_rx_def upd_sock_def)

lemma set_rx_fields [simp]:
  "signed_char (set_rx sk es w) = signed_char w" "junk_int (set_rx sk es w) = junk_int w"
  "junk_str (set_rx sk es w) = junk_str w" "fs (set_rx sk es w) = fs w"
  "deny (set_rx sk es w) = deny w" "malloc_max (set_rx sk es w) = malloc_max w"
  "blocks (set_rx sk es w) = blocks w" "streams (set_rx sk es w) = streams w"
  "errno_val (set_rx sk es w) = errno_val w" "out (set_rx sk es w) = out w"
  "err (set_rx sk es w) = err w" "procs (set_rx sk es w) = procs w"
  "pipe_cmd (set_rx sk es w) = pipe_cmd w" "shell_cmd (set_rx sk es w) = shell_cmd w"
  "mk_time (set_rx sk es w) = mk_time w" "sigpipe_ign (set_rx sk es w) = sigpipe_ign w"
  "uninit_array n name (set_rx sk es w) = uninit_array n name w"
  by (simp_all add: set_rx_def upd_sock_def uninit_array_def)

lemma set_rx_updates:
  "(set_rx sk es w)\<lparr>out := s\<rparr> = set_rx sk es (w\<lparr>out := s\<rparr>)"
  "(set_rx sk es w)\<lparr>err := s\<rparr> = set_rx sk es (w\<lparr>err := s\<rparr>)"
  "(set_rx sk es w)\<lparr>errno_val := e\<rparr> = set_rx sk es (w\<lparr>errno_val := e\<rparr>)"
  "(set_rx sk es w)\<lparr>blocks := n\<rparr> = set_rx sk es (w\<lparr>blocks := n\<rparr>)"
  "(set_rx sk es w)\<lparr>streams := n\<rparr> = set_rx sk es (w\<lparr>streams := n\<rparr>)"
  "(set_rx sk es w)\<lparr>fs := st\<rparr> = set_rx sk es (w\<lparr>fs := st\<rparr>)"
  "(set_rx sk es w)\<lparr>procs := ps\<rparr> = set_rx sk es (w\<lparr>procs := ps\<rparr>)"
  by (simp_all add: set_rx_def upd_sock_def)

lemma commutes_os_print [frame_intros]: "commutes (set_rx sk es) (os_print f as)"
  by (simp add: os_print_def commutes_mmod set_rx_updates)

lemma commutes_os_eprint [frame_intros]: "commutes (set_rx sk es) (os_eprint f as)"
  by (simp add: os_eprint_def commutes_mmod set_rx_updates)

lemma commutes_os_perror [frame_intros]: "commutes (set_rx sk es) (os_perror s)"
  unfolding os_perror_def by (intro frame_intros) simp

lemma commutes_os_malloc [frame_intros]: "commutes (set_rx sk es) (os_malloc n)"
  by (simp add: commutes_def os_malloc_def set_rx_updates)

lemma commutes_os_free [frame_intros]: "commutes (set_rx sk es) (os_free b)"
  by (simp add: os_free_def commutes_mmod set_rx_updates)

lemma commutes_fail_with [frame_intros]: "commutes (set_rx sk es) (fail_with e r)"
  by (simp add: commutes_def fail_with_run set_rx_updates)

lemma commutes_os_fopen_read [frame_intros]: "commutes (set_rx sk es) (os_fopen_read p)"
  by (auto simp: commutes_def os_fopen_read_def denied_def fail_with_run Let_def set_rx_updates
      split: option.split node.split)

lemma commutes_os_fclose [frame_intros]: "commutes (set_rx sk es) os_fclose"
  by (simp add: os_fclose_def commutes_mmod set_rx_updates)

lemma commutes_os_opendir [frame_intros]: "commutes (set_rx sk es) (os_opendir p)"
  by (auto simp: commutes_def os_opendir_def denied_def fail_with_run Let_def set_rx_updates
      split: option.split node.split)

lemma commutes_os_remove_at [frame_intros]: "commutes (set_rx sk es) (os_remove_at p)"
  by (auto simp: commutes_def os_remove_at_def denied_def fail_with_run set_rx_updates)

lemma commutes_os_remove [frame_intros]: "commutes (set_rx sk es) (os_remove p)"
  by (simp add: os_remove_def commutes_os_remove_at)

lemma commutes_ftw_loop: "(\<And>p. commutes g (fn p)) \<Longrightarrow> commutes g (ftw_loop fn ps)"
  by (induction ps) (auto intro!: frame_intros)

lemma commutes_ftw_walk:
  assumes "\<And>p. commutes (set_rx sk es) (fn p)"
  shows "commutes (set_rx sk es) (ftw_walk n fn p)"
  by (induction n arbitrary: p)
    (auto intro!: frame_intros commutes_ftw_loop assms simp: ftw_entries_def denied_def)

lemma commutes_os_nftw_depth [frame_intros]:
  assumes "\<And>p. commutes (set_rx sk es) (fn p)"
  shows "commutes (set_rx sk es) (os_nftw_depth path fn)"
  using commutes_ftw_walk [OF assms]
  by (auto simp: commutes_def os_nftw_depth_def fail_with_run Let_def set_rx_updates simp del: ftw_walk.simps)

lemma commutes_os_popen [frame_intros]: "commutes (set_rx sk es) (os_popen c)"
  by (simp add: os_popen_def commutes_mget)

lemma commutes_os_system [frame_intros]: "commutes (set_rx sk es) (os_system c)"
  unfolding os_system_def by (rule commutes_mmod) (simp add: set_rx_def upd_sock_def)

lemma set_rx_upd_sock:
  "(\<And>s x. f (s\<lparr>s_rx := x\<rparr>) = (f s)\<lparr>s_rx := x\<rparr>) \<Longrightarrow> upd_sock k f (set_rx sk es w) = set_rx sk es (upd_sock k f w)"
  by (cases "k = sk") (auto simp: set_rx_def upd_sock_def fun_upd_twist)

lemma set_rx_write:
  "upd_sock k (s_tx_update f) (set_rx sk es w) = set_rx sk es (upd_sock k (s_tx_update f) w)"
  "upd_sock k (s_wx_update g) (set_rx sk es w) = set_rx sk es (upd_sock k (s_wx_update g) w)"
  by (simp_all add: set_rx_upd_sock)

lemma commutes_os_write [frame_intros]: "commutes (set_rx sk es) (os_write k s)"
proof (rule commutesI)
  fix w
  show "os_write k s (set_rx sk es w) = (outcome_of (os_write k s) w, set_rx sk es (world_after (os_write k s) w))"
    by (cases "s_wx (socks w k)"; cases "hd (s_wx (socks w k))")
      (simp_all add: os_write_def fail_with_run Let_def set_rx_updates set_rx_write)
qed

lemma commutes_tcp_send [frame_intros]:
  "(\<And>m. commutes (set_rx sk es) (eh m)) \<Longrightarrow> commutes (set_rx sk es) (tcp_send eh k s)"
  unfolding tcp_send_def by (intro frame_intros) auto

lemma commutes_tcp_binary_send [frame_intros]:
  "(\<And>m. commutes (set_rx sk es) (eh m)) \<Longrightarrow> commutes (set_rx sk es) (tcp_binary_send eh k s n)"
  unfolding tcp_binary_send_def by (intro frame_intros) auto

end
