(* ===== verification/Server_Frames.thy ===== *)
theory Server_Frames
  imports Server_Cmds Rx_Frame
begin

text \<open>
  What the commands of the server leave alone. Each command commutes with a change of the
  input still to come. The interface \<open>server_frame\<close> is a part of the world that the reading
  commands do not write; \<open>acting_frame\<close> extends it to the commands that run a program or remove
  something. They are interpreted on the files, on one path of them, and on the state of a
  connection.
\<close>

section \<open>The commands do not look at the input still to come\<close>

lemma commutes_read_cstr [frame_intros]: "commutes g (read_cstr a)"
  by (auto simp: read_cstr_def split: option.split)

lemma commutes_scan_word [frame_intros]: "commutes g (scan_word cap old vs k)"
  by (auto simp: scan_word_def)

lemma commutes_os_sprintf [frame_intros]: "commutes g (os_sprintf cap f as)"
  by (auto simp: os_sprintf_def)

lemma commutes_server_error_handler [frame_intros]: "commutes (set_rx sk es) (server_error_handler m)"
  unfolding server_error_handler_def by (intro frame_intros)

lemma commutes_ProcNumber [frame_intros]: "commutes (set_rx sk es) (ProcNumber name)"
  unfolding ProcNumber_def by (intro frame_intros)

lemma commutes_Status [frame_intros]: "commutes (set_rx sk es) (Status k name)"
  unfolding Status_def by (intro frame_intros)

lemma commutes_Start [frame_intros]: "commutes (set_rx sk es) (Start k c s l)"
  unfolding Start_def Let_def by (intro frame_intros) simp

lemma commutes_Stop [frame_intros]: "commutes (set_rx sk es) (Stop k s l)"
  unfolding Stop_def by (intro frame_intros)

lemma commutes_FindNextFile [frame_intros]: "commutes (set_rx sk es) (FindNextFile f p)"
  unfolding FindNextFile_def by (intro frame_intros) simp

lemma commutes_FindFirstDir [frame_intros]: "commutes (set_rx sk es) (FindFirstDir nd p)"
  unfolding FindFirstDir_def by (intro frame_intros) simp

lemma commutes_DirExists [frame_intros]: "commutes (set_rx sk es) (DirExists p)"
  unfolding DirExists_def by (intro frame_intros) simp

lemma commutes_FindLidarDataInfo [frame_intros]: "commutes (set_rx sk es) (FindLidarDataInfo nd p)"
  unfolding FindLidarDataInfo_def by (intro frame_intros)

lemma commutes_FindNextTr [frame_intros]: "commutes (set_rx sk es) (FindNextTr tr p)"
  unfolding FindNextTr_def Let_def by (intro frame_intros) simp

lemma commutes_copy_file_in_buffer [frame_intros]: "commutes (set_rx sk es) (copy_file_in_buffer p)"
  unfolding copy_file_in_buffer_def by (intro frame_intros) (simp_all add: denied_def os_ftell_end_def fread_fails_def split: option.split node.split)

lemma commutes_compressor [frame_intros]: "commutes (set_rx sk es) (compressor z p n)"
  unfolding compressor_def Let_def by (intro frame_intros)

lemma commutes_CompressAndSend [frame_intros]: "commutes (set_rx sk es) (CompressAndSend z k p s)"
  unfolding CompressAndSend_def by (intro frame_intros)

lemma commutes_send_decision [frame_intros]: "commutes (set_rx sk es) (send_decision z k d n tr)"
  unfolding send_decision_def Let_def by (intro frame_intros)

lemma commutes_SendNext [frame_intros]: "commutes (set_rx sk es) (SendNext z k l d)"
  unfolding SendNext_def by (intro frame_intros) (simp add: uninit_tr_def)

lemma commutes_RemoveFile [frame_intros]: "commutes (set_rx sk es) (RemoveFile k c d)"
  unfolding RemoveFile_def Let_def by (intro frame_intros) simp

lemma commutes_unlink_cb [frame_intros]: "commutes (set_rx sk es) (unlink_cb p)"
  unfolding unlink_cb_def by (intro frame_intros)

lemma commutes_rmrf [frame_intros]: "commutes (set_rx sk es) (rmrf p)"
  unfolding rmrf_def by (intro frame_intros)

lemma commutes_RemoveDir [frame_intros]: "commutes (set_rx sk es) (RemoveDir k c d)"
  unfolding RemoveDir_def Let_def by (intro frame_intros) simp

lemma commutes_SendFile [frame_intros]: "commutes (set_rx sk es) (SendFile z k c)"
  unfolding SendFile_def Let_def by (intro frame_intros) simp

section \<open>Parts of the world the commands do not write\<close>

locale server_frame =
  fixes f :: "'x world_scheme \<Rightarrow> 'c"
  assumes f_out: "f (w\<lparr>out := s\<rparr>) = f w"
    and f_err: "f (w\<lparr>err := s\<rparr>) = f w"
    and f_errno: "f (w\<lparr>errno_val := e\<rparr>) = f w"
    and f_blocks: "f (w\<lparr>blocks := n\<rparr>) = f w"
    and f_streams: "f (w\<lparr>streams := n\<rparr>) = f w"
    and f_write: "keeps f (os_write k t)"
begin

lemmas control =
  keeps_mret keeps_mstop keeps_mget keeps_mbind keeps_mseq keeps_if keeps_option keeps_prod

lemma prims:
  "keeps f (os_print t as)" "keeps f (os_eprint t as)" "keeps f (os_malloc n)" "keeps f (os_free b)"
  "keeps f (os_fopen_read p)" "keeps f os_fclose" "keeps f (os_opendir p)" "keeps f (os_popen c)"
  "keeps f (os_perror t)" "keeps f (read_cstr a)" "keeps f (os_sprintf m t as)"
  "keeps f (scan_word m t vs j)" "keeps f (copy_file_in_buffer p)"
  by (auto simp: os_perror_def read_cstr_def os_sprintf_def scan_word_def f_out f_err f_errno f_blocks
      f_streams intro!: frame_intros split: option.split)

lemma send: "keeps f (tcp_send server_error_handler k s)" "keeps f (tcp_binary_send server_error_handler k s n)"
  unfolding tcp_send_def tcp_binary_send_def server_error_handler_def
  by (intro control prims f_write)+

lemma proc: "keeps f (ProcNumber name)"
  unfolding ProcNumber_def by (intro control prims)

lemma search: "keeps f (FindNextFile g p)" "keeps f (FindFirstDir nd p)" "keeps f (DirExists p)"
  unfolding FindNextFile_def FindFirstDir_def DirExists_def by (intro control prims)+

lemma info: "keeps f (FindLidarDataInfo nd p)"
  unfolding FindLidarDataInfo_def by (intro control prims search)

lemma next_tr: "keeps f (FindNextTr tr p)"
  unfolding FindNextTr_def Let_def by (intro control prims search info)

lemma compress: "keeps f (compressor z p n)"
  unfolding compressor_def Let_def by (intro control prims)

lemma compress_send: "keeps f (CompressAndSend z k p s)"
  unfolding CompressAndSend_def by (intro control prims send compress)

lemma commands:
  "keeps f (Status k l)" "keeps f (SendNext z k l d)" "keeps f (SendFile z k c)"
  unfolding Status_def SendNext_def send_decision_def SendFile_def Let_def
  by (intro control prims send proc next_tr compress_send)+

text \<open>An operation that calls another only on paths that are safe to remove.\<close>

lemma walk:
  assumes "\<And>q. prefix p q \<Longrightarrow> keeps f (fn q)"
  shows "keeps f (ftw_walk n fn p)"
  using assms
proof (induction n arbitrary: p)
  case (Suc n)
  have loop: "keeps f (ftw_loop (ftw_walk n fn) ps)" if "\<And>q. q \<in> set ps \<Longrightarrow> prefix p q" for ps
    using that
  proof (induction ps)
    case (Cons q ps)
    then have "keeps f (ftw_walk n fn q)" by (intro Suc.IH Suc.prems) (auto intro: prefix_order.trans)
    with Cons show ?case by (auto intro!: control)
  qed (simp add: control)
  show ?case using Suc.prems [of p] by (auto intro!: control loop)
qed (simp add: control)

lemma nftw:
  assumes "\<And>q. prefix (pcomps path) q \<Longrightarrow> keeps f (fn q)"
  shows "keeps f (os_nftw_depth path fn)"
  using walk [OF assms] by (auto simp: os_nftw_depth_def keeps_def fail_with_run Let_def f_errno simp del: ftw_walk.simps)

lemma unlink_if: "keeps f (os_remove_at q) \<Longrightarrow> keeps f (unlink_cb q)"
  unfolding unlink_cb_def by (intro control prims)

lemma rmrf_if: "(\<And>q. prefix (pcomps path) q \<Longrightarrow> keeps f (os_remove_at q)) \<Longrightarrow> keeps f (rmrf path)"
  unfolding rmrf_def by (rule nftw) (rule unlink_if)

lemmas frame = control prims send proc commands

end

locale acting_frame = server_frame f for f :: "'x world_scheme \<Rightarrow> 'c" +
  assumes f_fs: "f (w\<lparr>fs := st\<rparr>) = f w"
    and f_procs: "f (w\<lparr>procs := ps\<rparr>) = f w"
begin

lemma remove: "keeps f (os_remove_at q)" "keeps f (os_remove p)"
  by (auto simp: f_fs f_errno intro!: frame_intros)

lemma system: "keeps f (os_system c)"
  using f_fs f_procs by (auto simp: os_system_def keeps_def mmod_def)

lemma actions: "keeps f (Start k c s l)" "keeps f (Stop k s l)" "keeps f (RemoveFile k c d)" "keeps f (RemoveDir k c d)"
  unfolding Start_def Stop_def RemoveFile_def RemoveDir_def Let_def
  by (intro control prims send proc system remove rmrf_if)+

lemmas act_frame = frame actions

end

text \<open>The state of a connection that is not input or output, and the file store.\<close>

definition conn :: "int \<Rightarrow> 'x world_scheme \<Rightarrow> bool \<times> bool" where
  "conn sk w = (s_open (socks w sk), signed_char w)"

lemma keeps_conn_os_write: "keeps (conn sk) (os_write k s)"
proof (rule keepsI)
  fix w
  show "conn sk (world_after (os_write k s) w) = conn sk w"
    by (cases "s_wx (socks w k)"; cases "hd (s_wx (socks w k))")
      (simp_all add: os_write_def fail_with_run Let_def conn_def upd_sock_def)
qed

interpretation conn_frame: acting_frame "conn sk" for sk
  by unfold_locales (rule keeps_conn_os_write | simp add: conn_def)+

interpretation fs_frame: server_frame fs
  by unfold_locales (simp_all add: keeps_os_write)

interpretation path_frame: server_frame "\<lambda>w. node_at (fs w) q" for q
  by unfold_locales (simp_all add: keeps_os_write)

interpretation shell_frame: acting_frame shell_fs
  by unfold_locales (simp_all add: keeps_os_write)

text \<open>
  The store stays well formed: after a removal, and after a program run by the shell provided
  that programs keep it so, which is what a file system promises.
\<close>

definition shell_ok :: "'x world_scheme \<Rightarrow> bool" where
  "shell_ok w \<longleftrightarrow> (\<forall>c st. store_wf st \<longrightarrow> store_wf (shell_fs w c st))"

definition os_ok :: "'x world_scheme \<Rightarrow> bool" where
  "os_ok w \<longleftrightarrow> fs_ok w \<and> shell_ok w"

lemma preserves_os_ok: "preserves fs_ok m \<Longrightarrow> keeps shell_fs m \<Longrightarrow> preserves os_ok m"
  by (simp add: preserves_def keeps_def os_ok_def shell_ok_def)

lemma preserves_os_ok_keeps: "keeps fs m \<Longrightarrow> keeps shell_fs m \<Longrightarrow> preserves os_ok m"
  by (intro preserves_os_ok preserves_fs_ok_keeps)

lemma preserves_os_ok_system: "preserves os_ok (os_system c)"
  by (auto simp: preserves_def os_system_def mmod_def os_ok_def fs_ok_def shell_ok_def)

lemma preserves_fs_ok_nftw:
  assumes "\<And>p. preserves fs_ok (fn p)"
  shows "preserves fs_ok (os_nftw_depth path fn)"
proof -
  have loop: "preserves fs_ok (ftw_loop gn ps)" if "\<And>p. preserves fs_ok (gn p)" for gn :: "path \<Rightarrow> ('a, int) os" and ps
    by (induction ps) (auto intro!: preserves_mret preserves_mbind preserves_if that)
  have "preserves fs_ok (ftw_walk n fn p)" for n p
    by (induction n arbitrary: p)
      (auto intro!: preserves_mret preserves_mstop preserves_mget preserves_mbind preserves_if loop assms)
  then show ?thesis by (auto simp: os_nftw_depth_def preserves_def Let_def fail_with_run fs_ok_def simp del: ftw_walk.simps)
qed

lemma preserves_fs_ok_remove: "preserves fs_ok (os_remove p)"
  by (simp add: os_remove_def preserves_fs_ok_remove_at)

lemmas fs_ok_control =
  preserves_mret preserves_mstop preserves_mget preserves_mbind preserves_mseq preserves_if preserves_prod

lemma preserves_fs_ok_unlink: "preserves fs_ok (unlink_cb p)"
  unfolding unlink_cb_def
  by (intro fs_ok_control preserves_fs_ok_remove_at preserves_fs_ok_keeps fs_frame.prims)

lemma preserves_fs_ok_removals: "preserves fs_ok (RemoveFile k c d)" "preserves fs_ok (RemoveDir k c d)"
  unfolding RemoveFile_def RemoveDir_def rmrf_def Let_def
  by (intro fs_ok_control preserves_fs_ok_remove preserves_fs_ok_nftw preserves_fs_ok_unlink
      preserves_fs_ok_keeps [OF fs_frame.prims(1)] preserves_fs_ok_keeps [OF fs_frame.prims(10)]
      preserves_fs_ok_keeps [OF fs_frame.prims(11)] preserves_fs_ok_keeps [OF fs_frame.prims(12)]
      preserves_fs_ok_keeps [OF fs_frame.send(1)])+

lemma preserves_os_ok_actions:
  "preserves os_ok (Start k c s l)" "preserves os_ok (Stop k s l)"
  "preserves os_ok (RemoveFile k c d)" "preserves os_ok (RemoveDir k c d)"
proof -
  note os = preserves_os_ok_keeps [OF fs_frame.prims(1) shell_frame.prims(1)]
    preserves_os_ok_keeps [OF fs_frame.prims(10) shell_frame.prims(10)]
    preserves_os_ok_keeps [OF fs_frame.prims(12) shell_frame.prims(12)]
    preserves_os_ok_keeps [OF fs_frame.send(1) shell_frame.send(1)]
    preserves_os_ok_keeps [OF fs_frame.proc shell_frame.proc]
  show "preserves os_ok (Start k c s l)" "preserves os_ok (Stop k s l)"
    unfolding Start_def Stop_def Let_def by (intro fs_ok_control os preserves_os_ok_system)+
qed (intro preserves_os_ok preserves_fs_ok_removals shell_frame.actions)+

lemmas os_ok_frame = fs_ok_control preserves_os_ok_actions
  preserves_os_ok_keeps [OF fs_frame.prims(1) shell_frame.prims(1)]
  preserves_os_ok_keeps [OF fs_frame.send(1) shell_frame.send(1)]
  preserves_os_ok_keeps [OF fs_frame.commands(1) shell_frame.commands(1)]
  preserves_os_ok_keeps [OF fs_frame.commands(2) shell_frame.commands(2)]
  preserves_os_ok_keeps [OF fs_frame.commands(3) shell_frame.commands(3)]

text \<open>What is removed at one path is not seen at another.\<close>

lemma keeps_remove_elsewhere: "p \<noteq> q \<Longrightarrow> keeps (\<lambda>w. node_at (fs w) q) (os_remove_at p)"
  by (auto simp: keeps_def os_remove_at_def fail_with_run node_at_del)

end
