(* ===== verification/Server_Main.thy ===== *)
theory Server_Main
  imports Server_Frames
begin

text \<open>
  \<open>app/server/server.c\<close>: the dispatch of a command line, the command loop of a connection,
  the handler that forks a child for it, and \<open>main\<close>. The loop of a connection has no bound
  in the source; its model takes the number of turns as fuel and is still running when
  they are used up.
\<close>

section \<open>Definitions\<close>

definition PATH_START :: string where "PATH_START = ''../../data_generation/start.sh''"

definition PATH_STOP :: string where "PATH_STOP = ''../../data_generation/stop.sh''"

definition LOGGER_NAME :: string where "LOGGER_NAME = ''voxl-logger''"

text \<open>One turn of the loop after the line is read: the new value of \<open>active_connection\<close>.\<close>

definition server_command :: "zlib \<Rightarrow> int \<Rightarrow> string \<Rightarrow> ('x, bool) os" where
  "server_command z csk cmd =
     mseq (if strcmp cmd ''STATUS'' \<noteq> 0 then os_print (ln ''TCP receive: %s'') [FStr cmd] else mret ())
     (if strcmp cmd ''STATUS'' = 0 then mseq (Status csk LOGGER_NAME) (mret True)
      else if strncmp cmd ''START'' 5 = 0 then mseq (Start csk cmd PATH_START LOGGER_NAME) (mret True)
      else if strcmp cmd ''STOP'' = 0 then mseq (Stop csk PATH_STOP LOGGER_NAME) (mret True)
      else if strcmp cmd ''SEND_NEXT'' = 0 then mseq (SendNext z csk LOGGER_NAME DATA_DIR) (mret True)
      else if strncmp cmd ''REMOVE_FILE'' 11 = 0 then mseq (RemoveFile csk cmd DATA_DIR) (mret True)
      else if strncmp cmd ''REMOVE_DIR'' 10 = 0 then mseq (RemoveDir csk cmd DATA_DIR) (mret True)
      else if strncmp cmd ''SEND_FILE'' 9 = 0 then mseq (SendFile z csk cmd) (mret True)
      else if strcmp cmd ''CLOSE'' = 0 then mret False
      else
        mseq (tcp_send server_error_handler csk (ln ''Not valid command''))
        (mseq (os_print (ln ''Not valid command (%s)'') [FStr cmd]) (mret True)))"

fun server_loop :: "zlib \<Rightarrow> nat \<Rightarrow> int \<Rightarrow> buffer_tcp \<Rightarrow> string \<Rightarrow> ('x, int) os" where
  "server_loop z 0 csk b cmd = mstop Still_Running"
| "server_loop z (Suc n) csk b cmd =
     mbind (tcp_readline server_error_handler csk b cmd) (\<lambda>(_, b', cmd').
     mbind (read_cstr cmd') (\<lambda>line.
     mbind (server_command z csk line) (\<lambda>active_connection.
     if active_connection then server_loop z n csk b' cmd'
     else mseq (os_print (ln ''Closing child server process...'') []) (mret 0))))"

definition server_handler :: "zlib \<Rightarrow> nat \<Rightarrow> int \<Rightarrow> string \<Rightarrow> int \<Rightarrow> ('x, int) os" where
  "server_handler z n csk ip_addr port =
     mbind (mget (\<lambda>w. (init_buffer_tcp (uninit_array (BUFSIZ + 1) ''server_handler.b.buffer'' w),
       uninit_array (BUFSIZ + 1) ''server_handler.cmd'' w))) (\<lambda>(b, cmd).
     mseq (os_print (ln ''connected to %s: %d'') [FStr ip_addr, FInt port])
     (mbind os_fork (\<lambda>pid.
      if pid = - 1 then
        mseq (os_print (ln ''Unable to create child process'') []) (mstop (Exit 1))
      else if pid \<noteq> 0 then
        mseq (os_print (ln ''Child process created (pid = %X)'') [FInt pid]) (mret 1)
      else server_loop z n csk b cmd)))"

definition server_main :: "zlib \<Rightarrow> nat \<Rightarrow> string list \<Rightarrow> ('x, int) os" where
  "server_main z n argv =
     (if length argv \<noteq> 3 then
        mseq (os_eprint (ln ''args: server_ip_address, tcp_port'') []) (mstop (Exit 1))
      else
        mbind (create_tcp_server server_error_handler (server_handler z n) (argv ! 1) (atoi (argv ! 2))) (\<lambda>r.
        if r < 0 then
          mseq (os_eprint (ln ''Error creating the TCP server'') []) (mstop (Exit 1))
        else mret 0))"

section \<open>Frames of a command\<close>

lemma commutes_server_command: "commutes (set_rx sk es) (server_command z k cmd)"
  unfolding server_command_def by (intro frame_intros)

lemma keeps_conn_server_command: "keeps (conn sk) (server_command z k cmd)"
  unfolding server_command_def by (intro conn_frame.act_frame)

lemma preserves_os_ok_server_command: "preserves os_ok (server_command z k cmd)"
  unfolding server_command_def by (intro os_ok_frame)

lemma keeps_fs_server_command:
  assumes "nul_free cmd" "take 11 cmd \<noteq> ''REMOVE_FILE''" "take 10 cmd \<noteq> ''REMOVE_DIR''" "take 5 cmd \<noteq> ''START''"
    and "cmd \<noteq> ''STOP''"
  shows "keeps fs (server_command z k cmd)"
proof -
  have no: "strncmp cmd ''REMOVE_FILE'' 11 \<noteq> 0" "strncmp cmd ''REMOVE_DIR'' 10 \<noteq> 0" "strncmp cmd ''START'' 5 \<noteq> 0"
    "strcmp cmd ''STOP'' \<noteq> 0"
    using assms by (simp_all add: strncmp_0_iff strcmp_0_iff nul_free_def NUL_def)
  show ?thesis
    unfolding server_command_def if_not_P [OF no(1)] if_not_P [OF no(2)] if_not_P [OF no(3)] if_not_P [OF no(4)]
    by (intro fs_frame.frame)
qed

text \<open>What the command lines of a client do, one after the other, without a connection.\<close>

fun serve_all :: "zlib \<Rightarrow> int \<Rightarrow> string list \<Rightarrow> ('x, int) os" where
  "serve_all z csk [] = mstop Still_Running"
| "serve_all z csk (cmd # cmds) =
     mbind (server_command z csk cmd) (\<lambda>active_connection.
     if active_connection then serve_all z csk cmds
     else mseq (os_print (ln ''Closing child server process...'') []) (mret 0))"

lemma commutes_serve_all: "commutes (set_rx sk es) (serve_all z k cmds)"
  by (induction cmds) (auto intro!: frame_intros commutes_server_command)

text \<open>A line of a session: text that fits the array of the loop.\<close>

definition session_line :: "bool \<Rightarrow> string \<Rightarrow> string \<Rightarrow> bool" where
  "session_line sg cmd l \<longleftrightarrow> list_all (text_char sg) l \<and> length l < length cmd"

lemma server_turn:
  assumes "reader_ok csk b w" "pending csk b w = ln l @ rest" "session_line (signed_char w) cmd l"
  shows "\<exists>b' cmd' es. length cmd' = length cmd \<and>
    (\<forall>n. server_loop z (Suc n) csk b cmd w =
       mbind (server_command z csk l) (\<lambda>active_connection.
         if active_connection then server_loop z n csk b' cmd'
         else mseq (os_print (ln ''Closing child server process...'') []) (mret 0)) (set_rx csk es w)) \<and>
    reader_ok csk b' (set_rx csk es w) \<and> pending csk b' (set_rx csk es w) = rest"
proof -
  have "pending csk b w = l @ nl # rest" using assms(2) by (simp add: ln_def)
  define a where "a = l @ NUL # drop (length l + 1) cmd"
  from tcp_readline_run [OF assms(1) \<open>pending csk b w = l @ nl # rest\<close>, of cmd server_error_handler] assms(3)
  obtain b' w1 where run: "tcp_readline server_error_handler csk b cmd w = (Ret (int (length l), b', a), w1)"
    and c: "cstr_of a = Some l"
    and b': "reader_ok csk b' w1" "pending csk b' w1 = rest" "only_rx csk w w1"
    unfolding a_def session_line_def by blast
  from b'(3) obtain es where w1: "w1 = set_rx csk es w" by (auto simp: only_rx_def set_rx_def)
  have len: "length a = length cmd"
    using assms(3) by (auto simp: session_line_def a_def)
  have "server_loop z (Suc n) csk b cmd w =
       mbind (server_command z csk l) (\<lambda>active_connection.
         if active_connection then server_loop z n csk b' a
         else mseq (os_print (ln ''Closing child server process...'') []) (mret 0)) (set_rx csk es w)" for n
    using run unfolding w1 server_loop.simps by (simp add: mbind_def read_cstr_run [OF c])
  with len b' show ?thesis unfolding w1 by blast
qed

lemma reader_ok_conn:
  "conn sk w = conn sk v \<Longrightarrow> reader_ok sk b (set_rx sk es w) = reader_ok sk b (set_rx sk es v)"
  by (simp add: reader_ok_def conn_def)

lemma pending_set_rx: "pending sk b (set_rx sk es w) = pending sk b (set_rx sk es v)"
  by (simp add: pending_def)

lemma server_session_run:
  assumes "reader_ok csk b w" "pending csk b w = concat (map ln cmds) @ rest"
    and "list_all (session_line (signed_char w) cmd) cmds"
  shows "\<exists>es. server_loop z (length cmds) csk b cmd w =
    (outcome_of (serve_all z csk cmds) w, set_rx csk es (world_after (serve_all z csk cmds) w))"
  using assms
proof (induction cmds arbitrary: b w cmd)
  case Nil
  show ?case by (auto simp: mstop_run intro!: exI [of _ "s_rx (socks w csk)"])
next
  case (Cons l cmds)
  have l: "session_line (signed_char w) cmd l" using Cons.prems(3) by simp
  have pend: "pending csk b w = ln l @ concat (map ln cmds) @ rest" using Cons.prems(2) by simp
  obtain b' cmd' es where len: "length cmd' = length cmd"
    and turn: "\<And>n. server_loop z (Suc n) csk b cmd w =
       mbind (server_command z csk l) (\<lambda>active_connection.
         if active_connection then server_loop z n csk b' cmd'
         else mseq (os_print (ln ''Closing child server process...'') []) (mret 0)) (set_rx csk es w)"
    and b': "reader_ok csk b' (set_rx csk es w)"
      "pending csk b' (set_rx csk es w) = concat (map ln cmds) @ rest"
    using server_turn [OF Cons.prems(1) pend l, of z] by blast
  obtain r w2 where cmd: "server_command z csk l w = (r, w2)" by fastforce
  have cmd': "server_command z csk l (set_rx csk es w) = (r, set_rx csk es w2)"
    using commutesD [OF commutes_server_command cmd] .
  have conn: "conn csk w2 = conn csk w" using keepsD [OF keeps_conn_server_command cmd] .
  show ?case
  proof (cases "r = Ret True")
    case True
    have "list_all (session_line (signed_char (set_rx csk es w2)) cmd') cmds"
      using Cons.prems(3) conn len by (simp add: list_all_iff session_line_def conn_def)
    moreover have "reader_ok csk b' (set_rx csk es w2)" using b'(1) reader_ok_conn [OF conn] by blast
    moreover have "pending csk b' (set_rx csk es w2) = concat (map ln cmds) @ rest"
      using b'(2) pending_set_rx by metis
    ultimately obtain es' where "server_loop z (length cmds) csk b' cmd' (set_rx csk es w2) =
        (outcome_of (serve_all z csk cmds) (set_rx csk es w2),
         set_rx csk es' (world_after (serve_all z csk cmds) (set_rx csk es w2)))"
      using Cons.IH by blast
    moreover have "serve_all z csk cmds (set_rx csk es w2) =
        (outcome_of (serve_all z csk cmds) w2, set_rx csk es (world_after (serve_all z csk cmds) w2))"
      using commutes_serve_all unfolding commutes_def by blast
    ultimately show ?thesis
      using True by (auto simp: turn mbind_def cmd cmd' simp del: server_loop.simps)
  next
    case False
    then show ?thesis
      by (cases r) (auto simp: turn mbind_def cmd cmd' mseq_def os_print_def mmod_def mret_def set_rx_updates
          simp del: server_loop.simps)
  qed
qed

lemma nul_free_literals:
  "nul_free ''STATUS''" "nul_free ''START''" "nul_free ''STOP''" "nul_free ''SEND_NEXT''"
  "nul_free ''REMOVE_FILE''" "nul_free ''REMOVE_DIR''" "nul_free ''SEND_FILE''" "nul_free ''CLOSE''"
  by (simp_all add: nul_free_def NUL_def)

lemmas command_tests = strcmp_0_iff [OF _ nul_free_literals(1)] strcmp_0_iff [OF _ nul_free_literals(3)]
  strcmp_0_iff [OF _ nul_free_literals(4)] strcmp_0_iff [OF _ nul_free_literals(8)]
  strncmp_0_iff [OF _ nul_free_literals(2)] strncmp_0_iff [OF _ nul_free_literals(5)]
  strncmp_0_iff [OF _ nul_free_literals(6)] strncmp_0_iff [OF _ nul_free_literals(7)]

lemma receive_formats:
  "vformat (ln ''TCP receive: %s'') [FStr s] = ln (''TCP receive: '' @ s)"
  "vformat (ln ''Not valid command (%s)'') [FStr s] = ln (''Not valid command ('' @ s @ '')'')"
  by (simp_all add: ln_def format_simps nl_def)

section \<open>The accepting process\<close>

lemma server_handler_parent:
  assumes "forks w = p # ps" "0 < p"
  shows "\<exists>o1. server_handler z n k ip port w = (Ret 1, w\<lparr>forks := ps, out := o1\<rparr>)"
  using assms
  by (auto simp: server_handler_def exec_defs os_print_def os_fork_def)

lemma server_handler_child:
  assumes "forks w = 0 # ps"
  shows "server_handler z n k ip port w = server_loop z n k
    (init_buffer_tcp (uninit_array (BUFSIZ + 1) ''server_handler.b.buffer'' w))
    (uninit_array (BUFSIZ + 1) ''server_handler.cmd'' w)
    (w\<lparr>out := out w @ vformat (ln ''connected to %s: %d'') [FStr ip, FInt port], forks := ps\<rparr>)"
  using assms
  by (simp add: server_handler_def exec_defs os_print_def os_fork_def)

text \<open>A turn of the accepting process: it closes its copy of the connection and goes on.\<close>

lemma accept_turn:
  assumes "accepts w = Some (k, ip, port) # cs" "forks w = p # ps" "0 < p"
  shows "\<exists>o1. accept_loop (Suc m) eh (server_handler z n) w =
    accept_loop m eh (server_handler z n)
      ((upd_sock k (s_open_update (\<lambda>_. False)) w)\<lparr>accepts := cs, forks := ps, out := o1\<rparr>)"
proof -
  let ?w = "upd_sock k (s_open_update (\<lambda>_. True)) (w\<lparr>accepts := cs\<rparr>)"
  have "forks ?w = p # ps" using assms(2) by (simp add: upd_sock_def)
  then obtain o1 where "server_handler z n k ip port ?w = (Ret 1, ?w\<lparr>forks := ps, out := o1\<rparr>)"
    using server_handler_parent [of ?w p ps z n k ip port] assms(3) by blast
  then have "accept_loop (Suc m) eh (server_handler z n) w = accept_loop m eh (server_handler z n)
      (upd_sock k (s_open_update (\<lambda>_. False)) (?w\<lparr>forks := ps, out := o1\<rparr>))"
    using assms(1)
    by (simp add: mbind_def os_accept_def mseq_def close_tcp_connection_def os_close_def mret_def upd_sock_def)
  moreover have "upd_sock k (s_open_update (\<lambda>_. False)) (?w\<lparr>forks := ps, out := o1\<rparr>) =
      (upd_sock k (s_open_update (\<lambda>_. False)) w)\<lparr>accepts := cs, forks := ps, out := o1\<rparr>"
    by (simp add: upd_sock_def)
  ultimately show ?thesis by auto
qed

text \<open>What the accepting process leaves alone, and the connections it has closed.\<close>

definition only_closed :: "int set \<Rightarrow> 'x world_scheme \<Rightarrow> 'x world_scheme \<Rightarrow> bool" where
  "only_closed ks w w' \<longleftrightarrow> fs w' = fs w \<and> procs w' = procs w \<and>
     (\<forall>k. socks w' k = (if k \<in> ks then (socks w k)\<lparr>s_open := False\<rparr> else socks w k))"

lemma accept_parent_run:
  assumes "accepts w = map Some cs" "length cs \<le> length (forks w)"
    and "list_all (\<lambda>p. 0 < p) (forks w)"
  shows "\<exists>w'. accept_loop (Suc (length cs)) eh (server_handler z n) w = (Still_Running, w') \<and>
    only_closed (fst ` set cs) w w'"
  using assms
proof (induction cs arbitrary: w)
  case Nil
  then show ?case by (simp add: mbind_def os_accept_def only_closed_def)
next
  case (Cons c cs)
  obtain k ip port where c: "c = (k, ip, port)" by (cases c) auto
  obtain p ps where f: "forks w = p # ps" using Cons.prems(2) by (cases "forks w") auto
  have p: "0 < p" using Cons.prems(3) f by simp
  have a: "accepts w = Some (k, ip, port) # map Some cs" using Cons.prems(1) c by simp
  obtain o1 where turn: "accept_loop (Suc (length (c # cs))) eh (server_handler z n) w =
      accept_loop (Suc (length cs)) eh (server_handler z n)
        ((upd_sock k (s_open_update (\<lambda>_. False)) w)\<lparr>accepts := map Some cs, forks := ps, out := o1\<rparr>)"
    using accept_turn [OF a f p, of "Suc (length cs)" eh z n] by auto
  let ?w = "(upd_sock k (s_open_update (\<lambda>_. False)) w)\<lparr>accepts := map Some cs, forks := ps, out := o1\<rparr>"
  obtain w' where w': "accept_loop (Suc (length cs)) eh (server_handler z n) ?w = (Still_Running, w')"
    "only_closed (fst ` set cs) ?w w'"
    using Cons.IH [of ?w] Cons.prems f by auto
  then have "only_closed (fst ` set (c # cs)) w w'"
    by (auto simp: only_closed_def c upd_sock_def)
  with turn w'(1) show ?case by auto
qed

section \<open>A client that has gone\<close>

text \<open>A turn at the end of the input, when the answer is written and when the pipe is broken.\<close>

lemma server_closed_line:
  assumes "reader_ok csk b w" "pending csk b w = []" "cmd \<noteq> []"
  shows "\<exists>b' cmd' w'. (\<forall>n. server_loop z (Suc n) csk b cmd w =
      mbind (server_command z csk []) (\<lambda>active. if active then server_loop z n csk b' cmd'
        else mseq (os_print (ln ''Closing child server process...'') []) (mret 0)) w') \<and>
    reader_ok csk b' w' \<and> pending csk b' w' = [] \<and> only_rx csk w w' \<and> cmd' \<noteq> []"
proof -
  have len: "0 + length [] < length cmd" using assms(3) by simp
  define a where "a = NUL # drop 1 cmd"
  obtain b' w1 where run: "tcp_readline server_error_handler csk b cmd w = (Ret (0, b', a), w1)"
    and b': "reader_ok csk b' w1" "pending csk b' w1 = []" "only_rx csk w w1"
    using readline_partial [OF assms(1,2) _ len, of server_error_handler] by (auto simp: tcp_readline_def a_def)
  have c: "cstr_of a = Some []" and a: "a \<noteq> []" by (simp_all add: cstr_of_def a_def)
  have "server_loop z (Suc n) csk b cmd w =
      mbind (server_command z csk []) (\<lambda>active. if active then server_loop z n csk b' a
        else mseq (os_print (ln ''Closing child server process...'') []) (mret 0)) w1" for n
    unfolding server_loop.simps by (simp add: mbind_def run read_cstr_run [OF c])
  with a b' show ?thesis by blast
qed

lemma server_command_empty_full:
  assumes "s_open (socks w csk)" "s_wx (socks w csk) = WrFull # es"
  shows "server_command z csk [] w = (Ret True, (sent csk (ln ''Not valid command'') w)
     \<lparr>out := out w @ ln ''TCP receive: '' @ ln ''Not valid command ()''\<rparr>)"
proof -
  have "nul_free []" by (simp add: nul_free_def)
  then show ?thesis
    using assms
    by (simp add: server_command_def command_tests exec_defs os_print_def tcp_send_def os_write_full receive_formats)
      (simp add: sent_def upd_sock_def)
qed

lemma server_command_empty_broken:
  assumes "s_open (socks w csk)" "s_wx (socks w csk) = WrErr EPIPE # es" "\<not> sigpipe_ign w"
  shows "\<exists>w'. server_command z csk [] w = (Sig_Killed, w') \<and> s_tx (socks w' csk) = s_tx (socks w csk)"
proof -
  have "nul_free []" by (simp add: nul_free_def)
  then show ?thesis
    using assms
    by (simp add: server_command_def command_tests exec_defs os_print_def tcp_send_def os_write_def upd_sock_def
      receive_formats)
qed

lemma server_closed_run:
  assumes "reader_ok csk b w" "pending csk b w = []" "cmd \<noteq> []" "s_open (socks w csk)" "\<not> sigpipe_ign w"
    and "s_wx (socks w csk) = replicate k WrFull @ WrErr EPIPE # es"
  shows "\<exists>w'. server_loop z n csk b cmd w = (if n \<le> k then Still_Running else Sig_Killed, w') \<and>
     s_tx (socks w' csk) = s_tx (socks w csk) @ concat (replicate (min n k) (ln ''Not valid command''))"
  using assms
proof (induction n arbitrary: b w cmd k)
  case 0
  then show ?case by (simp add: mstop_def)
next
  case (Suc n)
  obtain b' cmd' w1 where turn: "server_loop z (Suc n) csk b cmd w =
      mbind (server_command z csk []) (\<lambda>active. if active then server_loop z n csk b' cmd'
        else mseq (os_print (ln ''Closing child server process...'') []) (mret 0)) w1"
    and w1: "reader_ok csk b' w1" "pending csk b' w1 = []" "only_rx csk w w1" "cmd' \<noteq> []"
    using server_closed_line [OF Suc.prems(1-3), of z] by blast
  note f = only_rx_fields(1-3) [OF w1(3), of csk]
  have sig: "\<not> sigpipe_ign w1" using only_rx_keeps [OF w1(3), of sigpipe_ign] Suc.prems(5) by simp
  show ?case
  proof (cases k)
    case 0
    then obtain w' where "server_command z csk [] w1 = (Sig_Killed, w')" "s_tx (socks w' csk) = s_tx (socks w1 csk)"
      using server_command_empty_broken [of w1 csk es z] f Suc.prems(4,6) sig by auto
    with 0 f show ?thesis by (simp only: turn mbind_Sig_Killed) simp
  next
    case (Suc j)
    let ?w = "(sent csk (ln ''Not valid command'') w1)
      \<lparr>out := out w1 @ ln ''TCP receive: '' @ ln ''Not valid command ()''\<rparr>"
    have cmd: "server_command z csk [] w1 = (Ret True, ?w)"
      using f Suc.prems(4,6) Suc by (intro server_command_empty_full) simp_all
    have "reader_ok csk b' ?w" "pending csk b' ?w = []"
      using w1 by (simp_all add: reader_ok_def pending_def sent_def upd_sock_def)
    moreover have "s_open (socks ?w csk)" "\<not> sigpipe_ign ?w" "s_wx (socks ?w csk) = replicate j WrFull @ WrErr EPIPE # es"
      using f Suc.prems(4,6) sig Suc by (simp_all add: sent_def) (simp add: upd_sock_def)
    ultimately obtain w' where "server_loop z n csk b' cmd' ?w = (if n \<le> j then Still_Running else Sig_Killed, w')"
      "s_tx (socks w' csk) = s_tx (socks ?w csk) @ concat (replicate (min n j) (ln ''Not valid command''))"
      using Suc.IH [of b' ?w cmd' j] w1(4) by blast
    with Suc f show ?thesis by (simp add: turn mbind_Ret [where m = "server_command z csk []", OF cmd] del: server_loop.simps)
  qed
qed

end
