(* ===== verification/Server_Spec.thy ===== *)
theory Server_Spec
  imports Server_Main
begin

text \<open>
  What the commands of the server do, on the level of recordings, files and replies: the
  process check, start and stop, the choice of the next file as an abstract decision and
  its refinement by \<open>SendNext\<close>, the bytes a transmission consists of, and the exact effect
  of the removals on the store.
\<close>

section \<open>Paths and lines\<close>

definition tof_name :: "string \<Rightarrow> string \<Rightarrow> int \<Rightarrow> string" where
  "tof_name dir ts l = dir @ ''/'' @ ts @ ''/voxl-logger/log'' @ fmt_04d l @ ''/run/mpa/tof''"

definition tof_path :: "string \<Rightarrow> string \<Rightarrow> int \<Rightarrow> path" where
  "tof_path dir ts l = pcomps dir @ [ts, ''voxl-logger'', ''log'' @ fmt_04d l, ''run'', ''mpa'', ''tof'']"

definition cloud_name :: "string \<Rightarrow> string \<Rightarrow> int \<Rightarrow> int \<Rightarrow> string" where
  "cloud_name dir ts l n = tof_name dir ts l @ ''/'' @ data_name n"

lemma name_ok_data_name [simp]: "name_ok (data_name n)"
  by (simp add: data_name_eq name_ok_def)

lemma name_ok_log [simp]: "name_ok (''log'' @ fmt_04d l)"
  by (simp add: name_ok_def)

lemma pcomps_tof: "name_ok ts \<Longrightarrow> pcomps (tof_name dir ts l) = tof_path dir ts l"
proof -
  assume ts: "name_ok ts"
  let ?a = "dir @ CHR ''/'' # ts" and ?log = "''log'' @ fmt_04d l"
  let ?b = "(?a @ CHR ''/'' # ''voxl-logger'') @ CHR ''/'' # ?log"
  let ?c = "((?b @ CHR ''/'' # ''run'') @ CHR ''/'' # ''mpa'') @ CHR ''/'' # ''tof''"
  have names: "name_ok ''voxl-logger''" "name_ok ''run''" "name_ok ''mpa''" "name_ok ''tof''"
    by (simp_all add: name_ok_def)
  have "pcomps ?b = pcomps dir @ [ts, ''voxl-logger'', ?log]"
    unfolding pcomps_append pcomps_name [OF ts] pcomps_name [OF names(1)] pcomps_name [OF name_ok_log] by simp
  then have "pcomps ?c = tof_path dir ts l"
    unfolding pcomps_append_name [OF names(2)] pcomps_append_name [OF names(3)] pcomps_append_name [OF names(4)]
    by (simp add: tof_path_def)
  moreover have "tof_name dir ts l = ?c" by (simp add: tof_name_def)
  ultimately show ?thesis by simp
qed

lemma pcomps_cloud: "name_ok ts \<Longrightarrow> pcomps (cloud_name dir ts l n) = tof_path dir ts l @ [data_name n]"
  using pcomps_append_name [of "data_name n" "tof_name dir ts l"] by (simp add: cloud_name_def pcomps_tof)

lemma word_name_ok: "word_ok t \<Longrightarrow> CHR ''/'' \<notin> set t \<Longrightarrow> name_ok t"
  by (simp add: word_ok_def name_ok_def)

text \<open>The texts the formats of the source print.\<close>

lemma path_formats:
  "vformat ''%s/%s/voxl-logger/log%04d/run/mpa/tof'' [FStr dir, FStr ts, FInt l] = tof_name dir ts l"
  "vformat ''%s/%s/voxl-logger/log%04d/run/mpa/tof/data_%d.pcd'' [FStr dir, FStr ts, FInt l, FInt n] =
     cloud_name dir ts l n"
  "vformat ''%s/%s/voxl-logger/log0000/run/mpa/tof'' [FStr dir, FStr ts] = tof_name dir ts 0"
  "vformat ''%s/%s/voxl-logger/log0001/run/mpa/tof'' [FStr dir, FStr ts] = tof_name dir ts 1"
  "vformat ''%s/%s'' [FStr dir, FStr ts] = dir @ ''/'' @ ts"
  by (simp_all add: format_simps tof_name_def cloud_name_def data_name_eq fmt_04d_def digs.simps
      digit_char_table numeral_eq_Suc)

lemma line_formats:
  "vformat (ln ''FILE %d, %s REMOVED'') [FInt n, FStr ts] = ln (''FILE '' @ fmt_d n @ '', '' @ ts @ '' REMOVED'')"
  "vformat (ln ''DIR %s REMOVED'') [FStr ts] = ln (''DIR '' @ ts @ '' REMOVED'')"
  "vformat (ln ''ERROR REMOVING DIR %s'') [FStr ts] = ln (''ERROR REMOVING DIR '' @ ts)"
  "vformat (ln ''EMPTY %s %d'') [FStr ts, FInt n] = ln (''EMPTY '' @ ts @ '' '' @ fmt_d n)"
  "vformat (ln ''%s %ld %ld'') [FStr ts, FInt n, FInt m] = ln (ts @ '' '' @ fmt_d n @ '' '' @ fmt_d m)"
  "vformat (ln ''Removing %s'') [FStr ts] = ln (''Removing '' @ ts)"
  "vformat (ln ''Sending %s'') [FStr ts] = ln (''Sending '' @ ts)"
  "vformat (ln ''Finished sending %s'') [FStr ts] = ln (''Finished sending '' @ ts)"
  "vformat ''SENDING REQUESTED %s'' [FStr ts] = ''SENDING REQUESTED '' @ ts"
  "vformat ''pgrep -l %s'' [FStr ts] = ''pgrep -l '' @ ts"
  "vformat ''%s %s'' [FStr dir, FStr ts] = dir @ '' '' @ ts"
  by (simp_all add: format_simps ln_def nl_def)

lemma os_print_plain: "CHR ''%'' \<notin> set s \<Longrightarrow> os_print (ln s) [] w = (Ret (), w\<lparr>out := out w @ ln s\<rparr>)"
  by (simp add: os_print_def mmod_run plain_lines)

lemma os_eprint_plain: "CHR ''%'' \<notin> set s \<Longrightarrow> os_eprint (ln s) [] w = (Ret (), w\<lparr>err := err w @ ln s\<rparr>)"
  by (simp add: os_eprint_def mmod_run plain_lines)

lemma os_print_seq: "mseq (os_print f as) m w = m (w\<lparr>out := out w @ vformat f as\<rparr>)"
  by (simp add: mseq_def mbind_def os_print_def mmod_def)

section \<open>The logger process\<close>

text \<open>The running processes that \<open>pgrep\<close> lists, one short line each.\<close>

definition proc_lines :: "'x world_scheme \<Rightarrow> string \<Rightarrow> string list \<Rightarrow> bool" where
  "proc_lines w name ls \<longleftrightarrow> pipe_cmd w (''pgrep -l '' @ name) (procs w) = Some (concat (map ln ls)) \<and>
     list_all (\<lambda>l. nl \<notin> set l \<and> length l + 1 < BUFFER_DIM - 1) ls \<and> length name < 238"

lemma ProcNumber_lines: "proc_lines w name ls \<Longrightarrow> ProcNumber name w = (Ret (int (length ls)), w)"
proof -
  assume p: "proc_lines w name ls"
  then have "snprintf (BUFFER_DIM - 9) ''pgrep -l %s'' [FStr name] = ''pgrep -l '' @ name"
    by (subst snprintf_fits) (simp_all add: line_formats proc_lines_def BUFFER_DIM_def)
  with p fgets_pieces_lines [of "BUFFER_DIM - 1" ls] show ?thesis
    by (simp add: ProcNumber_def os_popen_def exec_defs proc_lines_def BUFFER_DIM_def)
qed

lemma ProcNumber_fails:
  "pipe_cmd w (''pgrep -l '' @ name) (procs w) = None \<Longrightarrow> length name < 238 \<Longrightarrow> ProcNumber name w = (Ret (- 1), w)"
proof -
  assume p: "pipe_cmd w (''pgrep -l '' @ name) (procs w) = None" and n: "length name < 238"
  then have "snprintf (BUFFER_DIM - 9) ''pgrep -l %s'' [FStr name] = ''pgrep -l '' @ name"
    by (subst snprintf_fits) (simp_all add: line_formats BUFFER_DIM_def)
  with p show ?thesis by (simp add: ProcNumber_def os_popen_def exec_defs)
qed

section \<open>Output\<close>

text \<open>Two worlds that differ in the error number and the messages to the terminal only.\<close>

definition quiet :: "'x world_scheme \<Rightarrow> 'x world_scheme \<Rightarrow> bool" where
  "quiet v w \<longleftrightarrow> w = v\<lparr>errno_val := errno_val w, out := out w, err := err w\<rparr>"

lemma sent_updates:
  "sent sk s (w\<lparr>out := o1\<rparr>) = (sent sk s w)\<lparr>out := o1\<rparr>"
  "sent sk s (w\<lparr>err := o1\<rparr>) = (sent sk s w)\<lparr>err := o1\<rparr>"
  "sent sk s (w\<lparr>errno_val := e\<rparr>) = (sent sk s w)\<lparr>errno_val := e\<rparr>"
  "sent sk s (w\<lparr>blocks := n\<rparr>) = (sent sk s w)\<lparr>blocks := n\<rparr>"
  by (simp_all add: sent_def upd_sock_def)

lemma sent_fields [simp]:
  "out (sent sk s w) = out w" "err (sent sk s w) = err w" "errno_val (sent sk s w) = errno_val w"
  "blocks (sent sk s w) = blocks w" "fs (sent sk s w) = fs w" "procs (sent sk s w) = procs w"
  by (simp_all add: sent_def upd_sock_def)

lemma tx_clean_updates [simp]:
  "tx_clean sk (w\<lparr>out := o1\<rparr>) = tx_clean sk w" "tx_clean sk (w\<lparr>err := o1\<rparr>) = tx_clean sk w"
  "tx_clean sk (w\<lparr>errno_val := e\<rparr>) = tx_clean sk w" "tx_clean sk (w\<lparr>blocks := n\<rparr>) = tx_clean sk w"
  "tx_clean sk (w\<lparr>procs := ps\<rparr>) = tx_clean sk w" "tx_clean sk (w\<lparr>fs := st\<rparr>) = tx_clean sk w"
  by (simp_all add: tx_clean_def)

section \<open>Transmission of a file\<close>

text \<open>The compressed form of a file and the three parts of its transmission.\<close>

definition packed :: "zlib \<Rightarrow> string \<Rightarrow> string" where
  "packed z s = snd (z_compress z (z_bound z (length s)) s)"

definition file_chunks :: "zlib \<Rightarrow> string \<Rightarrow> string \<Rightarrow> string list" where
  "file_chunks z hdr s =
     [ln (hdr @ '' '' @ fmt_d (int (length s)) @ '' '' @ fmt_d (int (length (packed z s)))),
      packed z s, ln ''END'']"

lemma CompressAndSend_run:
  assumes "zlib_ok z" "readable z w p s" "malloc_max w < 2 ^ 31" "tx_clean csk w" "length hdr \<le> 4000"
  shows "CompressAndSend z csk p hdr w = (Ret 0, sent_all csk (file_chunks z hdr s) w)"
proof -
  obtain c where c: "z_compress z (z_bound z (length s)) s = (Z_OK, c)" "length c \<le> z_bound z (length s)"
    using assms(1) unfolding zlib_ok_def by blast
  have "int64 (int (length s))" "int64 (int (length c))"
    using assms(2,3) c(2) by (simp_all add: readable_def int64_def)
  with length_fmt_int64 have "length (fmt_d (int (length s))) \<le> 20" "length (fmt_d (int (length c))) \<le> 20"
    by blast+
  then have "snprintf (BUFSIZ + 1) (ln ''%s %ld %ld'') [FStr hdr, FInt (int (length s)), FInt (int (length c))] =
      ln (hdr @ '' '' @ fmt_d (int (length s)) @ '' '' @ fmt_d (int (length c)))"
    using assms(5) by (subst snprintf_fits) (simp_all add: line_formats BUFSIZ_def)
  moreover have "wrap_int 32 (int (length c)) = int (length c)"
    using assms(2,3) c(2) by (intro wrap_int_in_range) (simp_all add: readable_def)
  ultimately show ?thesis
    using compressor_run [OF assms(2) c(1), of 0] c(1) assms(4)
    by (simp add: CompressAndSend_def exec_defs file_chunks_def packed_def tcp_send_clean
        tcp_binary_send_clean os_free_def sent_updates)
qed

lemma CompressAndSend_missing:
  assumes "node_at (fs w) (pcomps p) = None" "tx_clean csk w"
  shows "CompressAndSend z csk p hdr w = (Ret (- 1), sent csk (ln ''ERROR compressing buffer'')
    (w\<lparr>errno_val := if denied ''fopen'' (pcomps p) w then EACCES else missing_errno (fs w) (pcomps p)\<rparr>))"
  using assms
  by (auto simp: CompressAndSend_def compressor_def copy_file_in_buffer_def os_fopen_read_def fail_with_run
      exec_defs os_free_def tcp_send_clean denied_def)

section \<open>The choice of the next file\<close>

text \<open>
  What is sent next, as a function of the number of running loggers, the times of the
  recordings and, for the oldest of them, the logger directory and the numbers of its point
  clouds. A running logger may still be writing the newest file of the only recording, so
  that one file is held back.
\<close>

datatype reply =
    Rep_NO_TR
  | Rep_WAIT
  | Rep_EMPTY tm int
  | Rep_SENDING tm int int int int

definition next_reply :: "nat \<Rightarrow> tm list \<Rightarrow> int \<Rightarrow> int list \<Rightarrow> reply" where
  "next_reply running ts l ns =
     (let writing = (running \<noteq> 0 \<and> length ts = 1)
      in if ts = [] then Rep_NO_TR
         else if (if writing then 2 else 1) \<le> length ns
         then Rep_SENDING (Min (set ts)) l (Min (set ns)) (Max (set ns)) (int (length ns))
         else if writing then Rep_WAIT
         else Rep_EMPTY (Min (set ts)) l)"

definition sending_header :: "tm \<Rightarrow> int \<Rightarrow> int \<Rightarrow> int \<Rightarrow> int \<Rightarrow> string" where
  "sending_header t l i j n = ''SENDING '' @ strftime_ts t @ '' '' @ fmt_d l @ '' '' @ fmt_d i @ '' '' @
     fmt_d j @ '' '' @ fmt_d n"

fun reply_chunks :: "zlib \<Rightarrow> string \<Rightarrow> reply \<Rightarrow> string list" where
  "reply_chunks z s Rep_NO_TR = [ln ''NO_TR'']"
| "reply_chunks z s Rep_WAIT = [ln ''WAIT'']"
| "reply_chunks z s (Rep_EMPTY t l) = [ln (''EMPTY '' @ strftime_ts t @ '' '' @ fmt_d l)]"
| "reply_chunks z s (Rep_SENDING t l i j n) = file_chunks z (sending_header t l i j n) s"

text \<open>The recordings below \<open>dir\<close>, as the search sees them.\<close>

definition can_list :: "'x world_scheme \<Rightarrow> string \<Rightarrow> bool" where
  "can_list w p \<longleftrightarrow> node_at (fs w) (pcomps p) = Some Dir \<and> \<not> denied ''opendir'' (pcomps p) w"

definition recordings :: "'x world_scheme \<Rightarrow> string \<Rightarrow> tm list \<Rightarrow> int \<Rightarrow> int list \<Rightarrow> bool" where
  "recordings w dir ts l ns \<longleftrightarrow>
     can_list w dir \<and> filter dir_entry (children (fs w) (pcomps dir)) = map strftime_ts ts \<and>
     list_all printable_tm ts \<and> ts \<noteq> [] \<and> mktime_mono w ts \<and> length dir < 180 \<and> list_all int32 ns \<and>
     (let t = strftime_ts (Min (set ts))
      in (l = 0 \<or> l = 1 \<and> \<not> can_list w (tof_name dir t 0)) \<and> can_list w (tof_name dir t l) \<and>
         filter file_entry (children (fs w) (pcomps (tof_name dir t l))) = map data_name ns)"

lemma listed_can_list: "can_list w p \<Longrightarrow> listed w p (children (fs w) (pcomps p))"
  by (simp add: can_list_def listed_def)

lemma can_list_errno [simp]: "can_list (w\<lparr>errno_val := e\<rparr>) p = can_list w p"
  by (simp add: can_list_def denied_def)

lemma DirExists_yes: "can_list w p \<Longrightarrow> DirExists p w = (Ret 1, w)"
  by (simp add: DirExists_def exec_defs os_opendir_listed [OF listed_can_list])

lemma os_opendir_fails: "\<not> can_list w p \<Longrightarrow> \<exists>e. os_opendir p w = fail_with e None w"
  by (cases "denied ''opendir'' (pcomps p) w"; cases "node_at (fs w) (pcomps p)";
      cases "the (node_at (fs w) (pcomps p))")
    (simp_all only: os_opendir_def can_list_def Let_def if_True if_False option.case node.case option.sel
      HOL.simp_thms, auto)

lemma DirExists_no:
  assumes "\<not> can_list w p"
  shows "\<exists>r e. DirExists p w = (Ret r, w\<lparr>errno_val := e\<rparr>) \<and> r \<noteq> 1"
proof -
  obtain e where "os_opendir p w = fail_with e None w"
    using os_opendir_fails [OF assms] by blast
  then have "os_opendir p w = (Ret None, w\<lparr>errno_val := e\<rparr>)" by (simp add: fail_with_run)
  then have "DirExists p w = (Ret (if e = ENOENT then 0 else - 1), w\<lparr>errno_val := e\<rparr>)"
    by (simp add: DirExists_def mbind_def mget_def mret_def)
  then show ?thesis
    by (intro exI [of _ "if e = ENOENT then 0 else - 1"] exI [of _ e]) simp
qed

lemma length_tof_name:
  "0 \<le> l \<Longrightarrow> l \<le> 1 \<Longrightarrow> length (tof_name dir ts l) = length dir + length ts + 33"
  by (simp add: tof_name_def fmt_04d_small)

lemma length_cloud_name:
  "0 \<le> l \<Longrightarrow> l \<le> 1 \<Longrightarrow> int32 n \<Longrightarrow> length (cloud_name dir ts l n) \<le> length dir + length ts + 54"
  using length_fmt_int32 [of n] by (simp add: cloud_name_def length_tof_name data_name_eq)

lemma tof_paths_fit:
  assumes "length dir < 180" "length ts < 16"
  shows "0 \<le> l \<Longrightarrow> l \<le> 1 \<Longrightarrow> snprintf MAX_PATH_LEN ''%s/%s/voxl-logger/log%04d/run/mpa/tof''
      [FStr dir, FStr ts, FInt l] = tof_name dir ts l"
    and "snprintf MAX_PATH_LEN ''%s/%s/voxl-logger/log0000/run/mpa/tof'' [FStr dir, FStr ts] = tof_name dir ts 0"
    and "snprintf MAX_PATH_LEN ''%s/%s/voxl-logger/log0001/run/mpa/tof'' [FStr dir, FStr ts] = tof_name dir ts 1"
    and "0 \<le> l \<Longrightarrow> l \<le> 1 \<Longrightarrow> int32 n \<Longrightarrow>
      snprintf MAX_PATH_LEN ''%s/%s/voxl-logger/log%04d/run/mpa/tof/data_%d.pcd''
      [FStr dir, FStr ts, FInt l, FInt n] = cloud_name dir ts l n"
proof -
  show "0 \<le> l \<Longrightarrow> l \<le> 1 \<Longrightarrow> snprintf MAX_PATH_LEN ''%s/%s/voxl-logger/log%04d/run/mpa/tof''
      [FStr dir, FStr ts, FInt l] = tof_name dir ts l"
    using assms by (subst snprintf_fits) (simp_all add: path_formats length_tof_name MAX_PATH_LEN_def)
  show "0 \<le> l \<Longrightarrow> l \<le> 1 \<Longrightarrow> int32 n \<Longrightarrow>
      snprintf MAX_PATH_LEN ''%s/%s/voxl-logger/log%04d/run/mpa/tof/data_%d.pcd''
      [FStr dir, FStr ts, FInt l, FInt n] = cloud_name dir ts l n"
    using assms length_cloud_name [of l n dir ts]
    by (subst snprintf_fits) (simp_all add: path_formats MAX_PATH_LEN_def)
qed (use assms in \<open>subst snprintf_fits; simp add: path_formats length_tof_name MAX_PATH_LEN_def\<close>)+

lemma FindLidarDataInfo_step:
  assumes "FindFirstDir d0 dir w = (Ret (0, d), w1)" "nd_count d \<noteq> 0" "cstr_of (nd_first d) = Some t"
    and "length dir < 180" "length t < 16"
  shows "FindLidarDataInfo d0 dir w = mbind (DirExists (tof_name dir t 0)) (\<lambda>x.
      if x = 1 then mret (0, d\<lparr>nd_logger_n := 0\<rparr>)
      else mbind (DirExists (tof_name dir t 1)) (\<lambda>x.
        if x = 1 then mret (0, d\<lparr>nd_logger_n := 1\<rparr>) else mret (- 1, d))) w1"
  by (simp only: FindLidarDataInfo_def mbind_def [of "FindFirstDir d0 dir"] assms(1) prod.case outcome.case
      if_not_P [OF assms(2)] read_cstr_def assms(3) option.case mbind_mret_left tof_paths_fit(2,3) [OF assms(4,5)])

lemma FindLidarDataInfo_run:
  assumes "recordings w dir ts l ns"
  shows "\<exists>d e. FindLidarDataInfo d0 dir w = (Ret (0, d), w\<lparr>errno_val := e\<rparr>) \<and>
    nd_count d = int (length ts) \<and> cstr_of (nd_first d) = Some (strftime_ts (Min (set ts))) \<and> nd_logger_n d = l"
proof -
  let ?t = "strftime_ts (Min (set ts))"
  have r: "list_all printable_tm ts" "ts \<noteq> []" "mktime_mono w ts" "length dir < 180" "can_list w dir"
    "filter dir_entry (children (fs w) (pcomps dir)) = map strftime_ts ts"
    "l = 0 \<or> l = 1 \<and> \<not> can_list w (tof_name dir ?t 0)" "can_list w (tof_name dir ?t l)"
    using assms unfolding recordings_def Let_def by blast+
  obtain d where dir: "FindFirstDir d0 dir w = (Ret (0, d), w)" "nd_count d = int (length ts)"
      "cstr_of (nd_first d) = Some ?t"
    using FindFirstDir_timestamps [OF listed_can_list [OF r(5)] r(6,1,2,3), of d0] by blast
  have n: "nd_count d \<noteq> 0" using dir(2) r(2) by simp
  note run = FindLidarDataInfo_step [OF dir(1) n dir(3) r(4)]
  show ?thesis
  proof (cases "l = 0")
    case True
    then have "FindLidarDataInfo d0 dir w = (Ret (0, d\<lparr>nd_logger_n := 0\<rparr>), w\<lparr>errno_val := errno_val w\<rparr>)"
      using r(8) by (simp add: run mbind_def mret_def DirExists_yes)
    with dir True show ?thesis by (intro exI [of _ "d\<lparr>nd_logger_n := 0\<rparr>"] exI [of _ "errno_val w"]) simp
  next
    case False
    with r(7) have l: "l = 1" "\<not> can_list w (tof_name dir ?t 0)" by auto
    obtain x e where no: "DirExists (tof_name dir ?t 0) w = (Ret x, w\<lparr>errno_val := e\<rparr>)" "x \<noteq> 1"
      using DirExists_no [OF l(2)] by auto
    have "can_list (w\<lparr>errno_val := e\<rparr>) (tof_name dir ?t 1)" using r(8) l(1) by simp
    then have "FindLidarDataInfo d0 dir w = (Ret (0, d\<lparr>nd_logger_n := 1\<rparr>), w\<lparr>errno_val := e\<rparr>)"
      using no by (simp add: run mbind_def mret_def DirExists_yes)
    with dir l(1) show ?thesis by (intro exI [of _ "d\<lparr>nd_logger_n := 1\<rparr>"] exI [of _ e]) simp
  qed
qed

lemma FindNextTr_run:
  assumes "recordings w dir ts l ns"
  shows "\<exists>tr e. FindNextTr tr0 dir w = (Ret (junk_int w ''FindNextTr.return'', tr), w\<lparr>errno_val := e\<rparr>) \<and>
    nd_count (tr_d tr) = int (length ts) \<and> nd_logger_n (tr_d tr) = l \<and>
    cstr_of (nd_first (tr_d tr)) = Some (strftime_ts (Min (set ts))) \<and>
    nf_count (tr_f tr) = int (length ns) \<and>
    (ns \<noteq> [] \<longrightarrow> nf_first (tr_f tr) = Min (set ns) \<and> nf_last (tr_f tr) = Max (set ns))"
proof -
  let ?t = "strftime_ts (Min (set ts))"
  obtain d e where info: "FindLidarDataInfo (tr_d tr0) dir w = (Ret (0, d), w\<lparr>errno_val := e\<rparr>)"
    and d: "nd_count d = int (length ts)" "cstr_of (nd_first d) = Some ?t" "nd_logger_n d = l"
    using FindLidarDataInfo_run [OF assms] by blast
  have r: "length dir < 180" "0 \<le> l \<and> l \<le> 1" "can_list w (tof_name dir ?t l)" "list_all int32 ns"
    "filter file_entry (children (fs w) (pcomps (tof_name dir ?t l))) = map data_name ns"
    using assms by (auto simp: recordings_def Let_def)
  let ?w = "w\<lparr>errno_val := e\<rparr>"
  have "listed ?w (tof_name dir ?t l) (children (fs w) (pcomps (tof_name dir ?t l)))"
    using listed_can_list [of ?w "tof_name dir ?t l"] r(3) by simp
  then obtain f where f: "FindNextFile (tr_f tr0) (tof_name dir ?t l) ?w = (Ret (0, f), ?w)"
    and fc: "nf_count f = int (length ns)" "ns \<noteq> [] \<longrightarrow> nf_first f = Min (set ns) \<and> nf_last f = Max (set ns)"
    using FindNextFile_none [of ?w "tof_name dir ?t l"] FindNextFile_data_names [of ?w "tof_name dir ?t l"] r(4,5)
    by (cases "ns = []") fastforce+
  have fit: "snprintf MAX_PATH_LEN ''%s/%s/voxl-logger/log%04d/run/mpa/tof''
      [FStr dir, FStr ?t, FInt (nd_logger_n d)] = tof_name dir ?t l"
    using tof_paths_fit(1) [OF r(1), of ?t] r(2) d(3) by simp
  have "FindNextTr tr0 dir w = (Ret (junk_int w ''FindNextTr.return'', tr0\<lparr>tr_d := d, tr_f := f\<rparr>), ?w)"
    using f by (simp add: FindNextTr_def mbind_def info Let_def read_cstr_def d(2) fit mret_def mget_def)
  with d fc show ?thesis
    by (intro exI [of _ "tr0\<lparr>tr_d := d, tr_f := f\<rparr>"] exI [of _ e]) simp
qed

lemma SendNext_found:
  assumes "FindNextTr (uninit_tr w) dir w = (Ret (v, tr), w1)" "v \<noteq> - 1" "v \<noteq> - 2"
    and "ProcNumber logger w1 = (Ret n, w1)" "0 \<le> n"
  shows "SendNext z csk logger dir w = send_decision z csk dir n tr w1"
  using assms by (simp add: SendNext_def mbind_def mget_def)

text \<open>The decision for each of the four cases.\<close>

lemma decision_NO_TR:
  assumes "nd_count (tr_d tr) = 0" "tx_clean csk w"
  shows "send_decision z csk dir n tr w = (Ret 0, (sent csk (ln ''NO_TR'') w)
    \<lparr>out := out w @ ln ''No transmission folders found, sending NO_TR''\<rparr>)"
  using assms
  by (simp add: send_decision_def mseq_def mbind_def mret_def os_print_plain tcp_send_clean sent_updates)

lemma decision_WAIT:
  assumes "nd_count (tr_d tr) = 1" "n \<noteq> 0" "nf_count (tr_f tr) < 2" "tx_clean csk w"
  shows "send_decision z csk dir n tr w = (Ret 0, (sent csk (ln ''WAIT'') w)\<lparr>out := out w @ ln ''Sending WAIT''\<rparr>)"
  using assms
  by (simp add: send_decision_def mseq_def mbind_def mret_def os_print_plain tcp_send_clean sent_updates)

lemma decision_EMPTY:
  assumes "nd_count (tr_d tr) \<noteq> 0" "nf_count (tr_f tr) < 1" "n = 0 \<or> nd_count (tr_d tr) \<noteq> 1" "tx_clean csk w"
    and "cstr_of (nd_first (tr_d tr)) = Some first" "nd_logger_n (tr_d tr) = l" "length first < 100" "int32 l"
  shows "send_decision z csk dir n tr w = (Ret 0,
    (sent csk (ln (''EMPTY '' @ first @ '' '' @ fmt_d l)) w)\<lparr>out := out w @ ln ''Sending EMPTY''\<rparr>)"
proof -
  have "snprintf (BUFSIZ + 1) (ln ''EMPTY %s %d'') [FStr first, FInt l] = ln (''EMPTY '' @ first @ '' '' @ fmt_d l)"
    using assms(7) length_fmt_int32 [OF assms(8)] by (subst snprintf_fits) (simp_all add: line_formats BUFSIZ_def)
  with assms show ?thesis
    by (auto simp add: send_decision_def mseq_def mbind_def mret_def os_print_plain tcp_send_clean sent_updates
        read_cstr_def)
qed

lemma sending_format:
  assumes "list_all int32 [l, i, j, n]"
  shows "snprintf (BUFSIZ + 1) ''SENDING %s %d %d %d %d'' [FStr (strftime_ts t), FInt l, FInt i, FInt j, FInt n] =
      sending_header t l i j n"
    and "length (sending_header t l i j n) \<le> 4000"
proof -
  have "length (fmt_d l) \<le> 11" "length (fmt_d i) \<le> 11" "length (fmt_d j) \<le> 11" "length (fmt_d n) \<le> 11"
    using assms by (simp_all add: length_fmt_int32)
  moreover have "vformat ''SENDING %s %d %d %d %d'' [FStr (strftime_ts t), FInt l, FInt i, FInt j, FInt n] =
      sending_header t l i j n"
    by (simp add: format_simps sending_header_def)
  ultimately show "snprintf (BUFSIZ + 1) ''SENDING %s %d %d %d %d''
      [FStr (strftime_ts t), FInt l, FInt i, FInt j, FInt n] = sending_header t l i j n"
    "length (sending_header t l i j n) \<le> 4000"
    by (simp_all add: snprintf_fits sending_header_def BUFSIZ_def)
qed

lemma decision_SENDING:
  assumes d: "nd_count (tr_d tr) \<noteq> 0" "(if n \<noteq> 0 \<and> nd_count (tr_d tr) = 1 then 2 else 1) \<le> nf_count (tr_f tr)"
    and first: "cstr_of (nd_first (tr_d tr)) = Some (strftime_ts t)" "nd_logger_n (tr_d tr) = l" "0 \<le> l" "l \<le> 1"
    and f: "nf_first (tr_f tr) = i" "nf_last (tr_f tr) = j" "nf_count (tr_f tr) = k" "list_all int32 [i, j, k]"
    and w: "length dir < 180" "tx_clean csk w" "zlib_ok z" "malloc_max w < 2 ^ 31"
      "readable z w (cloud_name dir (strftime_ts t) l i) s"
  shows "\<exists>o1. send_decision z csk dir n tr w =
    (Ret 0, (sent_all csk (file_chunks z (sending_header t l i j k) s) w)\<lparr>out := o1\<rparr>)"
proof -
  have l: "int32 l" using first(3,4) by (simp add: int32_def)
  let ?p = "cloud_name dir (strftime_ts t) l i"
  have i: "int32 i" using f(4) by simp
  have fit: "snprintf MAX_PATH_LEN ''%s/%s/voxl-logger/log%04d/run/mpa/tof/data_%d.pcd''
      [FStr dir, FStr (strftime_ts t), FInt l, FInt i] = ?p"
    using first(3,4) i by (intro tof_paths_fit(4) [OF w(1)]) simp_all
  note hdr = sending_format [of l i j k t]
  define w1 where "w1 = w\<lparr>out := out w @ vformat (ln ''Sending %s'') [FStr ?p]\<rparr>"
  have run: "CompressAndSend z csk ?p (sending_header t l i j k) w1 =
      (Ret 0, sent_all csk (file_chunks z (sending_header t l i j k) s) w1)"
    using w l f(4) hdr(2) by (intro CompressAndSend_run) (simp_all add: w1_def readable_def denied_def)
  have "send_decision z csk dir n tr w = mbind (CompressAndSend z csk ?p (sending_header t l i j k)) (\<lambda>ret.
      if ret < 0 then mseq (os_eprint (ln ''Error compressing buffer'') []) (mret (- 1))
      else mseq (os_print (ln ''Finished sending %s'') [FStr ?p]) (mret 0)) w1"
    using d hdr(1) l f(4)
    by (simp add: send_decision_def os_print_seq w1_def read_cstr_def first f(1-3) fit Let_def cong: if_cong)
  also have "\<dots> = (Ret 0, (sent_all csk (file_chunks z (sending_header t l i j k) s) w)
      \<lparr>out := out w1 @ vformat (ln ''Finished sending %s'') [FStr ?p]\<rparr>)"
    by (simp add: mbind_def run os_print_seq mret_def) (simp add: w1_def sent_updates file_chunks_def)
  finally show ?thesis by blast
qed

text \<open>
  The result of the search is not lost: \<open>FindNextTr\<close> ends without a \<open>return\<close>, and what its
  caller reads is neither of the two error codes.
\<close>

definition no_stale_error :: "'x world_scheme \<Rightarrow> bool" where
  "no_stale_error w \<longleftrightarrow> junk_int w ''FindNextTr.return'' \<noteq> - 1 \<and> junk_int w ''FindNextTr.return'' \<noteq> - 2"

lemma quietI: "w' = v\<lparr>errno_val := e\<rparr> \<or> w' = v\<lparr>errno_val := e, out := o1\<rparr> \<Longrightarrow> quiet v w'"
  by (auto simp: quiet_def)

lemma SendNext_run:
  assumes r: "recordings w dir ts l ns" and p: "proc_lines w logger ls"
    and w: "no_stale_error w" "tx_clean csk w" "zlib_ok z" "malloc_max w < 2 ^ 31" "length ns < 2 ^ 31"
    and s: "ns \<noteq> [] \<longrightarrow> readable z w (cloud_name dir (strftime_ts (Min (set ts))) l (Min (set ns))) s"
  shows "\<exists>w'. SendNext z csk logger dir w = (Ret 0, w') \<and>
    quiet (sent_all csk (reply_chunks z s (next_reply (length ls) ts l ns)) w) w'"
proof -
  let ?t = "Min (set ts)"
  obtain tr e where found: "FindNextTr (uninit_tr w) dir w =
      (Ret (junk_int w ''FindNextTr.return'', tr), w\<lparr>errno_val := e\<rparr>)"
    and tr: "nd_count (tr_d tr) = int (length ts)" "nd_logger_n (tr_d tr) = l"
      "cstr_of (nd_first (tr_d tr)) = Some (strftime_ts ?t)" "nf_count (tr_f tr) = int (length ns)"
      "ns \<noteq> [] \<longrightarrow> nf_first (tr_f tr) = Min (set ns) \<and> nf_last (tr_f tr) = Max (set ns)"
    using FindNextTr_run [OF r, of "uninit_tr w"] by blast
  let ?w = "w\<lparr>errno_val := e\<rparr>"
  have facts: "ts \<noteq> []" "0 \<le> l" "l \<le> 1" "length dir < 180" "list_all int32 ns"
    using r by (auto simp: recordings_def Let_def)
  have "proc_lines ?w logger ls" using p by (simp add: proc_lines_def)
  from ProcNumber_lines [OF this] have run: "SendNext z csk logger dir w =
      send_decision z csk dir (int (length ls)) tr ?w"
    using w(1) by (intro SendNext_found [OF found]) (simp_all add: no_stale_error_def)
  have tx: "tx_clean csk ?w" using w(2) by simp
  have n0: "nd_count (tr_d tr) \<noteq> 0" using tr(1) facts(1) by simp
  let ?wr = "length ls \<noteq> 0 \<and> length ts = 1"
  consider (send) "(if ?wr then 2 else 1) \<le> length ns" | (wait) "\<not> (if ?wr then 2 else 1) \<le> length ns" ?wr
    | (empty) "\<not> (if ?wr then 2 else 1) \<le> length ns" "\<not> ?wr" by blast
  then show ?thesis
  proof cases
    case send
    then have ns: "ns \<noteq> []" by (auto split: if_splits)
    then have "Min (set ns) \<in> set ns" "Max (set ns) \<in> set ns" by simp_all
    then have "list_all int32 [Min (set ns), Max (set ns), int (length ns)]"
      using facts(5) w(5) by (simp add: list_all_iff int32_def)
    moreover have "readable z ?w (cloud_name dir (strftime_ts ?t) l (Min (set ns))) s"
      using s ns by (simp add: readable_def denied_def)
    moreover have "(if int (length ls) \<noteq> 0 \<and> nd_count (tr_d tr) = 1 then 2 else 1) \<le> nf_count (tr_f tr)"
      using send tr(1,4) by (auto split: if_splits)
    ultimately obtain o1 where "send_decision z csk dir (int (length ls)) tr ?w = (Ret 0, (sent_all csk
        (file_chunks z (sending_header ?t l (Min (set ns)) (Max (set ns)) (int (length ns))) s) ?w)\<lparr>out := o1\<rparr>)"
      using decision_SENDING [OF n0 _ tr(3,2) facts(2,3), of "int (length ls)" "Min (set ns)" "Max (set ns)"
          "int (length ns)" dir csk ?w z s] tr(4,5) ns facts(4) tx w(3,4) by auto
    with send run facts(1) show ?thesis
      by (auto simp: next_reply_def Let_def file_chunks_def sent_updates intro!: quietI)
  next
    case wait
    then have "send_decision z csk dir (int (length ls)) tr ?w =
        (Ret 0, (sent csk (ln ''WAIT'') ?w)\<lparr>out := out ?w @ ln ''Sending WAIT''\<rparr>)"
      using tr(1,4) tx by (intro decision_WAIT) auto
    with wait run facts(1) show ?thesis
      by (auto simp: next_reply_def Let_def sent_updates intro!: quietI)
  next
    case empty
    then have "ns = []" by (cases ns) auto
    with empty have "send_decision z csk dir (int (length ls)) tr ?w =
        (Ret 0, (sent csk (ln (''EMPTY '' @ strftime_ts ?t @ '' '' @ fmt_d l)) ?w)\<lparr>out := out ?w @ ln ''Sending EMPTY''\<rparr>)"
      using tr n0 tx facts(2,3) by (intro decision_EMPTY) (auto simp: int32_def split: if_splits)
    with empty run facts(1) show ?thesis
      by (auto simp: next_reply_def Let_def sent_updates intro!: quietI)
  qed
qed

section \<open>Searches that find no recording\<close>

lemma FindNextFile_any: "\<exists>g e. FindNextFile f p w = (Ret (0, g), w\<lparr>errno_val := e\<rparr>)"
proof (cases "can_list w p")
  case True
  from FindNextFile_run [OF listed_can_list [OF this], of f] show ?thesis
    by (intro exI [of _ "errno_val w"] exI) simp
next
  case False
  then obtain e where "os_opendir p w = fail_with e None w" using os_opendir_fails by blast
  then have "FindNextFile f p w = (Ret (0, f), w\<lparr>errno_val := e\<rparr>)"
    by (simp add: FindNextFile_def mbind_def fail_with_run mret_def)
  then show ?thesis by blast
qed

lemma SendNext_none_run:
  assumes "can_list w dir" "filter dir_entry (children (fs w) (pcomps dir)) = []"
    and first: "cstr_of (uninit_array TIMESTAMP_LEN ''SendNext.tr.d.first'' w) = Some x"
    and "no_stale_error w" "proc_lines w logger ls" "tx_clean csk w"
  shows "\<exists>w'. SendNext z csk logger dir w = (Ret 0, w') \<and> quiet (sent csk (ln ''NO_TR'') w) w'"
proof -
  let ?d0 = "tr_d (uninit_tr w)"
  have foldl_none: "filter dir_entry xs = [] \<Longrightarrow> foldl (first_dir_step g) s xs = s" for g s xs
  proof (induction xs arbitrary: s)
    case (Cons a xs)
    then show ?case by (cases s) (auto simp: first_dir_step_def split: if_splits)
  qed simp
  have "FindFirstDir ?d0 dir w = (Ret (0, ?d0\<lparr>nd_count := 0\<rparr>), w)"
    using FindFirstDir_run [OF listed_can_list [OF assms(1)], of ?d0] foldl_none [OF assms(2)] by simp
  then have info: "FindLidarDataInfo ?d0 dir w = (Ret (0, ?d0\<lparr>nd_count := 0\<rparr>), w)"
    by (simp add: FindLidarDataInfo_def mbind_def mret_def)
  have rd: "read_cstr (nd_first (?d0\<lparr>nd_count := 0\<rparr>)) w = (Ret x, w)"
    using first by (simp add: read_cstr_run uninit_tr_def)
  let ?p = "snprintf MAX_PATH_LEN ''%s/%s/voxl-logger/log%04d/run/mpa/tof''
       [FStr dir, FStr x, FInt (nd_logger_n ?d0)]"
  obtain g e where scan: "FindNextFile (tr_f (uninit_tr w)) ?p w = (Ret (0, g), w\<lparr>errno_val := e\<rparr>)"
    using FindNextFile_any by blast
  define tr where "tr = (uninit_tr w)\<lparr>tr_d := ?d0\<lparr>nd_count := 0\<rparr>, tr_f := g\<rparr>"
  have next_tr: "FindNextTr (uninit_tr w) dir w = (Ret (junk_int w ''FindNextTr.return'', tr), w\<lparr>errno_val := e\<rparr>)"
    using rd scan by (simp add: FindNextTr_def mbind_def info Let_def mget_def mret_def tr_def)
  have "proc_lines (w\<lparr>errno_val := e\<rparr>) logger ls" using assms(5) by (simp add: proc_lines_def)
  from SendNext_found [OF next_tr _ _ ProcNumber_lines [OF this]] decision_NO_TR [of tr csk "w\<lparr>errno_val := e\<rparr>"]
    assms(4,6)
  show ?thesis by (auto simp: no_stale_error_def tr_def sent_updates intro!: quietI)
qed

text \<open>A name without a date, like the placeholder the repository keeps in the directory.\<close>

lemma foobar_name: "nul_free ''foobar.txt''" "name_ok ''foobar.txt''" "strptime_ts ''foobar.txt'' = None"
  by (simp_all add: nul_free_def NUL_def name_ok_def strptime_ts_def get_number_def isdigit_def isspace_def)

lemma tof_below_file:
  assumes "fs_ok w" "node_at (fs w) (pcomps dir @ [x]) = Some (File c)" "name_ok x"
  shows "\<not> can_list w (tof_name dir x l)"
proof
  let ?below = "[''voxl-logger'', ''log'' @ fmt_04d l, ''run'', ''mpa'', ''tof'']"
  assume "can_list w (tof_name dir x l)"
  then have "node_at (fs w) ((pcomps dir @ [x]) @ ?below) \<noteq> None"
    by (simp add: can_list_def pcomps_tof [OF assms(3)] tof_path_def)
  with st.look_above [of "fs w" "pcomps dir @ [x]" ?below] assms(1)
  have "node_at (fs w) (pcomps dir @ [x]) = Some Dir" unfolding fs_ok_def by blast
  with assms(2) show False by simp
qed

lemma SendNext_placeholder_run:
  assumes "fs_ok w" "can_list w dir" "length dir < 180" "tx_clean csk w"
    and here: "node_at (fs w) (pcomps dir @ [''foobar.txt'']) = Some (File c)"
    and others: "list_all (\<lambda>x. x = ''foobar.txt'' \<or> 0 \<le> dir_time w x)
      (filter dir_entry (children (fs w) (pcomps dir)))"
  shows "\<exists>w'. SendNext z csk logger dir w = (Ret (- 1), w') \<and> quiet (sent csk (ln ''ERROR FINDING NEXT DIR'') w) w'"
proof -
  let ?names = "filter dir_entry (children (fs w) (pcomps dir))" and ?d0 = "tr_d (uninit_tr w)"
  have t: "dir_time w ''foobar.txt'' = - 1" by (simp add: dir_time_def StringToTime_def foobar_name)
  have "dir_entry ''foobar.txt''" by (simp add: dir_entry_iff foobar_name)
  moreover have "''foobar.txt'' \<in> set (children (fs w) (pcomps dir))"
    using assms(1) here by (simp add: children_set fs_ok_def)
  ultimately have mem: "''foobar.txt'' \<in> set ?names" by simp
  then have ne: "?names \<noteq> []" by (metis empty_iff empty_set)
  obtain s where run: "FindFirstDir ?d0 dir w = (Ret (0, fst s), w)"
    and sc: "dir_scan.scanned (dir_time w) s ?names"
    using FindFirstDir_scanned [OF listed_can_list [OF assms(2)], of ?d0] by auto
  obtain d tf tl where s: "s = (d, tf, tl)" by (cases s) auto
  have "nd_count d = int (length ?names)" "tf \<le> - 1"
    "\<exists>x \<in> set ?names. dir_time w x = tf \<and> nd_first d = strncpy x TIMESTAMP_LEN"
    using sc ne mem t unfolding s dir_scan.scanned_def by force+
  then have d: "nd_count d \<noteq> 0" "nd_first d = strncpy ''foobar.txt'' TIMESTAMP_LEN"
    using ne others by (auto simp: list_all_iff)
  then have c: "cstr_of (nd_first d) = Some ''foobar.txt''"
    using foobar_name(1) by (simp add: cstr_of_strncpy TIMESTAMP_LEN_def)
  note step = FindLidarDataInfo_step [OF run [unfolded s fst_conv] d(1) c assms(3)]
  obtain r0 e0 where r0: "DirExists (tof_name dir ''foobar.txt'' 0) w = (Ret r0, w\<lparr>errno_val := e0\<rparr>)" "r0 \<noteq> 1"
    using DirExists_no [OF tof_below_file [OF assms(1) here foobar_name(2)]] by blast
  have "\<not> can_list (w\<lparr>errno_val := e0\<rparr>) (tof_name dir ''foobar.txt'' 1)"
    using tof_below_file [OF assms(1) here foobar_name(2)] by simp
  then obtain r1 e1 where r1: "DirExists (tof_name dir ''foobar.txt'' 1) (w\<lparr>errno_val := e0\<rparr>) =
      (Ret r1, w\<lparr>errno_val := e1\<rparr>)" "r1 \<noteq> 1"
    using DirExists_no [of "w\<lparr>errno_val := e0\<rparr>" "tof_name dir ''foobar.txt'' 1"] by auto
  have "FindLidarDataInfo ?d0 dir w = (Ret (- 1, d), w\<lparr>errno_val := e1\<rparr>)"
    using r0 r1 by (simp add: step mbind_def mret_def)
  then have "FindNextTr (uninit_tr w) dir w = (Ret (- 1, (uninit_tr w)\<lparr>tr_d := d\<rparr>), w\<lparr>errno_val := e1\<rparr>)"
    by (simp add: FindNextTr_def mbind_def Let_def mret_def)
  then have "SendNext z csk logger dir w = (Ret (- 1), (sent csk (ln ''ERROR FINDING NEXT DIR'')
      (w\<lparr>errno_val := e1\<rparr>))\<lparr>err := err w @ ln ''Error finding the next dir''\<rparr>)"
    using assms(4)
    by (simp add: SendNext_def mbind_def mseq_def mget_def mret_def os_eprint_plain tcp_send_clean sent_updates)
  then show ?thesis by (auto simp: quiet_def sent_updates)
qed

end
