(* ===== verification/Server_Effects.thy ===== *)
theory Server_Effects
  imports Server_Spec
begin

text \<open>
  The commands that change something: starting and stopping the logger, and removing a
  point cloud or a recording. Each lemma gives the world after the command exactly: the
  process table, the store and the reply.
\<close>

section \<open>Runs\<close>

lemma os_system_seq: "mseq (os_system c) m w = m (w\<lparr>procs := shell_cmd w c (procs w), fs := shell_fs w c (fs w)\<rparr>)"
  by (simp add: mseq_def mbind_def os_system_def mmod_def)

lemma send_seq: "tx_clean csk w \<Longrightarrow> mseq (tcp_send server_error_handler csk s) (mret r) w = (Ret r, sent csk s w)"
  by (simp add: mseq_def mbind_def mret_def tcp_send_clean)

lemma scan_word_fits:
  assumes "length t < cap" "nul_free t"
  shows "\<exists>a. scan_word cap old (SvStr t # vs) 0 w = (Ret a, w) \<and> cstr_of a = Some t"
  using assms cstr_of_terminated [of t]
  by (intro exI [of _ "store_at (t @ [NUL]) old"])
    (simp add: scan_word_def mret_def, simp add: store_at_def)

lemma scan_word_overflows:
  "cap \<le> length t \<Longrightarrow> scan_word cap old (SvStr t # vs) 0 w = (Undef Buf_Overflow, w)"
  by (simp add: scan_word_def mstop_def)

lemma Start_run:
  assumes c: "word_ok c" "word_ok t" "nul_free t" "length t < 16" "length start + length t < 127"
    and w: "proc_lines w logger ls" "tx_clean csk w"
  shows "Start csk (c @ CHR '' '' # t) start logger w = (Ret 0,
    if ls = [] then (sent csk (ln ''Logging system STARTED'')
      (w\<lparr>procs := shell_cmd w (start @ '' '' @ t) (procs w), fs := shell_fs w (start @ '' '' @ t) (fs w)\<rparr>))\<lparr>out := out w @ ln ''Starting the logging system''\<rparr>
    else (sent csk (ln ''The logging system is already running'') w)
      \<lparr>out := out w @ ln ''Logging system is already active''\<rparr>)"
proof -
  obtain a where a: "scan_word TIMESTAMP_LEN (uninit_array TIMESTAMP_LEN ''Start.timestamp'' w) [SvStr t] 0 w = (Ret a, w)"
    "cstr_of a = Some t"
    using scan_word_fits [of t TIMESTAMP_LEN "uninit_array TIMESTAMP_LEN ''Start.timestamp'' w" "[]" w] c
    unfolding TIMESTAMP_LEN_def by blast
  have cmd: "snprintf 128 ''%s %s'' [FStr start, FStr t] = start @ '' '' @ t"
    using c(5) by (subst snprintf_fits) (simp_all add: line_formats)
  note n = ProcNumber_lines [OF w(1)]
  show ?thesis
  proof (cases "ls = []")
    case True
    have "Start csk (c @ CHR '' '' # t) start logger w =
        mseq (os_system (start @ '' '' @ t)) (mseq (os_print (ln ''Starting the logging system'') [])
          (mseq (tcp_send server_error_handler csk (ln ''Logging system STARTED'')) (mret 0))) w"
      using n True by (simp add: Start_def mbind_def mget_def sscanf_word [OF c(1,2)] a(1) read_cstr_def a(2) mret_def
          Let_def cmd)
    with True w(2) show ?thesis
      by (simp add: os_system_seq os_print_seq plain_lines send_seq sent_updates)
  next
    case False
    have "Start csk (c @ CHR '' '' # t) start logger w =
        mseq (os_print (ln ''Logging system is already active'') [])
          (mseq (tcp_send server_error_handler csk (ln ''The logging system is already running'')) (mret 0)) w"
      using n False by (simp add: Start_def mbind_def mget_def sscanf_word [OF c(1,2)] a(1) read_cstr_def a(2) mret_def
          Let_def)
    with False w(2) show ?thesis
      by (simp add: os_print_seq plain_lines send_seq sent_updates)
  qed
qed

lemma Stop_run:
  assumes "proc_lines w logger ls" "tx_clean csk w"
  shows "Stop csk stop logger w = (Ret 0,
    if ls = [] then (sent csk (ln ''The logging system is NOT running'') w)
      \<lparr>out := out w @ ln ''Logging system is NOT active''\<rparr>
    else (sent csk (ln ''Logging system STOPPED'') (w\<lparr>procs := shell_cmd w stop (procs w), fs := shell_fs w stop (fs w)\<rparr>))
      \<lparr>out := out w @ ln ''Stopping the logging system''\<rparr>)"
  using assms ProcNumber_lines [OF assms(1)]
  by (auto simp: Stop_def mbind_def os_system_seq os_print_seq plain_lines send_seq sent_updates)

lemma Status_run:
  assumes "proc_lines w logger ls" "tx_clean csk w"
  shows "Status csk logger w = (Ret 0, sent csk (ln (if ls = [] then ''STATUS: 0'' else ''STATUS: 1'')) w)"
  using assms ProcNumber_lines [OF assms(1)] by (auto simp: Status_def mbind_def send_seq)

section \<open>Removing one point cloud\<close>

lemma os_remove_file:
  assumes "node_at (fs w) p = Some (File s)" "store_wf (fs w)" "\<not> denied ''remove'' p w" "p \<noteq> []"
  shows "os_remove_at p w = (Ret 0, w\<lparr>fs := del_node p (fs w)\<rparr>)"
proof -
  have "children (fs w) p = []"
    using assms(1,2) st.look_below_None [of "fs w" p] by (simp add: st.kids_Nil_iff)
  with assms show ?thesis by (simp add: os_remove_at_def)
qed

lemma tx_clean_sock: "tx_clean k (w\<lparr>fs := st, out := o1\<rparr>) = tx_clean k w"
  by (simp add: tx_clean_def)

lemma sent_fs: "sent k s (w\<lparr>fs := st\<rparr>) = (sent k s w)\<lparr>fs := st\<rparr>"
  by (simp add: sent_def upd_sock_def)

lemma cloud_format:
  "length (cloud_name dir t l n) < MAX_PATH_LEN \<Longrightarrow>
   snprintf MAX_PATH_LEN ''%s/%s/voxl-logger/log%04d/run/mpa/tof/data_%d.pcd''
     [FStr dir, FStr t, FInt l, FInt n] = cloud_name dir t l n"
  by (subst snprintf_fits) (simp_all add: path_formats)

lemma removed_line:
  assumes "length t < 16" "int32 n"
  shows "os_sprintf (Suc BUFSIZ) (ln ''FILE %d, %s REMOVED'') [FInt n, FStr t] w =
    (Ret (ln (''FILE '' @ fmt_d n @ '', '' @ t @ '' REMOVED'')), w)"
  using assms length_fmt_int32 [OF assms(2)] by (simp add: os_sprintf_def line_formats mret_def BUFSIZ_def)

lemma RemoveFile_scanned:
  assumes c: "word_ok c" "word_ok t" "nul_free t" "length t < 16" "int32 l" "int32 n"
    and fit: "length (cloud_name dir t l n) < MAX_PATH_LEN"
  shows "RemoveFile csk (c @ CHR '' '' # t @ CHR '' '' # fmt_d l @ CHR '' '' # fmt_d n) dir w =
    mbind (os_remove (cloud_name dir t l n)) (\<lambda>r.
      if r \<noteq> 0 then mseq (tcp_send server_error_handler csk (ln ''ERROR DELETING FILE'')) (mret (- 1))
      else mbind (os_sprintf (BUFSIZ + 1) (ln ''FILE %d, %s REMOVED'') [FInt n, FStr t]) (\<lambda>buf.
        mseq (tcp_send server_error_handler csk buf) (mret 0)))
      (w\<lparr>out := out w @ ln (''Removing '' @ cloud_name dir t l n)\<rparr>)"
proof -
  let ?u = "uninit_array TIMESTAMP_LEN ''RemoveFile.timestamp'' w"
  obtain a where a: "scan_word TIMESTAMP_LEN ?u [SvStr t, SvInt l, SvInt n] 0 w = (Ret a, w)" "cstr_of a = Some t"
    using scan_word_fits [of t TIMESTAMP_LEN ?u "[SvInt l, SvInt n]" w] c unfolding TIMESTAMP_LEN_def by blast
  show ?thesis
    by (simp add: RemoveFile_def mbind_mget Let_def sscanf_remove [OF c(1,2,5,6)]
        mbind_Ret a(1) read_cstr_def a(2) cloud_format [OF fit] os_print_seq line_formats cong: if_cong)
qed

lemma RemoveFile_run:
  assumes c: "word_ok c" "word_ok t" "nul_free t" "length t < 16" "int32 l" "int32 n" "CHR ''/'' \<notin> set t"
    and fit: "length (cloud_name dir t l n) < MAX_PATH_LEN"
    and w: "fs_ok w" "tx_clean csk w" "\<not> denied ''remove'' (tof_path dir t l @ [data_name n]) w"
    and here: "node_at (fs w) (tof_path dir t l @ [data_name n]) = Some (File s)"
  shows "RemoveFile csk (c @ CHR '' '' # t @ CHR '' '' # fmt_d l @ CHR '' '' # fmt_d n) dir w =
    (Ret 0, (sent csk (ln (''FILE '' @ fmt_d n @ '', '' @ t @ '' REMOVED'')) w)
      \<lparr>fs := del_node (tof_path dir t l @ [data_name n]) (fs w),
       out := out w @ ln (''Removing '' @ cloud_name dir t l n)\<rparr>)"
proof -
  have p: "pcomps (cloud_name dir t l n) = tof_path dir t l @ [data_name n]"
    using c by (simp add: pcomps_cloud word_name_ok)
  let ?w = "w\<lparr>out := out w @ ln (''Removing '' @ cloud_name dir t l n)\<rparr>"
  have "os_remove (cloud_name dir t l n) ?w =
      (Ret 0, ?w\<lparr>fs := del_node (tof_path dir t l @ [data_name n]) (fs w)\<rparr>)"
    using here w os_remove_file [of ?w "tof_path dir t l @ [data_name n]" s]
    by (simp add: os_remove_def p fs_ok_def denied_def)
  then show ?thesis
    using w(2)
    by (simp add: RemoveFile_scanned [OF c(1-6) fit] mbind_def removed_line [OF c(4,6)] send_seq sent_updates sent_fs)
qed

section \<open>Removing a recording\<close>

lemma unlink_run:
  "os_remove_at p w = (Ret 0, w') \<Longrightarrow> unlink_cb p w = (Ret 0, w')"
  by (simp add: unlink_cb_def mbind_def mseq_def mret_def)

text \<open>
  The walk of \<open>rmrf\<close> reads each directory when it comes to it, while it removes; it takes away
  the entries in the order of the whole subtree before the walk.
\<close>

lemma ftw_entries_file: "node_at (fs w) p \<noteq> Some Dir \<Longrightarrow> ftw_entries p w = []"
  by (simp add: ftw_entries_def)

lemma ftw_remove_here:
  assumes "node_at (fs w) p \<noteq> None" "p \<noteq> []" "children (fs w) p = []" "\<not> denied ''remove'' p w"
  shows "unlink_cb p w = (Ret 0, w\<lparr>fs := del_node p (fs w)\<rparr>)"
  using assms by (intro unlink_run) (auto simp: os_remove_at_def)

lemma ftw_siblings:
  fixes v w :: "'x world_scheme"
  assumes walk: "\<And>c (v :: 'x world_scheme). c \<in> set cs \<Longrightarrow> store_wf (fs v) \<Longrightarrow> node_at (fs v) (p @ [c]) \<noteq> None \<Longrightarrow>
      (\<And>q. prefix (p @ [c]) q \<Longrightarrow> node_at (fs v) q \<noteq> None \<Longrightarrow> length q \<le> length (p @ [c]) + k) \<Longrightarrow> deny v = deny w \<Longrightarrow>
      ftw_walk (Suc k) unlink_cb (p @ [c]) v =
        (Ret 0, v\<lparr>fs := fold del_node (post_order k (fs v) (p @ [c])) (fs v)\<rparr>)"
    and "distinct cs" "store_wf (fs v)" "deny v = deny w" "\<And>c. c \<in> set cs \<Longrightarrow> node_at (fs v) (p @ [c]) \<noteq> None"
    and "\<And>q. prefix p q \<Longrightarrow> node_at (fs v) q \<noteq> None \<Longrightarrow> length q \<le> Suc (length p + k)"
  shows "ftw_loop (ftw_walk (Suc k) unlink_cb) (map (\<lambda>c. p @ [c]) cs) v =
    (Ret 0, v\<lparr>fs := fold del_node (concat (map (\<lambda>c. post_order k (fs v) (p @ [c])) cs)) (fs v)\<rparr>)"
  using assms
proof (induction cs arbitrary: v)
  case Nil
  then show ?case by (simp add: mret_def)
next
  case (Cons c cs)
  let ?rs = "post_order k (fs v) (p @ [c])"
  let ?v = "v\<lparr>fs := fold del_node ?rs (fs v)\<rparr>"
  have bound: "length q \<le> length (p @ [c]) + k" if "prefix (p @ [c]) q" "node_at (fs v) q \<noteq> None" for q
    using Cons.prems(6) [of q] that by (auto dest: append_prefixD)
  have here: "node_at (fs v) (p @ [c]) \<noteq> None" using Cons.prems(5) by simp
  have first: "ftw_walk (Suc k) unlink_cb (p @ [c]) v = (Ret 0, ?v)"
    by (rule Cons.prems(1) [OF _ Cons.prems(3) here bound Cons.prems(4)]) simp_all
  have removal: "st.closed_removal (fs v) ?rs" "set ?rs = {q. prefix (p @ [c]) q \<and> node_at (fs v) q \<noteq> None}"
    using post_order_removal_bounded [OF Cons.prems(3) _ here bound] by simp_all
  then have st: "store_wf (fold del_node ?rs (fs v))"
    "node_at (fold del_node ?rs (fs v)) q = (if q \<in> set ?rs then None else node_at (fs v) q)" for q
    using st.removal_effect [OF Cons.prems(3)] by simp_all
  have other: "node_at (fs ?v) (p @ [d]) \<noteq> None" if "d \<in> set cs" for d
    using that Cons.prems(2,5) by (auto simp: st(2) removal(2))
  have less: "length q \<le> Suc (length p + k)" if "prefix p q" "node_at (fs ?v) q \<noteq> None" for q
    using that Cons.prems(6) [of q] by (auto simp: st(2) split: if_splits)
  have loop: "ftw_loop (ftw_walk (Suc k) unlink_cb) (map (\<lambda>c. p @ [c]) cs) ?v =
      (Ret 0, ?v\<lparr>fs := fold del_node (concat (map (\<lambda>c. post_order k (fs ?v) (p @ [c])) cs)) (fs ?v)\<rparr>)"
    by (rule Cons.IH [OF Cons.prems(1) _ _ _ other less]) (use Cons.prems(2,4) st(1) in simp_all)
  have "post_order k (fs ?v) (p @ [d]) = post_order k (fs v) (p @ [d])" if "d \<in> set cs" for d
    using that Cons.prems(2) post_order_sibling [of ?rs p c d k "fs v"] by (auto simp: removal(2))
  then have "map (\<lambda>c. post_order k (fs ?v) (p @ [c])) cs = map (\<lambda>c. post_order k (fs v) (p @ [c])) cs" by simp
  with first loop [unfolded this] show ?case by (simp add: mbind_def del: ftw_walk.simps)
qed

lemma ftw_walk_run:
  fixes w :: "'x world_scheme"
  assumes "store_wf (fs w)" "p \<noteq> []" "node_at (fs w) p \<noteq> None"
    and "\<And>q. prefix p q \<Longrightarrow> node_at (fs w) q \<noteq> None \<Longrightarrow> length q \<le> length p + k"
    and "\<And>q. prefix p q \<Longrightarrow> \<not> denied ''remove'' q w \<and> \<not> denied ''opendir'' q w"
  shows "ftw_walk (Suc k) unlink_cb p w = (Ret 0, w\<lparr>fs := fold del_node (post_order k (fs w) p) (fs w)\<rparr>)"
  using assms
proof (induction k arbitrary: p w)
  case 0
  have "node_at (fs w) (p @ [c]) = None" for c
    using 0(4) [of "p @ [c]"] by (cases "node_at (fs w) (p @ [c])") auto
  then have "children (fs w) p = []" by (simp add: st.kids_Nil_iff [OF 0(1)])
  with 0 show ?case by (simp add: ftw_entries_def mbind_def mget_def mret_def ftw_remove_here)
next
  case (Suc k)
  have ok: "\<not> denied ''remove'' p w" "\<not> denied ''opendir'' p w" using Suc.prems(5) by simp_all
  note removal = post_order_removal_bounded(1) [OF Suc.prems(1-4)]
  show ?case
  proof (cases "node_at (fs w) p = Some Dir")
    case True
    let ?cs = "children (fs w) p"
    let ?rs = "concat (map (\<lambda>c. post_order k (fs w) (p @ [c])) ?cs)"
    have kid: "node_at (fs w) (p @ [c]) \<noteq> None" if "c \<in> set ?cs" for c
      using that st.kids_set [OF Suc.prems(1)] by blast
    have walk: "ftw_walk (Suc k) unlink_cb (p @ [c]) v =
        (Ret 0, v\<lparr>fs := fold del_node (post_order k (fs v) (p @ [c])) (fs v)\<rparr>)"
      if "c \<in> set ?cs" "store_wf (fs v)" "node_at (fs v) (p @ [c]) \<noteq> None"
        "\<And>q. prefix (p @ [c]) q \<Longrightarrow> node_at (fs v) q \<noteq> None \<Longrightarrow> length q \<le> length (p @ [c]) + k" "deny v = deny w" for c and v :: "'x world_scheme"
    proof (rule Suc.IH [OF that(2) _ that(3,4)])
      show "\<not> denied ''remove'' q v \<and> \<not> denied ''opendir'' q v" if "prefix (p @ [c]) q" for q
        using append_prefixD [OF that] Suc.prems(5) \<open>deny v = deny w\<close> by (simp add: denied_def)
    qed simp_all
    have loop: "ftw_loop (ftw_walk (Suc k) unlink_cb) (map (\<lambda>c. p @ [c]) ?cs) w = (Ret 0, w\<lparr>fs := fold del_node ?rs (fs w)\<rparr>)"
      by (rule ftw_siblings [where w = w, OF walk st.kids_distinct [OF Suc.prems(1)] Suc.prems(1) refl kid])
        (use Suc.prems(4) in simp_all)
    have all: "post_order (Suc k) (fs w) p = ?rs @ [p]" using True by simp
    have last: "node_at (fold del_node ?rs (fs w)) p \<noteq> None" "children (fold del_node ?rs (fs w)) p = []"
      using removal unfolding all st.closed_removal_append by simp_all
    have "unlink_cb p (w\<lparr>fs := fold del_node ?rs (fs w)\<rparr>) = (Ret 0, w\<lparr>fs := fold del_node (?rs @ [p]) (fs w)\<rparr>)"
      using ftw_remove_here [of "w\<lparr>fs := fold del_node ?rs (fs w)\<rparr>" p] last Suc.prems(2) ok(1) by (simp add: denied_def)
    with loop ok(2) True show ?thesis
      by (simp add: all ftw_entries_def mbind_mget mbind_Ret [where m = "ftw_loop (ftw_walk (Suc k) unlink_cb) (map (\<lambda>c. p @ [c]) ?cs)", OF loop]
          ftw_walk.simps(2) [of "Suc k"] del: ftw_walk.simps)
  next
    case False
    then have "children (fs w) p = []"
      using st.look_below_None [OF Suc.prems(1)] by (simp add: st.kids_Nil_iff [OF Suc.prems(1)])
    with False Suc.prems ok show ?thesis
      by (simp add: ftw_entries_def mbind_def mget_def mret_def ftw_remove_here)
  qed
qed

text \<open>The store without a subtree.\<close>

definition without :: "path \<Rightarrow> store \<Rightarrow> store" where
  "without p st = fold del_node (post_order (depth_of st) st p) st"

lemma without_node:
  assumes "store_wf st" "p \<noteq> []" "node_at st p \<noteq> None"
  shows "node_at (without p st) q = (if prefix p q then None else node_at st q)" "store_wf (without p st)"
  using st.removal_effect [OF assms(1) post_order_removal(1) [OF assms]] post_order_removal(2) [OF assms]
  unfolding without_def by auto

lemma rmrf_run:
  assumes "fs_ok w" "pcomps path \<noteq> []" "node_at (fs w) (pcomps path) \<noteq> None"
    and "\<And>q. prefix (pcomps path) q \<Longrightarrow> \<not> denied ''remove'' q w \<and> \<not> denied ''opendir'' q w"
  shows "rmrf path w = (Ret 0, w\<lparr>fs := without (pcomps path) (fs w)\<rparr>)"
  using assms(3) ftw_walk_run [where k = "depth_of (fs w)", OF assms(1) [unfolded fs_ok_def] assms(2,3) depth_of_bound assms(4)]
  by (auto simp: rmrf_def os_nftw_depth_def Let_def without_def simp del: ftw_walk.simps)

lemma RemoveDir_scanned:
  assumes c: "word_ok c" "word_ok t" "nul_free t" "length t < 16" "length dir + length t < 255"
  shows "RemoveDir csk (c @ CHR '' '' # t) dir w = mbind (rmrf (dir @ ''/'' @ t)) (\<lambda>r.
    if r < 0 then mseq (tcp_send server_error_handler csk (ln (''ERROR REMOVING DIR '' @ t))) (mret (- 1))
    else mseq (tcp_send server_error_handler csk (ln (''DIR '' @ t @ '' REMOVED''))) (mret 0)) w"
proof -
  let ?u = "uninit_array TIMESTAMP_LEN ''RemoveDir.timestamp'' w"
  obtain a where a: "scan_word TIMESTAMP_LEN ?u [SvStr t] 0 w = (Ret a, w)" "cstr_of a = Some t"
    using scan_word_fits [of t TIMESTAMP_LEN ?u "[]" w] c unfolding TIMESTAMP_LEN_def by blast
  have fit: "snprintf MAX_PATH_LEN ''%s/%s'' [FStr dir, FStr t] = dir @ ''/'' @ t"
      "snprintf (BUFSIZ + 1) (ln ''ERROR REMOVING DIR %s'') [FStr t] = ln (''ERROR REMOVING DIR '' @ t)"
      "snprintf (BUFSIZ + 1) (ln ''DIR %s REMOVED'') [FStr t] = ln (''DIR '' @ t @ '' REMOVED'')"
    using c(4,5) by (subst snprintf_fits; simp add: path_formats line_formats MAX_PATH_LEN_def BUFSIZ_def)+
  show ?thesis
    unfolding RemoveDir_def Let_def fit
    by (simp add: mbind_mget sscanf_word [OF c(1,2)] mbind_Ret a(1) read_cstr_def a(2) fit [simplified]
        cong: if_cong)
qed

lemma RemoveDir_run:
  assumes c: "word_ok c" "word_ok t" "nul_free t" "length t < 16" "length dir + length t < 255"
    and p: "p = pcomps (dir @ ''/'' @ t)" "p \<noteq> []" "node_at (fs w) p \<noteq> None"
    and w: "fs_ok w" "tx_clean csk w" "\<And>q. prefix p q \<Longrightarrow> \<not> denied ''remove'' q w \<and> \<not> denied ''opendir'' q w"
  shows "RemoveDir csk (c @ CHR '' '' # t) dir w =
    (Ret 0, (sent csk (ln (''DIR '' @ t @ '' REMOVED'')) w)\<lparr>fs := without p (fs w)\<rparr>)"
proof -
  have "rmrf (dir @ ''/'' @ t) w = (Ret 0, w\<lparr>fs := without p (fs w)\<rparr>)"
    using p w by (subst rmrf_run) simp_all
  then show ?thesis
    using w(2) by (simp add: RemoveDir_scanned [OF c] mbind_def send_seq sent_fs)
qed

section \<open>What a command can do to the files\<close>

text \<open>
  The footprint of the commands that act, whatever their outcome: the two that run a script do
  to the files what the script does, and the two that remove leave every other path alone.
\<close>

lemma world_after_mret: "world_after (mseq m (mret b)) w = world_after m w"
  by (cases "m w"; cases "fst (m w)") (auto simp: mseq_def mbind_def mret_def)

lemma system_store:
  assumes "keeps fs pre" "keeps shell_fs pre" "\<And>n. keeps fs (no n)" "keeps fs post"
  shows "fs (world_after (mbind pre (\<lambda>n. if P n then mseq (os_system c) post else no n)) w) \<in> {fs w, shell_fs w c (fs w)}"
proof -
  obtain r v where v: "pre w = (r, v)" by fastforce
  have f: "fs v = fs w" "shell_fs v = shell_fs w"
    using keepsD [OF assms(1) v] keepsD [OF assms(2) v] by simp_all
  have "fs (world_after (no n) v) = fs w" for n using assms(3) f(1) by (simp add: keeps_def)
  moreover have "fs (world_after post u) = fs u" for u using assms(4) by (simp add: keeps_def)
  ultimately show ?thesis
    using f by (cases r) (auto simp: mbind_def v os_system_seq)
qed

lemma keepsD': "keeps f m \<Longrightarrow> f (world_after m w) = f w"
  by (simp add: keeps_def)

lemmas store_kept = fs_frame.control fs_frame.prims(1) fs_frame.send(1)

lemma Stop_store: "fs (world_after (Stop csk stop logger) w) \<in> {fs w, shell_fs w stop (fs w)}"
  unfolding Stop_def by (rule system_store) (intro fs_frame.proc shell_frame.proc store_kept)+

lemma Start_store:
  assumes c: "word_ok c" "word_ok t" "nul_free t" "length t < 16" "length start + length t < 127"
  shows "fs (world_after (Start csk (c @ CHR '' '' # t) start logger) w) \<in> {fs w, shell_fs w (start @ '' '' @ t) (fs w)}"
proof -
  let ?u = "uninit_array TIMESTAMP_LEN ''Start.timestamp'' w"
  obtain a where a: "scan_word TIMESTAMP_LEN ?u [SvStr t] 0 w = (Ret a, w)" "cstr_of a = Some t"
    using scan_word_fits [of t TIMESTAMP_LEN ?u "[]" w] c unfolding TIMESTAMP_LEN_def by blast
  have fit: "snprintf 128 ''%s %s'' [FStr start, FStr t] = start @ '' '' @ t"
    using c(5) by (subst snprintf_fits) (simp_all add: line_formats)
  show ?thesis
    unfolding Start_def Let_def mbind_mget sscanf_word [OF c(1,2)] 
      mbind_Ret [where m = "scan_word TIMESTAMP_LEN ?u [SvStr t] 0", OF a(1)] mbind_Ret [OF read_cstr_run [OF a(2)]] fit
    by (rule system_store) (intro fs_frame.proc shell_frame.proc store_kept)+
qed

lemma keeps_after_out:
  "keeps f m \<Longrightarrow> (\<And>w. f (w\<lparr>out := s w\<rparr>) = f w) \<Longrightarrow> (\<And>w. n w = m (w\<lparr>out := s w\<rparr>)) \<Longrightarrow> keeps f n"
  by (simp add: keeps_def)

lemma RemoveFile_elsewhere:
  assumes "word_ok c" "word_ok t" "nul_free t" "length t < 16" "int32 l" "int32 n"
    and "length (cloud_name dir t l n) < MAX_PATH_LEN" "q \<noteq> pcomps (cloud_name dir t l n)"
  shows "keeps (\<lambda>w :: 'x world_scheme. node_at (fs w) q)
    (RemoveFile csk (c @ CHR '' '' # t @ CHR '' '' # fmt_d l @ CHR '' '' # fmt_d n) dir)"
proof -
  have "keeps (\<lambda>w :: 'x world_scheme. node_at (fs w) q) (mbind (os_remove (cloud_name dir t l n)) (\<lambda>r.
      if r \<noteq> 0 then mseq (tcp_send server_error_handler csk (ln ''ERROR DELETING FILE'')) (mret (- 1))
      else mbind (os_sprintf (BUFSIZ + 1) (ln ''FILE %d, %s REMOVED'') [FInt n, FStr t]) (\<lambda>buf.
        mseq (tcp_send server_error_handler csk buf) (mret 0))))"
    using assms(8) unfolding os_remove_def
    by (intro path_frame.control path_frame.prims path_frame.send keeps_remove_elsewhere) simp
  then show ?thesis by (rule keeps_after_out) (simp_all add: RemoveFile_scanned [OF assms(1-7)])
qed

lemma RemoveDir_elsewhere:
  assumes c: "word_ok c" "word_ok t" "nul_free t" "length t < 16" "length dir + length t < 255"
    and "\<not> prefix (pcomps (dir @ ''/'' @ t)) q"
  shows "keeps (\<lambda>w :: 'x world_scheme. node_at (fs w) q) (RemoveDir csk (c @ CHR '' '' # t) dir)"
proof -
  have "keeps (\<lambda>w :: 'x world_scheme. node_at (fs w) q) (rmrf (dir @ ''/'' @ t))"
    using assms(6) by (intro path_frame.rmrf_if keeps_remove_elsewhere) blast
  then have "keeps (\<lambda>w :: 'x world_scheme. node_at (fs w) q) (mbind (rmrf (dir @ ''/'' @ t)) (\<lambda>r.
    if r < 0 then mseq (tcp_send server_error_handler csk (ln (''ERROR REMOVING DIR '' @ t))) (mret (- 1))
    else mseq (tcp_send server_error_handler csk (ln (''DIR '' @ t @ '' REMOVED''))) (mret 0)))"
    by (intro path_frame.control path_frame.send)
  then show ?thesis unfolding keeps_def RemoveDir_scanned [OF c] by simp
qed

text \<open>The four requests that act, as the dispatch of a command line finds them.\<close>

definition request_word :: "string \<Rightarrow> bool" where
  "request_word t \<longleftrightarrow> word_ok t \<and> nul_free t \<and> length t < 16"

lemma acting_requests:
  fixes w :: "'x world_scheme"
  assumes "nul_free cmd"
  defines "v \<equiv> w\<lparr>out := out w @ vformat (ln ''TCP receive: %s'') [FStr cmd]\<rparr>"
  shows "cmd = ''STOP'' \<Longrightarrow> world_after (server_command z csk cmd) w = world_after (Stop csk PATH_STOP LOGGER_NAME) v"
    "cmd = ''START '' @ t \<Longrightarrow>
      world_after (server_command z csk cmd) w = world_after (Start csk cmd PATH_START LOGGER_NAME) v"
    "cmd = ''REMOVE_DIR '' @ t \<Longrightarrow> world_after (server_command z csk cmd) w = world_after (RemoveDir csk cmd DATA_DIR) v"
    "cmd = ''REMOVE_FILE '' @ t \<Longrightarrow> world_after (server_command z csk cmd) w = world_after (RemoveFile csk cmd DATA_DIR) v"
  using assms(1) unfolding v_def
  by (simp_all add: server_command_def command_tests os_print_seq world_after_mret)

lemma cloud_name_fits:
  assumes "length t < 16" "int32 l" "int32 n"
  shows "length (cloud_name DATA_DIR t l n) < MAX_PATH_LEN"
proof -
  have "\<bar>l\<bar> < 10 ^ 10" using assms(2) by (simp add: int32_def abs_if)
  then show ?thesis
    using assms(1) length_fmt_04d [of l] length_fmt_int32 [OF assms(3)]
    by (simp add: cloud_name_def tof_name_def data_name_eq DATA_DIR_def MAX_PATH_LEN_def)
qed

lemma server_command_footprint:
  fixes w :: "'x world_scheme" and z csk
  assumes "nul_free cmd"
  defines "w' \<equiv> world_after (server_command z csk cmd) w"
  shows "os_ok w \<Longrightarrow> os_ok w'"
    "cmd = ''STOP'' \<Longrightarrow> fs w' \<in> {fs w, shell_fs w PATH_STOP (fs w)}"
    "request_word t \<Longrightarrow> cmd = ''START '' @ t \<Longrightarrow> fs w' \<in> {fs w, shell_fs w (PATH_START @ '' '' @ t) (fs w)}"
    "request_word t \<Longrightarrow> cmd = ''REMOVE_DIR '' @ t \<Longrightarrow> \<not> prefix (pcomps (DATA_DIR @ ''/'' @ t)) q \<Longrightarrow>
      node_at (fs w') q = node_at (fs w) q"
    "request_word t \<Longrightarrow> int32 l \<Longrightarrow> int32 n \<Longrightarrow> cmd = ''REMOVE_FILE '' @ t @ '' '' @ fmt_d l @ '' '' @ fmt_d n \<Longrightarrow>
      q \<noteq> pcomps (cloud_name DATA_DIR t l n) \<Longrightarrow> node_at (fs w') q = node_at (fs w) q"
proof -
  let ?v = "w\<lparr>out := out w @ vformat (ln ''TCP receive: %s'') [FStr cmd]\<rparr>"
  note acts = acting_requests [OF assms(1), where z = z and csk = csk and w = w]
  have c: "word_ok ''START''" "word_ok ''REMOVE_DIR''" "word_ok ''REMOVE_FILE''"
    by (simp_all add: word_ok_def isspace_def)
  show "os_ok w \<Longrightarrow> os_ok w'"
    unfolding w'_def by (rule preserves_os_ok_server_command [unfolded preserves_def, rule_format])
  show "fs w' \<in> {fs w, shell_fs w PATH_STOP (fs w)}" if "cmd = ''STOP''"
    using Stop_store [of csk PATH_STOP LOGGER_NAME ?v] by (simp add: w'_def acts(1) [OF that])
  show "fs w' \<in> {fs w, shell_fs w (PATH_START @ '' '' @ t) (fs w)}" if "request_word t" "cmd = ''START '' @ t"
    using Start_store [OF c(1), of t PATH_START csk LOGGER_NAME ?v] that
    unfolding w'_def acts(2) [OF that(2)] by (simp add: request_word_def PATH_START_def)
  show "node_at (fs w') q = node_at (fs w) q"
    if "request_word t" "cmd = ''REMOVE_DIR '' @ t" "\<not> prefix (pcomps (DATA_DIR @ ''/'' @ t)) q"
    using keepsD' [OF RemoveDir_elsewhere [OF c(2), of t DATA_DIR q csk], of ?v] that
    unfolding w'_def acts(3) [OF that(2)] by (simp add: request_word_def DATA_DIR_def)
  show "node_at (fs w') q = node_at (fs w) q"
    if "request_word t" "int32 l" "int32 n" and cmd: "cmd = ''REMOVE_FILE '' @ t @ '' '' @ fmt_d l @ '' '' @ fmt_d n"
      and "q \<noteq> pcomps (cloud_name DATA_DIR t l n)"
    using keepsD' [OF RemoveFile_elsewhere [OF c(3) _ _ _ that(2,3) cloud_name_fits that(5), of csk], of ?v] that
    unfolding w'_def acts(4) [OF cmd] by (simp add: request_word_def)
qed

end
