(* ===== verification/Server_Props.thy ===== *)
theory Server_Props
  imports Server_Effects
begin

text \<open>The properties of the server, each with a concrete instance on one small store.\<close>

section \<open>A small store\<close>

definition demo_time :: tm where "demo_time = Tm 123 0 2 8 30 0"

definition demo_tof :: path where
  "demo_tof = [''d'', ''20230102-083000'', ''voxl-logger'', ''log0000'', ''run'', ''mpa'', ''tof'']"

definition demo_store :: store where
  "demo_store = map (\<lambda>n. (take n demo_tof, Dir)) [1, 2, 3, 4, 5, 6, 7] @
     [(demo_tof @ [''data_4.pcd''], File ''abc''), (demo_tof @ [''data_3.pcd''], File ''xyz'')]"

definition demo_world :: world where
  "demo_world = plain_world\<lparr>fs := demo_store\<rparr>"

lemma demo_texts:
  "strftime_ts demo_time = ''20230102-083000''" "data_name 4 = ''data_4.pcd''" "data_name 3 = ''data_3.pcd''"
  "fmt_04d 0 = ''0000''" "fmt_d 0 = ''0''" "fmt_d 3 = ''3''" "fmt_d 4 = ''4''" "fmt_d 2 = ''2''"
  by (simp_all add: demo_time_def strftime_ts_def pad2_def pad4_def digit_char_table data_name_eq fmt_d_def
      fmt_04d_def digs_small) (simp add: numeral_eq_Suc)

lemma demo_printable: "printable_tm demo_time"
  by (simp add: demo_time_def printable_tm_def valid_tm_def days_in_month_def days_before_month_def
      month_starts_def leap_def nth_Cons')

lemma demo_tof_path: "tof_path ''d'' ''20230102-083000'' 0 = demo_tof"
  by (simp add: tof_path_def demo_tof_def demo_texts pcomps_def)

lemma demo_name_ok: "name_ok ''20230102-083000''"
  by (simp add: name_ok_def)

lemma demo_keys: "map fst demo_store = map (\<lambda>n. take n demo_tof) [1, 2, 3, 4, 5, 6, 7] @
    [demo_tof @ [''data_4.pcd''], demo_tof @ [''data_3.pcd'']]"
  by (simp add: demo_store_def)

lemma demo_children:
  "children demo_store [''d''] = [''20230102-083000'']" "children demo_store demo_tof = [''data_4.pcd'', ''data_3.pcd'']"
  by (simp_all add: children_def demo_store_def demo_tof_def)

lemma demo_nodes:
  "node_at demo_store [''d''] = Some Dir" "node_at demo_store demo_tof = Some Dir"
  "node_at demo_store (demo_tof @ [''data_3.pcd'']) = Some (File ''xyz'')"
  "node_at demo_store [''d'', ''20230102-083000''] = Some Dir"
  by (simp_all add: node_at_def demo_store_def demo_tof_def)

lemma demo_wf: "store_wf demo_store"
  by (simp add: store_wf_def demo_store_def demo_tof_def node_at_def)

lemma demo_listed: "can_list demo_world ''d''" "can_list demo_world (tof_name ''d'' ''20230102-083000'' 0)"
  by (simp_all add: can_list_def demo_world_def demo_nodes denied_def plain_world_def pcomps_tof demo_name_ok
      demo_tof_path) (simp_all add: pcomps_def demo_nodes)

lemma demo_recordings: "recordings demo_world ''d'' [demo_time] 0 [4, 3]"
proof -
  have "dir_entry ''20230102-083000''"
    using dir_entry_strftime [OF demo_printable] by (simp add: demo_texts)
  moreover have "file_entry ''data_4.pcd''" "file_entry ''data_3.pcd''"
    using file_entry_data_name [of 4] file_entry_data_name [of 3] by (simp_all add: demo_texts)
  moreover have "pcomps ''d'' = [''d'']" by (simp add: pcomps_def)
  moreover have "pcomps (tof_name ''d'' ''20230102-083000'' 0) = demo_tof"
    by (simp add: pcomps_tof demo_name_ok demo_tof_path)
  moreover have "fs demo_world = demo_store" by (simp add: demo_world_def plain_world_def)
  ultimately show ?thesis
    using demo_listed demo_printable
    by (simp add: recordings_def Let_def demo_texts demo_children mktime_mono_def int32_def)
qed

lemma demo_facts:
  "no_stale_error demo_world" "tx_clean 4 demo_world" "malloc_max demo_world < 2 ^ 31" "fs_ok demo_world"
  "proc_lines demo_world ''voxl-logger'' []" "\<not> denied op p demo_world" "fs demo_world = demo_store"
  "signed_char demo_world" "s_rx (socks demo_world 4) = []"
  by (simp_all add: demo_world_def plain_world_def plain_sock_def no_stale_error_def tx_clean_def fs_ok_def demo_wf
      proc_lines_def denied_def)

section \<open>The next file\<close>

text \<open>
  C3. \<open>SendNext\<close> implements the abstract choice \<open>next_reply\<close>: for every store with at least
  one recording it sends exactly the bytes of the chosen reply (a file with its header, or
  one line) and changes nothing but the output of the connection, the messages and the error
  number. The choice is the lowest-numbered point cloud of the oldest recording, WAIT when
  the only recording is still being written and has one file, EMPTY when it has none.
\<close>

theorem SendNext_refines_next_reply:
  assumes "recordings w dir ts l ns" "proc_lines w logger ls" "no_stale_error w" "tx_clean csk w"
    and "zlib_ok z" "malloc_max w < 2 ^ 31" "length ns < 2 ^ 31"
    and "ns \<noteq> [] \<longrightarrow> readable z w (cloud_name dir (strftime_ts (Min (set ts))) l (Min (set ns))) s"
  shows "\<exists>w'. SendNext z csk logger dir w = (Ret 0, w') \<and>
    quiet (sent_all csk (reply_chunks z s (next_reply (length ls) ts l ns)) w) w'"
  by (rule SendNext_run [OF assms])

lemma demo_readable:
  "readable stored_zlib demo_world (cloud_name ''d'' ''20230102-083000'' 0 3) ''xyz''"
  by (simp add: readable_def pcomps_cloud demo_name_ok demo_tof_path demo_texts demo_facts demo_nodes stored_zlib_def)
    (simp add: demo_world_def plain_world_def)

theorem SendNext_refines_next_reply_witness:
  "\<exists>w'. SendNext stored_zlib 4 ''voxl-logger'' ''d'' demo_world = (Ret 0, w') \<and>
     s_tx (socks w' 4) = ln ''SENDING 20230102-083000 0 3 4 2 3 3'' @ ''xyz'' @ ln ''END''"
proof -
  have "next_reply 0 [demo_time] 0 [4, 3] = Rep_SENDING demo_time 0 3 4 2" by (simp add: next_reply_def)
  then have "reply_chunks stored_zlib ''xyz'' (next_reply (length []) [demo_time] 0 [4, 3]) =
      [ln ''SENDING 20230102-083000 0 3 4 2 3 3'', ''xyz'', ln ''END'']"
    by (simp add: file_chunks_def sending_header_def demo_texts packed_def stored_zlib_def)
  moreover have "strftime_ts (Min (set [demo_time])) = ''20230102-083000''" "Min (set [4, 3 :: int]) = 3"
    by (simp_all add: demo_texts)
  ultimately obtain w' where "SendNext stored_zlib 4 ''voxl-logger'' ''d'' demo_world = (Ret 0, w')"
    "quiet (sent_all 4 [ln ''SENDING 20230102-083000 0 3 4 2 3 3'', ''xyz'', ln ''END''] demo_world) w'"
    using SendNext_refines_next_reply [OF demo_recordings demo_facts(5,1,2) stored_zlib_ok demo_facts(3),
        of "''xyz''"] demo_readable by auto
  then show ?thesis
    by (auto simp: quiet_def demo_world_def plain_world_def plain_sock_def elim!: ssubst [of w'])
qed

text \<open>
  C27. Without a recording the answer is NO_TR. The search still reads the uninitialised
  name of the directory it did not find, so that the array must hold a terminator.
\<close>

theorem SendNext_no_recording:
  assumes "can_list w dir" "filter dir_entry (children (fs w) (pcomps dir)) = []"
    and "NUL \<in> set (uninit_array TIMESTAMP_LEN ''SendNext.tr.d.first'' w)"
    and "no_stale_error w" "proc_lines w logger ls" "tx_clean csk w"
  shows "\<exists>w'. SendNext z csk logger dir w = (Ret 0, w') \<and> quiet (sent csk (ln ''NO_TR'') w) w'"
proof -
  obtain x where "cstr_of (uninit_array TIMESTAMP_LEN ''SendNext.tr.d.first'' w) = Some x"
    using assms(3) by (auto simp: cstr_of_def)
  from SendNext_none_run [OF assms(1,2) this assms(4-6)] show ?thesis .
qed

theorem SendNext_no_recording_witness:
  "\<exists>w'. SendNext stored_zlib 4 ''voxl-logger'' ''d'' (plain_world\<lparr>fs := [([''d''], Dir)]\<rparr>) = (Ret 0, w') \<and>
     s_tx (socks w' 4) = ln ''NO_TR''"
proof -
  let ?w = "plain_world\<lparr>fs := [([''d''], Dir)]\<rparr>"
  have d: "pcomps ''d'' = [''d'']" by (simp add: pcomps_def)
  have "can_list ?w ''d''" by (simp add: can_list_def d node_at_def denied_def plain_world_def)
  moreover have "children (fs ?w) (pcomps ''d'') = []" by (simp add: d children_def)
  moreover have "NUL \<in> set (uninit_array TIMESTAMP_LEN ''SendNext.tr.d.first'' ?w)"
    by (simp add: uninit_array_def TIMESTAMP_LEN_def plain_world_def)
  moreover have "no_stale_error ?w" "proc_lines ?w ''voxl-logger'' []" "tx_clean 4 ?w"
    by (simp_all add: no_stale_error_def proc_lines_def tx_clean_def plain_world_defs)
  ultimately obtain w' where "SendNext stored_zlib 4 ''voxl-logger'' ''d'' ?w = (Ret 0, w')"
    "quiet (sent 4 (ln ''NO_TR'') ?w) w'"
    using SendNext_no_recording [of ?w "''d''" "''voxl-logger''" "[]" 4 stored_zlib] by auto
  then show ?thesis by (auto simp: quiet_def plain_world_defs elim!: ssubst [of w'])
qed

text \<open>
  C35. A file whose name is not a date gets the time -1 and is therefore the oldest entry. As
  long as the placeholder \<open>foobar.txt\<close> is in the data directory, every request for the next
  file is answered by an error, whatever recordings are there.
\<close>

theorem SendNext_placeholder_blocks:
  assumes "fs_ok w" "can_list w dir" "length dir < 180" "tx_clean csk w"
    and "node_at (fs w) (pcomps dir @ [''foobar.txt'']) = Some (File c)"
    and "list_all (\<lambda>x. x = ''foobar.txt'' \<or> 0 \<le> dir_time w x) (filter dir_entry (children (fs w) (pcomps dir)))"
  shows "\<exists>w'. SendNext z csk logger dir w = (Ret (- 1), w') \<and> quiet (sent csk (ln ''ERROR FINDING NEXT DIR'') w) w'"
  by (rule SendNext_placeholder_run [OF assms])

theorem SendNext_placeholder_blocks_witness:
  "\<exists>w'. SendNext stored_zlib 4 ''voxl-logger'' ''d''
     (demo_world\<lparr>fs := put_node [''d'', ''foobar.txt''] (File []) demo_store\<rparr>) = (Ret (- 1), w') \<and>
   s_tx (socks w' 4) = ln ''ERROR FINDING NEXT DIR''"
proof -
  let ?w = "demo_world\<lparr>fs := put_node [''d'', ''foobar.txt''] (File []) demo_store\<rparr>"
  have d: "pcomps ''d'' = [''d'']" by (simp add: pcomps_def)
  have "dir_time ?w ''20230102-083000'' = mktime_fixed 0 demo_time 0"
    using dir_time_strftime [OF demo_printable, of ?w] by (simp add: demo_texts demo_world_def plain_world_def)
  also have "\<dots> = 1672648200"
    by (simp add: mktime_fixed_def demo_time_def day_number_def days_before_year_def days_before_month_def
        month_starts_def leap_def)
  finally have t: "0 \<le> dir_time ?w ''20230102-083000''" by simp
  have "store_wf (put_node ([''d''] @ [''foobar.txt'']) (File []) demo_store)"
    using demo_wf demo_nodes by (intro st.wf_put_file) (simp_all add: node_at_def demo_store_def demo_tof_def)
  then have "fs_ok ?w" by (simp add: fs_ok_def)
  moreover have "can_list ?w ''d''" "node_at (fs ?w) (pcomps ''d'' @ [''foobar.txt'']) = Some (File [])"
    by (simp_all add: can_list_def d node_at_put demo_nodes demo_facts denied_def demo_world_def plain_world_def)
  moreover have "children (fs ?w) (pcomps ''d'') = [''20230102-083000'', ''foobar.txt'']"
    by (simp add: d children_def put_node_def demo_store_def demo_tof_def)
  then have "list_all (\<lambda>x. x = ''foobar.txt'' \<or> 0 \<le> dir_time ?w x) (filter dir_entry (children (fs ?w) (pcomps ''d'')))"
    using t by (simp add: list_all_iff)
  moreover have "tx_clean 4 ?w" using demo_facts(2) by simp
  ultimately obtain w' where "SendNext stored_zlib 4 ''voxl-logger'' ''d'' ?w = (Ret (- 1), w')"
    "quiet (sent 4 (ln ''ERROR FINDING NEXT DIR'') ?w) w'"
    using SendNext_placeholder_blocks [of ?w "''d''" 4 "[]" stored_zlib "''voxl-logger''"] by auto
  then show ?thesis
    by (auto simp: quiet_def demo_world_def plain_world_def plain_sock_def elim!: ssubst [of w'])
qed

text \<open>
  C36. \<open>FindNextTr\<close> has no \<open>return\<close> on its successful path. When the value its caller then
  reads happens to be -1, the recording is found and nevertheless reported as missing.
\<close>

theorem SendNext_missing_return:
  assumes "recordings w dir ts l ns" "junk_int w ''FindNextTr.return'' = - 1" "tx_clean csk w"
  shows "\<exists>w'. SendNext z csk logger dir w = (Ret (- 1), w') \<and> quiet (sent csk (ln ''ERROR FINDING NEXT DIR'') w) w'"
proof -
  obtain tr e where "FindNextTr (uninit_tr w) dir w = (Ret (- 1, tr), w\<lparr>errno_val := e\<rparr>)"
    using FindNextTr_run [OF assms(1), of "uninit_tr w"] assms(2) by auto
  then have "SendNext z csk logger dir w = (Ret (- 1), (sent csk (ln ''ERROR FINDING NEXT DIR'')
      (w\<lparr>errno_val := e\<rparr>))\<lparr>err := err w @ ln ''Error finding the next dir''\<rparr>)"
    using assms(3)
    by (simp add: SendNext_def mbind_def mseq_def mget_def mret_def os_eprint_plain tcp_send_clean sent_updates)
  then show ?thesis by (auto simp: quiet_def sent_updates)
qed

theorem SendNext_missing_return_witness:
  "\<exists>w'. SendNext stored_zlib 4 ''voxl-logger'' ''d'' (demo_world\<lparr>junk_int := (\<lambda>_. - 1)\<rparr>) = (Ret (- 1), w')"
proof -
  have "recordings (demo_world\<lparr>junk_int := (\<lambda>_. - 1)\<rparr>) ''d'' [demo_time] 0 [4, 3]"
    using demo_recordings by (simp add: recordings_def can_list_def denied_def mktime_mono_def)
  moreover have "tx_clean 4 (demo_world\<lparr>junk_int := (\<lambda>_. - 1)\<rparr>)" using demo_facts(2) by (simp add: tx_clean_def)
  ultimately show ?thesis
    using SendNext_missing_return [of "demo_world\<lparr>junk_int := (\<lambda>_. - 1)\<rparr>" "''d''" "[demo_time]" 0 "[4, 3]" 4
        stored_zlib "''voxl-logger''"] by auto
qed

section \<open>The logger\<close>

text \<open>
  C17. \<open>Start\<close> runs the start script exactly when no logger is running: the process table
  and the files change by the shell command made of the script and the word of the request,
  unchanged, and otherwise neither changes. The client is told which of the two happened. (The word goes
  to the shell as it is, so that a word such as \<open>x;reboot\<close> is a command of its own.)
\<close>

theorem Start_runs_when_idle:
  assumes "word_ok c" "word_ok t" "nul_free t" "length t < 16" "length start + length t < 127"
    and "proc_lines w logger ls" "tx_clean csk w"
  shows "Start csk (c @ CHR '' '' # t) start logger w = (Ret 0,
    if ls = [] then (sent csk (ln ''Logging system STARTED'')
      (w\<lparr>procs := shell_cmd w (start @ '' '' @ t) (procs w), fs := shell_fs w (start @ '' '' @ t) (fs w)\<rparr>))
      \<lparr>out := out w @ ln ''Starting the logging system''\<rparr>
    else (sent csk (ln ''The logging system is already running'') w)
      \<lparr>out := out w @ ln ''Logging system is already active''\<rparr>)"
  by (rule Start_run [OF assms])

theorem Start_runs_when_idle_witness:
  "procs (world_after (Start 4 (''START'' @ '' x;reboot'') ''start.sh'' ''voxl-logger'')
     (demo_world\<lparr>shell_cmd := (\<lambda>c ps. ps @ [c])\<rparr>)) = [''start.sh x;reboot'']"
proof -
  let ?w = "demo_world\<lparr>shell_cmd := (\<lambda>c ps. ps @ [c])\<rparr>"
  have "proc_lines ?w ''voxl-logger'' []" "tx_clean 4 ?w" using demo_facts(2,5)
    by (simp_all add: proc_lines_def tx_clean_def)
  from Start_runs_when_idle [OF _ _ _ _ _ this, of "''START''" "''x;reboot''" "''start.sh''"] show ?thesis
    by (simp add: word_ok_def isspace_def nul_free_def NUL_def demo_world_def plain_world_def)
qed

text \<open>
  C18. \<open>Stop\<close> runs the stop script exactly when a logger is running, and \<open>Status\<close> answers 1
  exactly then; \<open>Status\<close> changes nothing else.
\<close>

theorem Stop_and_Status:
  assumes "proc_lines w logger ls" "tx_clean csk w"
  shows "Stop csk stop logger w = (Ret 0,
      if ls = [] then (sent csk (ln ''The logging system is NOT running'') w)
        \<lparr>out := out w @ ln ''Logging system is NOT active''\<rparr>
      else (sent csk (ln ''Logging system STOPPED'') 
          (w\<lparr>procs := shell_cmd w stop (procs w), fs := shell_fs w stop (fs w)\<rparr>))
        \<lparr>out := out w @ ln ''Stopping the logging system''\<rparr>) \<and>
    Status csk logger w = (Ret 0, sent csk (ln (if ls = [] then ''STATUS: 0'' else ''STATUS: 1'')) w)"
  using Stop_run [OF assms] Status_run [OF assms] by simp_all

theorem Stop_and_Status_witness:
  "Status 4 ''voxl-logger'' demo_world = (Ret 0, sent 4 (ln ''STATUS: 0'') demo_world)"
  using Stop_and_Status [OF demo_facts(5,2)] by simp

section \<open>Words of a request\<close>

text \<open>
  C33. The words of a request are scanned into arrays of 16 characters (128 for a file name)
  without a limit: one longer word in \<open>START\<close>, \<open>REMOVE_FILE\<close>, \<open>REMOVE_DIR\<close> or
  \<open>SEND_FILE\<close> writes past the end of the array on the stack of the server.
\<close>

theorem long_word_overflows:
  assumes "word_ok c" "word_ok t"
  shows "(16 \<le> length t \<longrightarrow>
      outcome_of (Start csk (c @ CHR '' '' # t) start logger) w = Undef Buf_Overflow \<and>
      outcome_of (RemoveDir csk (c @ CHR '' '' # t) dir) w = Undef Buf_Overflow \<and>
      (int32 l \<and> int32 n \<longrightarrow> outcome_of (RemoveFile csk (c @ CHR '' '' # t @ CHR '' '' # fmt_d l @ CHR '' '' # fmt_d n) dir) w
        = Undef Buf_Overflow)) \<and>
    (128 \<le> length t \<longrightarrow> outcome_of (SendFile z csk (c @ CHR '' '' # t)) w = Undef Buf_Overflow)"
  using assms
  by (auto simp: Start_def RemoveDir_def RemoveFile_def SendFile_def mbind_mget Let_def sscanf_word sscanf_remove
      mbind_def mget_def scan_word_overflows TIMESTAMP_LEN_def MAX_PATH_LEN_def)

theorem long_word_overflows_witness:
  "outcome_of (Start 4 (''START'' @ '' 20230102-0830000'') ''s'' ''l'') demo_world = Undef Buf_Overflow"
  using long_word_overflows [of "''START''" "''20230102-0830000''" 4 "''s''" "''l''" demo_world]
  by (simp add: word_ok_def isspace_def)

section \<open>Removing\<close>

text \<open>
  C9. \<open>RemoveFile\<close> removes exactly the point cloud that the request names by recording,
  logger directory and number: afterwards its path is free, every other path holds what it
  held, the store is well formed, and the client is told the number and the recording.
\<close>

theorem RemoveFile_exact:
  assumes "word_ok c" "word_ok t" "nul_free t" "length t < 16" "int32 l" "int32 n" "CHR ''/'' \<notin> set t"
    and "length (cloud_name dir t l n) < MAX_PATH_LEN" "fs_ok w" "tx_clean csk w"
    and "\<not> denied ''remove'' (tof_path dir t l @ [data_name n]) w"
    and "node_at (fs w) (tof_path dir t l @ [data_name n]) = Some (File s)"
  shows "\<exists>w'. RemoveFile csk (c @ CHR '' '' # t @ CHR '' '' # fmt_d l @ CHR '' '' # fmt_d n) dir w = (Ret 0, w') \<and>
    s_tx (socks w' csk) = s_tx (socks w csk) @ ln (''FILE '' @ fmt_d n @ '', '' @ t @ '' REMOVED'') \<and> fs_ok w' \<and>
    (\<forall>q. node_at (fs w') q = (if q = tof_path dir t l @ [data_name n] then None else node_at (fs w) q))"
proof -
  let ?p = "tof_path dir t l @ [data_name n]"
  have "store_wf (del_node ?p (fs w))"
    using assms(9,12) st.look_below_None [of "fs w" ?p] by (intro st.wf_del) (simp_all add: fs_ok_def)
  with RemoveFile_run [OF assms] show ?thesis by (simp add: node_at_del fs_ok_def)
qed

theorem RemoveFile_exact_witness:
  "\<exists>w'. RemoveFile 4 ''REMOVE_FILE 20230102-083000 0 3'' ''d'' demo_world = (Ret 0, w') \<and>
     s_tx (socks w' 4) = ln ''FILE 3, 20230102-083000 REMOVED'' \<and>
     node_at (fs w') (demo_tof @ [''data_3.pcd'']) = None \<and>
     node_at (fs w') (demo_tof @ [''data_4.pcd'']) = Some (File ''abc'')"
proof -
  have "node_at demo_store (demo_tof @ [''data_4.pcd'']) = Some (File ''abc'')"
    by (simp add: node_at_def demo_store_def demo_tof_def)
  moreover have "s_tx (socks demo_world 4) = []" by (simp add: demo_world_def plain_world_def plain_sock_def)
  moreover have "length (cloud_name ''d'' ''20230102-083000'' 0 3) < MAX_PATH_LEN"
    using length_cloud_name [of 0 3 "''d''" "''20230102-083000''"] by (simp add: MAX_PATH_LEN_def int32_def)
  ultimately show ?thesis
    using RemoveFile_exact [of "''REMOVE_FILE''" "''20230102-083000''" 0 3 "''d''" demo_world 4 "''xyz''"]
    by (auto simp: word_ok_def isspace_def nul_free_def NUL_def int32_def demo_tof_path demo_texts demo_facts
        demo_nodes)
qed

text \<open>
  C8. \<open>RemoveDir\<close> removes exactly a subtree: after a success nothing is left at or below
  the named path, everything outside is unchanged, and the store is well formed; the
  entries are removed one by one, each when it is empty. (A directory that cannot be read
  keeps its entries and is then not empty, hence the condition on \<open>opendir\<close>.)
\<close>

theorem RemoveDir_exact:
  assumes "word_ok c" "word_ok t" "nul_free t" "length t < 16" "length dir + length t < 255"
    and "p = pcomps (dir @ ''/'' @ t)" "p \<noteq> []" "node_at (fs w) p \<noteq> None" "fs_ok w" "tx_clean csk w"
    and "\<And>q. prefix p q \<Longrightarrow> \<not> denied ''remove'' q w \<and> \<not> denied ''opendir'' q w"
  shows "\<exists>w'. RemoveDir csk (c @ CHR '' '' # t) dir w = (Ret 0, w') \<and>
    s_tx (socks w' csk) = s_tx (socks w csk) @ ln (''DIR '' @ t @ '' REMOVED'') \<and> fs_ok w' \<and>
    (\<forall>q. node_at (fs w') q = (if prefix p q then None else node_at (fs w) q))"
  using RemoveDir_run [OF assms] without_node [of "fs w" p] assms(7-9) by (auto simp: fs_ok_def)

theorem RemoveDir_exact_witness:
  "\<exists>w'. RemoveDir 4 ''REMOVE_DIR 20230102-083000'' ''d'' demo_world = (Ret 0, w') \<and>
     node_at (fs w') [''d'', ''20230102-083000''] = None \<and> node_at (fs w') [''d''] = Some Dir"
proof -
  have p: "pcomps (''d'' @ ''/'' @ ''20230102-083000'') = [''d'', ''20230102-083000'']"
    by (simp add: pcomps_def)
  show ?thesis
    using RemoveDir_exact [OF _ _ _ _ _ p [symmetric] _ _ demo_facts(4,2), of "''REMOVE_DIR''"]
    by (auto simp: word_ok_def isspace_def nul_free_def NUL_def demo_facts demo_nodes)
qed

text \<open>
  C34. The request \<open>REMOVE_DIR /\<close> is taken for the name of a recording: its path is the data
  directory itself, and the server removes it with every recording.
\<close>

theorem RemoveDir_slash_removes_all:
  assumes "pcomps dir \<noteq> []" "length dir < 250" "node_at (fs w) (pcomps dir) \<noteq> None" "fs_ok w" "tx_clean csk w"
    and "\<And>q. prefix (pcomps dir) q \<Longrightarrow> \<not> denied ''remove'' q w \<and> \<not> denied ''opendir'' q w"
  shows "\<exists>w'. RemoveDir csk ''REMOVE_DIR /'' dir w = (Ret 0, w') \<and>
    (\<forall>q. prefix (pcomps dir) q \<longrightarrow> node_at (fs w') q = None)"
proof -
  have p: "pcomps (dir @ ''/'' @ ''/'') = pcomps dir"
    using pcomps_append [of dir "''/''"] pcomps_append_slash [of "[]"] by simp
  have c: "word_ok ''REMOVE_DIR''" "word_ok ''/''" "nul_free ''/''" "length ''/'' < 16" "length dir + length ''/'' < 255"
    using assms(2) by (simp_all add: word_ok_def isspace_def nul_free_def NUL_def)
  from RemoveDir_run [OF c p [symmetric] assms(1,3,4,5,6)] without_node [of "fs w" "pcomps dir"] assms(1,3,4)
  show ?thesis by (simp add: fs_ok_def)
qed

theorem RemoveDir_slash_removes_all_witness:
  "\<exists>w'. RemoveDir 4 ''REMOVE_DIR /'' ''d'' demo_world = (Ret 0, w') \<and>
     node_at (fs w') (demo_tof @ [''data_3.pcd'']) = None"
proof -
  have d: "pcomps ''d'' = [''d'']" by (simp add: pcomps_def)
  have "prefix [''d''] (demo_tof @ [''data_3.pcd''])" by (simp add: demo_tof_def)
  then show ?thesis
    using RemoveDir_slash_removes_all [of "''d''" demo_world 4]
    by (auto simp: d demo_facts demo_nodes)
qed

section \<open>Connections\<close>

text \<open>
  C4. The commands of a session are executed one after the other, in the order of their
  lines: however the client's bytes are cut into packets and however far it has sent ahead,
  the loop of the connection ends like the commands alone, with the same files, processes
  and output; only the input still to come differs.
\<close>

theorem session_runs_commands_in_order:
  assumes "reader_ok csk b w" "pending csk b w = concat (map ln cmds) @ rest"
    and "list_all (session_line (signed_char w) cmd) cmds"
  shows "\<exists>es. server_loop z (length cmds) csk b cmd w =
    (outcome_of (serve_all z csk cmds) w, set_rx csk es (world_after (serve_all z csk cmds) w))"
  by (rule server_session_run [OF assms])

theorem session_runs_commands_in_order_witness:
  "\<exists>es. server_loop stored_zlib 2 4 (init_buffer_tcp (replicate (BUFSIZ + 1) NUL)) (replicate 20 NUL)
      (world_with_rx [Data ''ST'', Data (''OP'' @ [nl] @ ''CLO''), Data (''SE'' @ [nl])]) =
    (outcome_of (serve_all stored_zlib 4 [''STOP'', ''CLOSE''])
       (world_with_rx [Data ''ST'', Data (''OP'' @ [nl] @ ''CLO''), Data (''SE'' @ [nl])]),
     set_rx 4 es (world_after (serve_all stored_zlib 4 [''STOP'', ''CLOSE''])
       (world_with_rx [Data ''ST'', Data (''OP'' @ [nl] @ ''CLO''), Data (''SE'' @ [nl])])))"
proof -
  let ?es = "[Data ''ST'', Data (''OP'' @ [nl] @ ''CLO''), Data (''SE'' @ [nl])]"
  let ?b = "init_buffer_tcp (replicate (BUFSIZ + 1) NUL)"
  have "reader_ok 4 ?b (world_with_rx ?es)"
    by (simp add: reader_ok_def init_buffer_tcp_def plain_world_defs rx_clean_def upd_sock_def)
  moreover have "pending 4 ?b (world_with_rx ?es) = concat (map ln [''STOP'', ''CLOSE'']) @ []"
    by (simp add: pending_def unread_def init_buffer_tcp_def plain_world_defs rx_text_def upd_sock_def ln_def)
  moreover have "list_all (session_line (signed_char (world_with_rx ?es)) (replicate 20 NUL)) [''STOP'', ''CLOSE'']"
    by (simp add: session_line_def text_char_def nl_def NUL_def plain_world_defs upd_sock_def)
  ultimately have "\<exists>es. server_loop stored_zlib (length [''STOP'', ''CLOSE'']) 4 ?b (replicate 20 NUL) (world_with_rx ?es) =
    (outcome_of (serve_all stored_zlib 4 [''STOP'', ''CLOSE'']) (world_with_rx ?es),
     set_rx 4 es (world_after (serve_all stored_zlib 4 [''STOP'', ''CLOSE'']) (world_with_rx ?es)))"
    by (rule session_runs_commands_in_order)
  then show ?thesis by (simp only: list.size add_0 One_nat_def Suc_1 plus_nat.simps numeral_2_eq_2)
qed

text \<open>
  C23. The loop does not look at the result of \<open>tcp_readline\<close>: when the client has closed
  without CLOSE, each turn takes the end of the input for an empty command and answers it.
  The child therefore never leaves the loop by itself: with room for \<open>k\<close> answers before the
  system reports the broken pipe, it sends \<open>Not valid command\<close> once per turn for \<open>k\<close> turns and is
  then killed by SIGPIPE, which the server, unlike the client, does not ignore.
\<close>

theorem closed_connection_killed_by_sigpipe:
  assumes "reader_ok csk b w" "pending csk b w = []" "cmd \<noteq> []" "s_open (socks w csk)" "\<not> sigpipe_ign w"
    and "s_wx (socks w csk) = replicate k WrFull @ WrErr EPIPE # es"
  shows "\<exists>w'. server_loop z n csk b cmd w = (if n \<le> k then Still_Running else Sig_Killed, w') \<and>
     s_tx (socks w' csk) = s_tx (socks w csk) @ concat (replicate (min n k) (ln ''Not valid command''))"
  by (rule server_closed_run [OF assms])

theorem closed_connection_killed_by_sigpipe_witness:
  "\<exists>w'. server_loop stored_zlib 5 4 (init_buffer_tcp (replicate (BUFSIZ + 1) NUL)) [NUL]
      (upd_sock 4 (\<lambda>s. s\<lparr>s_wx := [WrFull, WrErr EPIPE]\<rparr>) plain_world) = (Sig_Killed, w') \<and>
     s_tx (socks w' 4) = ln ''Not valid command''"
  using closed_connection_killed_by_sigpipe [of 4 "init_buffer_tcp (replicate (BUFSIZ + 1) NUL)"
      "upd_sock 4 (\<lambda>s. s\<lparr>s_wx := [WrFull, WrErr EPIPE]\<rparr>) plain_world" "[NUL]" 1 "[]" stored_zlib 5]
  by (simp add: reader_ok_def init_buffer_tcp_def plain_world_defs upd_sock_def rx_clean_def pending_def unread_def
      rx_text_def)



text \<open>
  C22. The accepting process serves no request itself: with children created for all
  connections it closes its copy of each one and waits for the next, without a byte read or
  written and without touching files or processes.
\<close>

theorem parent_only_accepts:
  assumes "accepts w = map Some cs" "length cs \<le> length (forks w)" "list_all (\<lambda>p. 0 < p) (forks w)"
    and "\<not> setup_fails w ''socket''" "\<not> setup_fails w ''bind''" "\<not> setup_fails w ''listen''"
  shows "\<exists>w'. server_main z n [prog, ip, port] w = (Still_Running, w') \<and> only_closed (fst ` set cs) w w'"
proof -
  obtain w' where "accept_loop (Suc (length cs)) server_error_handler (server_handler z n) w = (Still_Running, w')"
    "only_closed (fst ` set cs) w w'"
    using accept_parent_run [OF assms(1-3)] by blast
  with assms show ?thesis
    by (auto simp: server_main_def create_tcp_server_def mbind_mget mbind_def mget_def simp del: accept_loop.simps)
qed

theorem parent_only_accepts_witness:
  "\<exists>w'. server_main stored_zlib 5 [''server'', ''127.0.0.1'', ''8000'']
     (plain_world\<lparr>accepts := [Some (7, ''10.0.0.2'', 999)], forks := [321]\<rparr>) = (Still_Running, w') \<and>
   \<not> s_open (socks w' 7) \<and> fs w' = []"
  using parent_only_accepts [of "plain_world\<lparr>accepts := [Some (7, ''10.0.0.2'', 999)], forks := [321]\<rparr>"
      "[(7, ''10.0.0.2'', 999)]" stored_zlib 5 "''server''" "''127.0.0.1''" "''8000''"]
  by (auto simp: plain_world_def only_closed_def)

end
