(* ===== verification/Client_Spec.thy ===== *)
theory Client_Spec
  imports Client_Thread
begin

text \<open>
  What the client does on the level of lines, files and directories. The relation \<open>talk\<close> says
  that a run only read from its connection, wrote to the log and changed the file store to a
  given one; from it follow the runs of a request, of the reception of a file and of the
  creation of a local recording.
\<close>

section \<open>The reader of binary data is a byte source\<close>

lemma binary_getchar_next:
  fixes w :: "'x client_world_scheme"
  assumes ok: "reader_ok sk b w" and pend: "pending sk b w = c # cs"
  shows "\<exists>b' w'. tcp_binary_getchar_bs sk b w = (Ret (char_int (signed_char w) c, b'), w') \<and>
    reader_ok sk b' w' \<and> pending sk b' w' = cs \<and> only_rx sk w w'"
proof (cases "unread b")
  case (Cons d ds)
  have d: "d = c" and cs: "cs = ds @ rx_text (s_rx (socks w sk))" using pend Cons by (auto simp: pending_def)
  note h = unread_Cons [OF Cons] and nx = buffer_next_run [OF Cons ok]
  have "tcp_binary_getchar_bs sk b w = buffer_next b w"
    using ok h by (simp add: tcp_binary_getchar_bs_def reader_ok_def)
  with nx d cs only_rx_refl show ?thesis by (auto simp: pending_def)
next
  case Nil
  obtain bytes es' b1 where read: "os_read sk BUFSIZ w =
      (Ret (int (length bytes), bytes), upd_sock sk (s_rx_update (\<lambda>_. es')) w)"
    and b1: "b1 = b\<lparr>b_dim := int (length bytes), b_buffer := store_at (bytes @ []) (b_buffer b), b_i := 0\<rparr>"
    and ok1: "reader_ok sk b1 (upd_sock sk (s_rx_update (\<lambda>_. es')) w)"
    and un1: "unread b1 = bytes" and rest: "bytes @ rx_text es' = c # cs" "bytes \<noteq> []"
    using reload_ok [OF ok Nil pend, of "[]"] by blast
  let ?w = "upd_sock sk (s_rx_update (\<lambda>_. es')) w"
  obtain ds where bytes: "bytes = c # ds" "cs = ds @ rx_text es'" using rest by (cases bytes) auto
  have "b_i b \<ge> b_dim b" using Nil ok by (auto simp: unread_def reader_ok_def split: if_splits)
  then have "tcp_binary_getchar_bs sk b w = buffer_next b1 ?w"
    by (simp add: tcp_binary_getchar_bs_def tcp_binary_receive_def mbind_def mseq_def mret_def read b1)
  with buffer_next_run [of b1 c ds, OF _ ok1] un1 bytes only_rx_upd show ?thesis
    by (auto simp: pending_def upd_sock_def)
qed

interpretation binary_source: byte_source "tcp_binary_getchar_bs sk" signed_char "pending sk" "reader_ok sk"
  "\<lambda>c. True" "only_rx sk" for sk
proof unfold_locales
  fix b and w :: "'x client_world_scheme" and c cs
  assume "reader_ok sk b w" "pending sk b w = c # cs" True
  from binary_getchar_next [OF this(1,2)]
  show "\<exists>v b' w'. tcp_binary_getchar_bs sk b w = (Ret (v, b'), w') \<and> int_char v = c \<and>
      reader_ok sk b' w' \<and> pending sk b' w' = cs \<and> only_rx sk w w'"
    by auto
next
  fix v w :: "'x client_world_scheme"
  assume "only_rx sk v w"
  then show "signed_char w = signed_char v" by (rule only_rx_keeps) simp
qed (auto intro: only_rx_refl only_rx_trans)

section \<open>Reading, logging and the file store\<close>

definition talk :: "int \<Rightarrow> store \<Rightarrow> 'x client_world_scheme \<Rightarrow> 'x client_world_scheme \<Rightarrow> bool" where
  "talk sk st v w \<longleftrightarrow> (\<exists>es l e. w = upd_sock sk (s_rx_update (\<lambda>_. es)) (v\<lparr>fs := st, log := l, errno_val := e\<rparr>))"

lemma talkI: "w = upd_sock sk (s_rx_update (\<lambda>_. es)) (v\<lparr>fs := st, log := l, errno_val := e\<rparr>) \<Longrightarrow> talk sk st v w"
  by (auto simp: talk_def)

lemma talk_only_rx: "only_rx sk v w \<Longrightarrow> talk sk (fs v) v w"
proof -
  assume "only_rx sk v w"
  then obtain es where w: "w = upd_sock sk (s_rx_update (\<lambda>_. es)) v" by (auto simp: only_rx_def)
  show ?thesis
    by (rule talkI [where es = es and l = "log v" and e = "errno_val v"]) (simp add: w)
qed

lemma talk_refl: "talk sk (fs w) w w"
  by (rule talk_only_rx [OF only_rx_refl])

lemma talk_logged: "talk sk (fs w) w (logged f as w)"
  by (rule talkI [where es = "s_rx (socks w sk)" and e = "errno_val w"]) (simp add: logged_def upd_sock_def)

lemma talk_fs: "talk sk st w (w\<lparr>fs := st, errno_val := e\<rparr>)"
  by (rule talkI [where es = "s_rx (socks w sk)" and l = "log w"]) (simp add: upd_sock_def)

lemma talk_trans: "talk sk st u v \<Longrightarrow> talk sk st' v w \<Longrightarrow> talk sk st' u w"
  by (auto simp: talk_def upd_sock_def) blast

lemma talk_sent: "talk sk st u v \<Longrightarrow> talk sk st (sent sk s u) (sent sk s v)"
proof -
  assume "talk sk st u v"
  then obtain es l e where v: "v = upd_sock sk (s_rx_update (\<lambda>_. es)) (u\<lparr>fs := st, log := l, errno_val := e\<rparr>)"
    by (auto simp: talk_def)
  have eq: "k\<lparr>s_rx := es, s_tx := t, s_wx := x\<rparr> = k\<lparr>s_tx := t, s_wx := x, s_rx := es\<rparr>" for k :: sock and t x
    by (cases k) simp
  show ?thesis
    by (rule talkI [where es = es and l = l and e = e]) (simp add: v upd_sock_def sent_def eq)
qed

lemma talk_sent_all: "talk sk st u v \<Longrightarrow> talk sk st (sent_all sk xs u) (sent_all sk xs v)"
  by (induction xs arbitrary: u v) (auto intro: talk_sent)

text \<open>What such a run leaves alone.\<close>

lemma talk_fields:
  assumes "talk sk st v w"
  shows "fs w = st" "td w = td v" "log_open w = log_open v" "clock w = clock v" "deny w = deny v"
    "malloc_max w = malloc_max v" "blocks w = blocks v" "signed_char w = signed_char v"
    "env_running w = env_running v" "env_status w = env_status v" "junk_str w = junk_str v"
    "junk_int w = junk_int v" "s_open (socks w k) = s_open (socks v k)" "s_wx (socks w k) = s_wx (socks v k)"
    "s_tx (socks w k) = s_tx (socks v k)"
  using assms by (auto simp: talk_def upd_sock_def split: if_splits)

lemma talk_ok: "talk sk st v w \<Longrightarrow> log_ok v \<Longrightarrow> log_ok w"
  "talk sk st v w \<Longrightarrow> tx_clean k w = tx_clean k v"
  by (simp_all add: log_ok_def tx_clean_def talk_fields)

lemma sent_client_fields [simp]:
  "td (sent sk s w) = td w" "log_open (sent sk s w) = log_open w" "clock (sent sk s w) = clock w"
  "log_ok (sent sk s w) = log_ok w" "deny (sent sk s w) = deny w" "malloc_max (sent sk s w) = malloc_max w"
  "signed_char (sent sk s w) = signed_char w" "fs (sent sk s w) = fs w"
  "env_running (sent sk s w) = env_running w" "blocks (sent sk s w) = blocks w"
  by (simp_all add: sent_def upd_sock_def log_ok_def)

lemma sent_all_client_fields [simp]:
  "td (sent_all sk xs w) = td w" "log_ok (sent_all sk xs w) = log_ok w"
  by (induction xs arbitrary: w) simp_all

lemma logged_fields [simp]:
  "td (logged f as w) = td w" "socks (logged f as w) = socks w" "log_ok (logged f as w) = log_ok w"
  "fs (logged f as w) = fs w" "deny (logged f as w) = deny w" "malloc_max (logged f as w) = malloc_max w"
  "signed_char (logged f as w) = signed_char w" "tx_clean sk (logged f as w) = tx_clean sk w"
  "reader_ok sk b (logged f as w) = reader_ok sk b w" "pending sk b (logged f as w) = pending sk b w"
  "env_running (logged f as w) = env_running w"
  by (simp_all add: logged_def log_ok_def tx_clean_def reader_ok_def pending_def)

lemma PrintLog_seq: "log_ok w \<Longrightarrow> mseq (PrintLog f as) m w = m (logged f as w)"
  using PrintLog_run [of w f as] by (auto simp: mseq_def mbind_def)

section \<open>A request of the transmission thread\<close>

text \<open>A line the server may answer: text that fits the array and reports no error.\<close>

definition answer :: "bool \<Rightarrow> string \<Rightarrow> bool" where
  "answer sg s \<longleftrightarrow> list_all (text_char sg) s \<and> s \<noteq> [] \<and> length s \<le> BUFSIZ \<and> take 5 s \<noteq> ''ERROR''"

lemma text_nul_free: "list_all (text_char sg) s \<Longrightarrow> nul_free s"
  by (auto simp: nul_free_def list_all_iff text_char_def)

lemma answer_no_error: "answer sg s \<Longrightarrow> strncmp s ''ERROR'' 5 \<noteq> 0"
  using text_nul_free [of sg s] strncmp_0_iff [of s "''ERROR''" 5]
  by (auto simp: answer_def nul_free_def NUL_def)

lemma reader_ok_sent [simp]: "reader_ok sk b (sent k s w) = reader_ok sk b w"
  "pending sk b (sent k s w) = pending sk b w"
  by (simp_all add: reader_ok_def pending_def sent_def)

text \<open>The array after a line has been read into it.\<close>

definition holds_line :: "string \<Rightarrow> string \<Rightarrow> bool" where
  "holds_line a s \<longleftrightarrow> length a = BUFSIZ + 1 \<and> cstr_of a = Some s"

lemma read_line_run:
  fixes w :: "'x client_world_scheme"
  assumes "reader_ok sk b w" "pending sk b w = line @ nl # rest" "answer (signed_char w) line"
    and "length rec = BUFSIZ + 1"
  shows "\<exists>b' rec' w'. tcp_readline client_error_handler sk b rec w = (Ret (int (length line), b', rec'), w') \<and>
    holds_line rec' line \<and> reader_ok sk b' w' \<and> pending sk b' w' = rest \<and> talk sk (fs w) w w'"
proof -
  have line: "list_all (text_char (signed_char w)) line" "length line < length rec"
    using assms(3,4) by (simp_all add: answer_def)
  from tcp_readline_run [OF assms(1,2) line, of client_error_handler]
  obtain b' w' where "tcp_readline client_error_handler sk b rec w =
      (Ret (int (length line), b', line @ NUL # drop (length line + 1) rec), w')"
    "cstr_of (line @ NUL # drop (length line + 1) rec) = Some line"
    "reader_ok sk b' w'" "pending sk b' w' = rest" "only_rx sk w w'"
    by blast
  with line(2) assms(4) show ?thesis by (auto simp: holds_line_def intro: talk_only_rx)
qed

lemma TcpSendReceiveTT_run:
  assumes "log_ok w" "tx_clean sk w" "reader_ok sk b w" "pending sk b w = line @ nl # rest"
    and "answer (signed_char w) line" "length rec = BUFSIZ + 1"
  shows "\<exists>b' rec' w'. TcpSendReceiveTT sk b cmd rec w = (Ret (0, b', rec'), w') \<and> holds_line rec' line \<and>
    reader_ok sk b' w' \<and> pending sk b' w' = rest \<and> talk sk (fs w) (sent sk cmd w) w'"
proof -
  let ?w = "sent sk cmd w"
  obtain b' rec' w' where read: "tcp_readline client_error_handler sk b rec ?w = (Ret (int (length line), b', rec'), w')"
    and r: "holds_line rec' line" "reader_ok sk b' w'" "pending sk b' w' = rest" "talk sk (fs w) ?w w'"
    using read_line_run [of sk b ?w line rest rec] assms(3-6) by auto
  have ok: "log_ok w'" using talk_ok(1) [OF r(4)] assms(1) by simp
  have "line \<noteq> []" using assms(5) by (simp add: answer_def)
  then have "TcpSendReceiveTT sk b cmd rec w = (Ret (0, b', rec'), logged (ln ''TT - R - %s'') [FStr line] w')"
    using assms(2) read r(1) ok answer_no_error [OF assms(5)]
    by (simp add: TcpSendReceiveTT_def tcp_send_clean mbind_Ret holds_line_def read_cstr_run EOF_def mseq_run mret_run
        PrintLog_seq [simplified mseq_def] )
  moreover have "talk sk (fs w) ?w (logged (ln ''TT - R - %s'') [FStr line] w')"
    using talk_trans [OF r(4) talk_logged] talk_fields(1) [OF r(4)] by metis
  ultimately show ?thesis using r by auto
qed

section \<open>The reception of a file\<close>

lemma talk_blocks: "talk sk st (w\<lparr>blocks := n\<rparr>) v \<Longrightarrow> talk sk st w (v\<lparr>blocks := blocks w\<rparr>)"
  by (auto simp: talk_def upd_sock_def) blast

lemma talk_with_file: "talk sk (fs v) v w \<Longrightarrow> talk sk (put_node (pcomps p) (File s) (fs v)) v (with_file p s w)"
proof -
  assume "talk sk (fs v) v w"
  then obtain es l e where w: "w = upd_sock sk (s_rx_update (\<lambda>_. es)) (v\<lparr>fs := fs v, log := l, errno_val := e\<rparr>)"
    by (auto simp: talk_def)
  show ?thesis
    by (rule talkI [where es = es and l = l and e = e]) (simp add: w with_file_def upd_sock_def)
qed

lemma writable_talk: "talk sk (fs v) v w \<Longrightarrow> writable w p = writable v p"
  by (simp add: writable_def denied_def talk_fields)

lemma answer_END: "answer sg ''END''"
  by (simp add: answer_def text_char_def nl_def NUL_def BUFSIZ_def)

lemma blocks_fields [simp]:
  "reader_ok sk b (w\<lparr>blocks := n\<rparr>) = reader_ok sk b w" "pending sk b (w\<lparr>blocks := n\<rparr>) = pending sk b w"
  "log_ok (v\<lparr>blocks := n\<rparr>) = log_ok v" "writable (w\<lparr>blocks := n\<rparr>) p = writable w p"
  by (simp_all add: reader_ok_def pending_def log_ok_def writable_def denied_def)

lemma recv_block_run:
  fixes w :: "'x client_world_scheme"
  assumes "reader_ok sk b w" "pending sk b w = c @ rest" "length c < 2 ^ 31"
  shows "\<exists>b' w'. receive_buffer sk True (int (length c)) b w = (Ret (c, b'), w') \<and>
    reader_ok sk b' w' \<and> pending sk b' w' = rest \<and> talk sk (fs w) w w'"
proof -
  obtain b' w' where run: "recv_loop (tcp_binary_getchar_bs sk) (length c) b w = (Ret (c, b'), w')"
    and b': "reader_ok sk b' w'" "pending sk b' w' = rest" "only_rx sk w w'"
    using binary_source.recv_block [OF assms(1,2)] by blast
  have "int (length c) < 2 ^ 31" using assms(3) by simp
  then have "nat (min (int (length c)) (2 ^ 31)) = length c" "\<not> 2 ^ 31 \<le> int (length c)" by linarith+
  with run b' show ?thesis
    by (cases c) (auto simp: receive_buffer_def mbind_def mret_def intro: talk_only_rx)
qed

lemma ReceiveAndDecompress_run:
  assumes "log_ok w" "reader_ok sk b w" "pending sk b w = c @ ''END'' @ nl # rest"
    and "z_uncompress z (length s) c = (Z_OK, s)" "writable w p"
    and "length c < 2 ^ 31" "length s < 2 ^ 31" "int (length c) \<le> malloc_max w" "int (length s) \<le> malloc_max w"
  shows "\<exists>b' w'. ReceiveAndDecompress z sk b p (int (length c)) (int (length s)) w =
      (Ret (0, b', int (length s)), w') \<and> reader_ok sk b' w' \<and> pending sk b' w' = rest \<and>
    talk sk (put_node (pcomps p) (File s) (fs w)) w w'"
proof -
  let ?a = "uninit_array (BUFSIZ + 1) ''ReceiveAndDecompress.rec'' w" and ?w = "w\<lparr>blocks := blocks w + 1\<rparr>"
  obtain b1 w1 where block: "receive_buffer sk True (int (length c)) b ?w = (Ret (c, b1), w1)"
    and b1: "reader_ok sk b1 w1" "pending sk b1 w1 = ''END'' @ nl # rest" "talk sk (fs w) ?w w1"
    using recv_block_run [of sk b ?w c "''END'' @ nl # rest"] assms(2,3,6) by auto
  obtain b2 a2 w2 where line: "tcp_readline client_error_handler sk b1 ?a w1 = (Ret (int (length ''END''), b2, a2), w2)"
    and b2: "holds_line a2 ''END''" "reader_ok sk b2 w2" "pending sk b2 w2 = rest" "talk sk (fs w1) w1 w2"
    using read_line_run [OF b1(1,2) answer_END, of ?a] by auto
  have t2: "talk sk (fs ?w) ?w w2" using talk_trans [OF b1(3) b2(4)] talk_fields(1) [OF b1(3)] by simp
  have dec: "decompressor z p c (int (length c)) (int (length s)) w2 = (Ret (0, int (length s)), with_file p s w2)"
    using assms(4,5,7,9) writable_talk [OF t2] talk_fields(6) [OF t2]
    by (intro decompressor_run) simp_all
  let ?w' = "(with_file p s w2)\<lparr>blocks := blocks w\<rparr>"
  have "ReceiveAndDecompress z sk b p (int (length c)) (int (length s)) w = (Ret (0, b2, int (length s)), ?w')"
    using block line b2(1) dec assms(8) talk_fields(7) [OF t2]
    by (simp add: ReceiveAndDecompress_def mbind_mget mbind_Ret os_malloc_def read_cstr_run holds_line_def
        EOF_def mseq_run mret_run os_free_def mmod_run with_file_def)
  moreover have "talk sk (put_node (pcomps p) (File s) (fs w)) w ?w'"
    using talk_blocks [OF talk_with_file [OF t2]] by simp
  moreover have "reader_ok sk b2 ?w' \<and> pending sk b2 ?w' = rest"
    using b2(2,3) by (simp add: reader_ok_def pending_def with_file_def)
  ultimately show ?thesis by blast
qed

end
