(* ===== verification/Client_Store.thy ===== *)
theory Client_Store
  imports Client_Spec
begin

text \<open>
  The local copy of a recording: the directories that \<open>CreateTransmissionDir\<close> makes for it,
  as paths of the store, and the store after all of them exist.
\<close>

section \<open>Names\<close>

definition local_name :: "string \<Rightarrow> int \<Rightarrow> string \<Rightarrow> string" where
  "local_name dir l sub = dir @ ''/voxl-logger/log'' @ fmt_04d l @ ''/'' @ sub"

definition cloud_text :: "string \<Rightarrow> int \<Rightarrow> int \<Rightarrow> string" where
  "cloud_text dir l i = local_name dir l ''run/mpa/tof'' @ ''/data_'' @ fmt_d i @ ''.pcd''"

definition recording_names :: "string \<Rightarrow> int \<Rightarrow> string list" where
  "recording_names dir l =
     (let k = (if l = 0 then 1 else 0)
      in [local_name dir l ''run/mpa/tof'', local_name dir l ''data'', local_name dir l ''etc/modalai'',
          local_name dir k ''run/mpa/vvpx4_body_wrt_local'', local_name dir k ''data'', local_name dir k ''etc/modalai''])"

definition recording_dirs :: "string \<Rightarrow> int \<Rightarrow> store \<Rightarrow> store" where
  "recording_dirs dir l st = fold (\<lambda>p. ensure_dirs (pcomps p)) (recording_names dir l) st"

lemma local_formats:
  "vformat ''%s/voxl-logger/log%04d/run/mpa/tof'' [FStr d, FInt l] = local_name d l ''run/mpa/tof''"
  "vformat ''%s/voxl-logger/log%04d/data'' [FStr d, FInt l] = local_name d l ''data''"
  "vformat ''%s/voxl-logger/log%04d/etc/modalai'' [FStr d, FInt l] = local_name d l ''etc/modalai''"
  "vformat ''%s/voxl-logger/log%04d/run/mpa/vvpx4_body_wrt_local'' [FStr d, FInt l] =
     local_name d l ''run/mpa/vvpx4_body_wrt_local''"
  "vformat ''%s/voxl-logger/log%04d/run/mpa/tof/data_%d.pcd'' [FStr d, FInt l, FInt i] = cloud_text d l i"
  "vformat ''%s/voxl-logger/log%04d/run/mpa/tof/data.csv'' [FStr d, FInt l] = local_name d l ''run/mpa/tof/data.csv''"
  "vformat ''%s/voxl-logger/log%04d/info.json'' [FStr d, FInt l] = local_name d l ''info.json''"
  "vformat ''%s/voxl-logger/log%04d/run/mpa/vvpx4_body_wrt_local/data.csv'' [FStr d, FInt l] =
     local_name d l ''run/mpa/vvpx4_body_wrt_local/data.csv''"
  "vformat ''%s/%s-active'' [FStr d, FStr t] = d @ ''/'' @ t @ ''-active''"
  by (simp_all add: format_simps local_name_def cloud_text_def numeral_eq_Suc)

definition int_name :: "int \<Rightarrow> bool" where
  "int_name l \<longleftrightarrow> \<bar>l\<bar> < 10 ^ 10"

lemma int_name_int32: "int32 l \<Longrightarrow> int_name l"
  by (simp add: int32_def int_name_def abs_if)

lemma length_local_name: "int_name l \<Longrightarrow> length (local_name d l s) \<le> length d + length s + 28"
  using length_fmt_04d [of l] by (simp add: local_name_def int_name_def)

lemma nul_free_append: "nul_free (a @ b) \<longleftrightarrow> nul_free a \<and> nul_free b" "nul_free (c # b) \<longleftrightarrow> c \<noteq> NUL \<and> nul_free b"
  "nul_free []"
  by (auto simp: nul_free_def)

lemma nul_free_local_name: "nul_free d \<Longrightarrow> nul_free s \<Longrightarrow> nul_free (local_name d l s)"
  by (simp add: local_name_def nul_free_append nul_free_fmt_04d) (simp add: NUL_def)

lemma pcomps_local:
  "pcomps (local_name d l s) = pcomps d @ [''voxl-logger'', ''log'' @ fmt_04d l] @ pcomps s"
proof -
  have a: "pcomps ''voxl-logger'' = [''voxl-logger'']" by (rule pcomps_name) (simp add: name_ok_def)
  have b: "pcomps (''log'' @ fmt_04d l) = [''log'' @ fmt_04d l]" by (rule pcomps_name) (simp add: name_ok_def)
  have "local_name d l s = ((d @ CHR ''/'' # ''voxl-logger'') @ CHR ''/'' # (''log'' @ fmt_04d l)) @ CHR ''/'' # s"
    by (simp add: local_name_def)
  then show ?thesis by (simp only: pcomps_append a b) simp
qed

lemma pcomps_cloud_text:
  "pcomps (cloud_text d l i) = pcomps (local_name d l ''run/mpa/tof'') @ [''data_'' @ fmt_d i @ ''.pcd'']"
proof -
  have "name_ok (''data_'' @ fmt_d i @ ''.pcd'')" by (simp add: name_ok_def)
  from pcomps_append_name [OF this, of "local_name d l ''run/mpa/tof''"] show ?thesis
    by (simp add: cloud_text_def)
qed

section \<open>Creating directories\<close>

text \<open>No operation on files is denied.\<close>

definition permissive :: "'x world_scheme \<Rightarrow> bool" where
  "permissive w \<longleftrightarrow> deny w = (\<lambda>_ _. False)"

lemma permissive_denied: "permissive w \<Longrightarrow> \<not> denied a p w"
  by (simp add: permissive_def denied_def)

lemma permissive_updates [simp]:
  "permissive (w\<lparr>fs := st\<rparr>) = permissive w" "permissive (w\<lparr>errno_val := e\<rparr>) = permissive w"
  by (simp_all add: permissive_def)

text \<open>Nothing on the path is a file.\<close>

definition dirs_free :: "store \<Rightarrow> path \<Rightarrow> bool" where
  "dirs_free st p \<longleftrightarrow> (\<forall>q. prefix q p \<longrightarrow> node_at st q \<in> {None, Some Dir})"

lemma dirs_free_ensure: "dirs_free st p \<Longrightarrow> dirs_free (ensure_dirs r st) p"
  by (auto simp: dirs_free_def node_at_ensure_dirs)

lemma MakePath_run:
  assumes "nul_free p" "length p < 255" "permissive w" "dirs_free (fs w) (pcomps p)"
  shows "\<exists>e. MakePath p w = (Ret 0, w\<lparr>fs := ensure_dirs (pcomps p) (fs w), errno_val := e\<rparr>)"
  using make_path_loop_run [of w "[]" "fs w" p MAX_PATH_LEN] assms
  by (simp add: MakePath_def dir_text_def MAX_PATH_LEN_def permissive_denied dirs_free_def)

text \<open>\<open>CreateTransmissionDir\<close> is one \<open>MakePath\<close> after the other.\<close>

fun make_all :: "string list \<Rightarrow> ('x, int) os" where
  "make_all [] = mret 0"
| "make_all (p # ps) = mbind (MakePath p) (\<lambda>r. if r < 0 then mret (- 1) else make_all ps)"

lemma make_all_run:
  assumes "list_all (\<lambda>p. nul_free p \<and> length p < 255 \<and> dirs_free (fs w) (pcomps p)) ps" "permissive w"
  shows "\<exists>e. make_all ps w = (Ret 0, w\<lparr>fs := fold (\<lambda>p. ensure_dirs (pcomps p)) ps (fs w), errno_val := e\<rparr>)"
  using assms
proof (induction ps arbitrary: w)
  case Nil
  have "make_all [] w = (Ret 0, w\<lparr>fs := fold (\<lambda>p. ensure_dirs (pcomps p)) [] (fs w), errno_val := errno_val w\<rparr>)"
    by (simp add: mret_def)
  then show ?case by blast
next
  case (Cons p ps)
  have h: "nul_free p" "length p < 255" "dirs_free (fs w) (pcomps p)" using Cons.prems(1) by simp_all
  obtain e where p: "MakePath p w = (Ret 0, w\<lparr>fs := ensure_dirs (pcomps p) (fs w), errno_val := e\<rparr>)"
    using MakePath_run [OF h(1,2) Cons.prems(2) h(3)] by blast
  let ?w = "w\<lparr>fs := ensure_dirs (pcomps p) (fs w), errno_val := e\<rparr>"
  have "list_all (\<lambda>q. nul_free q \<and> length q < 255 \<and> dirs_free (fs ?w) (pcomps q)) ps"
    using Cons.prems(1) by (simp add: list_all_iff dirs_free_ensure)
  moreover have "permissive ?w" using Cons.prems(2) by simp
  ultimately obtain e' where "make_all ps ?w =
      (Ret 0, ?w\<lparr>fs := fold (\<lambda>p. ensure_dirs (pcomps p)) ps (fs ?w), errno_val := e'\<rparr>)"
    using Cons.IH by blast
  then have "make_all (p # ps) w =
      (Ret 0, w\<lparr>fs := fold (\<lambda>p. ensure_dirs (pcomps p)) (p # ps) (fs w), errno_val := e'\<rparr>)"
    by (simp add: mbind_def p)
  then show ?case by blast
qed

lemma CreateTransmissionDir_make_all:
  assumes "length dir \<le> 180" "int_name l"
  shows "CreateTransmissionDir dir l = make_all (recording_names dir l)"
proof -
  define k :: int where "k = (if l = 0 then 1 else 0)"
  have k: "int_name k" by (simp add: k_def int_name_def)
  have fit: "snprintf MAX_PATH_LEN f [FStr dir, FInt m] = local_name dir m s"
    if "vformat f [FStr dir, FInt m] = local_name dir m s" "length s \<le> 40" "int_name m" for f m s
    using that assms(1) length_local_name [OF that(3), of dir s]
    by (subst snprintf_fits) (simp_all add: MAX_PATH_LEN_def)
  show ?thesis
    unfolding CreateTransmissionDir_def Let_def recording_names_def
    by (fold k_def) (simp add: fit [OF local_formats(1) _ assms(2)] fit [OF local_formats(2) _ assms(2)]
      fit [OF local_formats(3) _ assms(2)] fit [OF local_formats(4) _ k] fit [OF local_formats(2) _ k]
      fit [OF local_formats(3) _ k] cong: if_cong)
qed

text \<open>The store once the local copy exists.\<close>

lemma recording_names_cases:
  "p \<in> set (recording_names dir l) \<Longrightarrow>
   \<exists>m s. p = local_name dir m s \<and> (m = l \<or> m \<in> {0, 1}) \<and> length s \<le> 40 \<and> nul_free s"
  unfolding recording_names_def Let_def set_simps insert_iff empty_iff
  by (elim disjE; (intro exI conjI, assumption)?; simp add: nul_free_def NUL_def)

lemma node_at_recording:
  "node_at (fold (\<lambda>p. ensure_dirs (pcomps p)) ps st) q =
    (if (\<exists>p \<in> set ps. prefix q (pcomps p)) \<and> node_at st q = None then Some Dir else node_at st q)"
proof (induction ps arbitrary: st)
  case (Cons p ps)
  show ?case by (auto simp: Cons.IH node_at_ensure_dirs)
qed simp

lemma CreateTransmissionDir_run:
  assumes "nul_free dir" "length dir \<le> 180" "int_name l" "permissive w"
    and "\<And>p. p \<in> set (recording_names dir l) \<Longrightarrow> dirs_free (fs w) (pcomps p)"
  shows "\<exists>e. CreateTransmissionDir dir l w = (Ret 0, w\<lparr>fs := recording_dirs dir l (fs w), errno_val := e\<rparr>)"
proof -
  have "nul_free p \<and> length p < 255" if p: "p \<in> set (recording_names dir l)" for p
  proof -
    obtain m s where m: "p = local_name dir m s" "m = l \<or> m \<in> {0, 1}" "length s \<le> 40" "nul_free s"
      using recording_names_cases [OF p] by blast
    moreover have "int_name m" using m(2) assms(3) by (auto simp: int_name_def)
    from length_local_name [OF this, of dir s] have "length p < 255" using m(1,3) assms(2) by simp
    ultimately show ?thesis using nul_free_local_name [OF assms(1)] by simp
  qed
  with assms(5) have "list_all (\<lambda>p. nul_free p \<and> length p < 255 \<and> dirs_free (fs w) (pcomps p)) (recording_names dir l)"
    by (simp add: list_all_iff)
  from make_all_run [OF this assms(4)] show ?thesis
    unfolding CreateTransmissionDir_make_all [OF assms(2,3)] recording_dirs_def .
qed

end
