(* ===== verification/Client_Round.thy ===== *)
theory Client_Round
  imports Client_Store
begin

text \<open>
  One round of the transmission thread: the scan of a \<open>SENDING\<close> line, the store after the
  point cloud has been written, and the run of the branch that receives it.
\<close>

section \<open>The local store of a recording\<close>

definition active_name :: "string \<Rightarrow> string" where
  "active_name ts = DATA_DIR @ ''/'' @ ts @ ''-active''"

definition local_store :: "string \<Rightarrow> int \<Rightarrow> store \<Rightarrow> store" where
  "local_store ts l st =
     (if node_at st (pcomps (active_name ts)) = Some Dir then st else recording_dirs (active_name ts) l st)"

text \<open>The name of a recording: a word that fits the array it is scanned into and holds no slash.\<close>

definition rec_name :: "string \<Rightarrow> bool" where
  "rec_name ts \<longleftrightarrow> word_ok ts \<and> list_all (text_char True) ts \<and> CHR ''/'' \<notin> set ts \<and> length ts < TIMESTAMP_LEN"

lemma rec_name_nul_free: "rec_name ts \<Longrightarrow> nul_free ts"
  by (auto simp: rec_name_def intro: text_nul_free)

text \<open>
  There is room for the point cloud: its recording is new, or the directory for point clouds
  exists already.
\<close>

definition storable :: "store \<Rightarrow> string \<Rightarrow> int \<Rightarrow> int \<Rightarrow> bool" where
  "storable st ts l i \<longleftrightarrow> store_wf st \<and> node_at st [DATA_DIR] \<in> {None, Some Dir} \<and>
     (node_at st (pcomps (active_name ts)) = None \<or>
      node_at st (pcomps (local_name (active_name ts) l ''run/mpa/tof'')) = Some Dir) \<and>
     node_at st (pcomps (cloud_text (active_name ts) l i)) \<noteq> Some Dir"

lemma pcomps_active: "rec_name ts \<Longrightarrow> pcomps (active_name ts) = [DATA_DIR, ts @ ''-active'']"
proof -
  assume ts: "rec_name ts"
  have n: "name_ok (ts @ ''-active'')" "name_ok DATA_DIR"
    using ts by (simp_all add: rec_name_def name_ok_def DATA_DIR_def)
  show ?thesis
    using pcomps_append_name [OF n(1), of DATA_DIR] pcomps_name [OF n(2)] by (simp add: active_name_def)
qed

lemma active_text: "rec_name ts \<Longrightarrow> nul_free (active_name ts) \<and> length (active_name ts) < 40"
  using rec_name_nul_free [of ts]
  by (auto simp: rec_name_def active_name_def DATA_DIR_def TIMESTAMP_LEN_def nul_free_def NUL_def)

text \<open>A new recording has free directories.\<close>

lemma new_recording_free:
  assumes "storable st ts l i" "rec_name ts" "node_at st (pcomps (active_name ts)) = None"
  shows "dirs_free st (pcomps (local_name (active_name ts) m s))"
proof -
  have wf: "store_wf st" and d: "node_at st [DATA_DIR] \<in> {None, Some Dir}"
    using assms(1) by (simp_all add: storable_def)
  have below: "node_at st (pcomps (active_name ts) @ us) = None" for us
    using st.look_below_None [OF wf, of "pcomps (active_name ts)" us] assms(3) by (cases us) auto
  have "node_at st q \<in> {None, Some Dir}" if q: "prefix q (pcomps (active_name ts) @ r)" for q r
  proof -
    consider "q = []" | "q = [DATA_DIR]" | us where "q = pcomps (active_name ts) @ us"
      using q unfolding pcomps_active [OF assms(2)] by (auto simp: prefix_Cons)
    then show ?thesis
    proof cases
      case 3
      then show ?thesis using below by simp
    qed (use d in \<open>auto simp: node_at_def\<close>)
  qed
  then show ?thesis unfolding dirs_free_def pcomps_local by blast
qed

lemma active_above: "\<exists>r. pcomps (local_name a l s) = pcomps a @ r \<and> r \<noteq> []"
  by (simp add: pcomps_local)

lemma storable_cases:
  assumes "storable st ts l i"
  obtains (new) "node_at st (pcomps (active_name ts)) = None"
  | (old) "node_at st (pcomps (active_name ts)) = Some Dir"
      "node_at st (pcomps (local_name (active_name ts) l ''run/mpa/tof'')) = Some Dir"
proof (cases "node_at st (pcomps (active_name ts)) = None")
  case False
  then have tof: "node_at st (pcomps (local_name (active_name ts) l ''run/mpa/tof'')) = Some Dir"
    using assms by (auto simp: storable_def)
  obtain r where r: "pcomps (local_name (active_name ts) l ''run/mpa/tof'') = pcomps (active_name ts) @ r" "r \<noteq> []"
    using active_above by blast
  have "node_at st (pcomps (active_name ts)) = Some Dir"
    using st.look_above [of st "pcomps (active_name ts)" r] r tof assms by (simp add: storable_def)
  from this tof show ?thesis by (rule old)
qed (rule new)

text \<open>The store after the directories exist has a place for the file.\<close>

lemma local_store_tof:
  assumes "storable st ts l i"
  shows "node_at (local_store ts l st) (pcomps (local_name (active_name ts) l ''run/mpa/tof'')) = Some Dir"
  using assms
proof (cases rule: storable_cases)
  case new
  let ?p = "local_name (active_name ts) l ''run/mpa/tof''"
  have "node_at st (pcomps ?p) = None"
    using st.look_below_None [of st "pcomps (active_name ts)"] active_above [of "active_name ts" l] new assms
    by (metis option.distinct(1) storable_def)
  moreover have "?p \<in> set (recording_names (active_name ts) l)" by (simp add: recording_names_def Let_def)
  ultimately show ?thesis using new by (auto simp: local_store_def recording_dirs_def node_at_recording)
qed (simp add: local_store_def)

lemma recording_prefix_length:
  "p \<in> set (recording_names dir l) \<Longrightarrow> length (pcomps p) \<le> length (pcomps dir) + 5"
proof -
  assume "p \<in> set (recording_names dir l)"
  then obtain m s where "p = local_name dir m s"
    "s \<in> {''run/mpa/tof'', ''data'', ''etc/modalai'', ''run/mpa/vvpx4_body_wrt_local''}"
    by (auto simp: recording_names_def Let_def split: if_splits)
  then show ?thesis by (auto simp: pcomps_local) (simp_all add: pcomps_def)
qed

lemma local_store_cloud:
  assumes "storable st ts l i"
  shows "node_at (local_store ts l st) (pcomps (cloud_text (active_name ts) l i)) \<noteq> Some Dir"
proof -
  let ?c = "pcomps (cloud_text (active_name ts) l i)"
  have c: "node_at st ?c \<noteq> Some Dir" using assms by (simp add: storable_def)
  have len: "length ?c = length (pcomps (active_name ts)) + 6"
    unfolding pcomps_cloud_text pcomps_local by (simp add: pcomps_def)
  have "\<not> prefix ?c (pcomps p)" if "p \<in> set (recording_names (active_name ts) l)" for p
    using recording_prefix_length [OF that] len prefix_length_le [of ?c "pcomps p"] by linarith
  with c show ?thesis by (auto simp: local_store_def recording_dirs_def node_at_recording)
qed

lemma missing_ENOENT: "dirs_free st (butlast p) \<Longrightarrow> missing_errno st p = ENOENT"
proof -
  assume d: "dirs_free st (butlast p)"
  have "node_at st (take k p) \<in> {None, Some Dir}" if "k < length p" for k
    using d take_is_prefix [of k "butlast p"] that by (auto simp: dirs_free_def take_butlast)
  then show ?thesis by (auto simp: missing_errno_def list_ex_iff)
qed

text \<open>The store stays well formed and ready for the next point cloud of the recording.\<close>

lemma wf_ensure_dirs: "store_wf st \<Longrightarrow> dirs_free st p \<Longrightarrow> store_wf (ensure_dirs p st)"
proof (induction p rule: rev_induct)
  case (snoc c p)
  have d: "dirs_free st p" using snoc.prems(2) by (auto simp: dirs_free_def)
  have "node_at (ensure_dirs p st) p = Some Dir" using d by (auto simp: node_at_ensure_dirs dirs_free_def)
  with snoc.IH [OF snoc.prems(1) d] show ?case
    by (auto simp: ensure_dirs_snoc ensure_dir_def intro: st.wf_put_dir)
qed simp

lemma wf_local_store:
  assumes "storable st ts l i" "rec_name ts"
  shows "store_wf (local_store ts l st)"
  using assms(1)
proof (cases rule: storable_cases)
  case new
  have free: "\<forall>p \<in> set (recording_names (active_name ts) l). dirs_free st (pcomps p)"
    using recording_names_cases new_recording_free [OF assms new] by blast
  have "store_wf (fold (\<lambda>p. ensure_dirs (pcomps p)) ps st')"
    if "store_wf st'" "\<forall>p \<in> set ps. dirs_free st' (pcomps p)" for ps st'
    using that by (induction ps arbitrary: st') (auto simp: wf_ensure_dirs dirs_free_ensure)
  with free new assms(1) show ?thesis by (simp add: local_store_def recording_dirs_def storable_def)
qed (use assms in \<open>simp add: local_store_def storable_def\<close>)

lemma cloud_text_inj: "pcomps (cloud_text a l i) = pcomps (cloud_text a l j) \<longleftrightarrow> i = j"
proof
  assume "pcomps (cloud_text a l i) = pcomps (cloud_text a l j)"
  then have "fmt_d i = fmt_d j" by (simp add: pcomps_cloud_text)
  then show "i = j" using scan_int_fmt_d [of "[]" i] scan_int_fmt_d [of "[]" j] by simp
qed simp

lemma stored_cloud_storable:
  assumes "storable st ts l i" "storable st ts l j" "rec_name ts"
  shows "storable (put_node (pcomps (cloud_text (active_name ts) l i)) (File s) (local_store ts l st)) ts l j"
    (is "storable ?st ts l j")
proof -
  let ?a = "active_name ts" and ?ls = "local_store ts l st"
  let ?tof = "pcomps (local_name ?a l ''run/mpa/tof'')" and ?c = "pcomps (cloud_text ?a l i)"
  have c: "?c = ?tof @ [''data_'' @ fmt_d i @ ''.pcd'']" by (rule pcomps_cloud_text)
  have wf: "store_wf ?ls" by (rule wf_local_store [OF assms(1,3)])
  have tof: "node_at ?ls ?tof = Some Dir" by (rule local_store_tof [OF assms(1)])
  have "store_wf ?st"
    using st.wf_put_file [OF wf tof] local_store_cloud [OF assms(1)] unfolding c by blast
  moreover have nd: "node_at ?st q = (if q = ?c then Some (File s) else node_at ?ls q)" for q
    using c by (simp add: node_at_put)
  have "length ?tof > 1" by (simp add: pcomps_local pcomps_active [OF assms(3)])
  then have ne: "[DATA_DIR] \<noteq> ?c" "?tof \<noteq> ?c" using c by auto
  have "node_at ?st [DATA_DIR] \<in> {None, Some Dir}"
    using assms(1) ne nd by (auto simp: local_store_def recording_dirs_def node_at_recording storable_def)
  moreover have "node_at ?st ?tof = Some Dir" using nd tof ne by simp
  moreover have "node_at ?st (pcomps (cloud_text ?a l j)) \<noteq> Some Dir"
    using nd local_store_cloud [OF assms(2)] by simp
  ultimately show ?thesis by (simp add: storable_def)
qed

text \<open>Nothing that was there is changed, apart from the point cloud.\<close>

lemma local_store_old: "node_at st q \<noteq> None \<Longrightarrow> node_at (local_store ts l st) q = node_at st q"
  by (auto simp: local_store_def recording_dirs_def node_at_recording)

text \<open>The first step of the branch: the directories are there.\<close>

lemma DirExists_dir: "permissive w \<Longrightarrow> node_at (fs w) (pcomps p) = Some Dir \<Longrightarrow> DirExists p w = (Ret 1, w)"
  by (simp add: DirExists_def os_opendir_def mbind_def mret_def permissive_denied Let_def)

lemma DirExists_missing:
  "permissive w \<Longrightarrow> node_at (fs w) (pcomps p) = None \<Longrightarrow> dirs_free (fs w) (butlast (pcomps p)) \<Longrightarrow>
   DirExists p w = (Ret 0, w\<lparr>errno_val := ENOENT\<rparr>)"
  by (simp add: DirExists_def os_opendir_def mbind_def mret_def mget_def permissive_denied Let_def
      fail_with_run missing_ENOENT)

lemma ensure_local_run:
  assumes "storable (fs w) ts l i" "rec_name ts" "int_name l" "permissive w"
  shows "\<exists>e. mbind (DirExists (active_name ts)) (\<lambda>ex.
      mseq (if ex = 0 then mseq (CreateTransmissionDir (active_name ts) l) (mret ()) else mret ()) k) w =
    k (w\<lparr>fs := local_store ts l (fs w), errno_val := e\<rparr>)"
  using assms(1)
proof (cases rule: storable_cases)
  case new
  have "dirs_free (fs w) (butlast (pcomps (active_name ts)))"
    using assms(1) by (auto simp: pcomps_active [OF assms(2)] dirs_free_def storable_def node_at_def prefix_Cons)
  then have ex: "DirExists (active_name ts) w = (Ret 0, w\<lparr>errno_val := ENOENT\<rparr>)"
    using new assms(4) by (intro DirExists_missing)
  have free: "dirs_free (fs w) (pcomps p)" if p: "p \<in> set (recording_names (active_name ts) l)" for p
    using recording_names_cases [OF p] new_recording_free [OF assms(1,2) new] by auto
  obtain e where "CreateTransmissionDir (active_name ts) l (w\<lparr>errno_val := ENOENT\<rparr>) =
      (Ret 0, w\<lparr>fs := recording_dirs (active_name ts) l (fs w), errno_val := e\<rparr>)"
    using CreateTransmissionDir_run [of "active_name ts" l "w\<lparr>errno_val := ENOENT\<rparr>"]
      active_text [OF assms(2)] assms(3,4) free by auto
  with ex new show ?thesis by (auto simp: mbind_def mseq_def mret_def local_store_def)
next
  case old
  then have "DirExists (active_name ts) w = (Ret 1, w)" using assms(4) by (intro DirExists_dir)
  with old show ?thesis
    by (intro exI [of _ "errno_val w"]) (simp add: mbind_def mseq_def mret_def local_store_def)
qed

section \<open>A line that announces a file\<close>

definition sending_line :: "string \<Rightarrow> int \<Rightarrow> int \<Rightarrow> int \<Rightarrow> int \<Rightarrow> int \<Rightarrow> int \<Rightarrow> string" where
  "sending_line ts l i j n olen clen = ''SENDING '' @ ts @ '' '' @ fmt_d l @ '' '' @ fmt_d i @ '' '' @ fmt_d j @
     '' '' @ fmt_d n @ '' '' @ fmt_d olen @ '' '' @ fmt_d clen"

lemma sformat_sending: "sformat ''%*s %s %d %d %d %d %ld %ld'' =
    [SWord False, SSpace, SWord True, SSpace, SInt 32, SSpace, SInt 32, SSpace, SInt 32, SSpace, SInt 32,
     SSpace, SInt 64, SSpace, SInt 64]"
  by (simp add: sformat_simps)

lemma scan_sending:
  assumes "word_ok c" "word_ok ts" "int32 l" "int32 i" "int32 j" "int32 n" "int64 a" "int64 b"
  shows "sscanf (c @ '' '' @ ts @ '' '' @ fmt_d l @ '' '' @ fmt_d i @ '' '' @ fmt_d j @ '' '' @ fmt_d n @ '' '' @
      fmt_d a @ '' '' @ fmt_d b) ''%*s %s %d %d %d %d %ld %ld'' =
    [SvStr ts, SvInt l, SvInt i, SvInt j, SvInt n, SvInt a, SvInt b]"
  using assms
  by (simp add: sscanf_def sformat_sending scan_word_simps fmt_d_word wrap_int_32 wrap_int_64 del: scan.simps(2-6))

lemma sscanf_sending:
  assumes "word_ok ts" "int32 l" "int32 i" "int32 j" "int32 n" "int64 a" "int64 b"
  shows "sscanf (sending_line ts l i j n a b) ''%*s %s %d %d %d %d %ld %ld'' =
    [SvStr ts, SvInt l, SvInt i, SvInt j, SvInt n, SvInt a, SvInt b]"
proof -
  have c: "word_ok ''SENDING''" by (simp add: word_ok_def isspace_def)
  show ?thesis using scan_sending [OF c assms] by (simp add: sending_line_def)
qed

section \<open>The branch that receives a file\<close>

definition with_tr :: "tr_info \<Rightarrow> 'x client_world_scheme \<Rightarrow> 'x client_world_scheme" where
  "with_tr tr w = w\<lparr>td := (td w)\<lparr>t_tr := tr\<rparr>\<rparr>"

lemma locked_set_tr:
  assumes "log_ok w"
  shows "mseq mutex_lock (mseq (set_tr tr) (mseq mutex_unlock k)) w = k (with_tr tr w)"
proof -
  have eq: "(td w)\<lparr>t_tr := tr, t_lock := Mx_Free\<rparr> = (td w)\<lparr>t_tr := tr\<rparr>"
    using assms by (cases "td w") (simp add: log_ok_def)
  show ?thesis
    using assms by (simp add: eq mseq_def mbind_def mutex_lock_def mutex_unlock_def set_tr_def mmod_def log_ok_def with_tr_def)
qed

lemma with_tr_fields [simp]:
  "fs (with_tr tr w) = fs w" "log_ok (with_tr tr w) = log_ok w" "tx_clean sk (with_tr tr w) = tx_clean sk w"
  "reader_ok sk b (with_tr tr w) = reader_ok sk b w" "pending sk b (with_tr tr w) = pending sk b w"
  "signed_char (with_tr tr w) = signed_char w" "permissive (with_tr tr w) = permissive w"
  "malloc_max (with_tr tr w) = malloc_max w" "socks (with_tr tr w) = socks w" "t_tr (td (with_tr tr w)) = tr"
  by (simp_all add: with_tr_def log_ok_def tx_clean_def reader_ok_def pending_def permissive_def)

lemma talk_with_tr: "talk sk st v w \<Longrightarrow> talk sk st (with_tr tr v) (with_tr tr w)"
proof -
  assume "talk sk st v w"
  then obtain es l e where w: "w = upd_sock sk (s_rx_update (\<lambda>_. es)) (v\<lparr>fs := st, log := l, errno_val := e\<rparr>)"
    by (auto simp: talk_def)
  show ?thesis
    by (rule talkI [where es = es and l = l and e = e]) (simp add: w with_tr_def upd_sock_def)
qed

lemma store_fields [simp]:
  "log_ok (v\<lparr>fs := st\<rparr>) = log_ok v" "log_ok (v\<lparr>errno_val := e\<rparr>) = log_ok v"
  "reader_ok sk b (w\<lparr>fs := st\<rparr>) = reader_ok sk b w" "reader_ok sk b (w\<lparr>errno_val := e\<rparr>) = reader_ok sk b w"
  "pending sk b (w\<lparr>fs := st\<rparr>) = pending sk b w" "pending sk b (w\<lparr>errno_val := e\<rparr>) = pending sk b w"
  "tx_clean sk (w\<lparr>fs := st\<rparr>) = tx_clean sk w" "tx_clean sk (w\<lparr>errno_val := e\<rparr>) = tx_clean sk w"
  by (simp_all add: log_ok_def reader_ok_def pending_def tx_clean_def)

definition remove_request :: "string \<Rightarrow> int \<Rightarrow> int \<Rightarrow> string" where
  "remove_request ts l i = ''REMOVE_FILE '' @ ts @ '' '' @ fmt_d l @ '' '' @ fmt_d i"

lemma vformat_remove: "vformat (ln ''REMOVE_FILE %s %d %d'') [FStr ts, FInt l, FInt i] = ln (remove_request ts l i)"
  by (simp add: format_simps ln_def nl_def remove_request_def)

lemma length_remove_request: "int32 l \<Longrightarrow> int32 i \<Longrightarrow> length (remove_request ts l i) \<le> length ts + 36"
  using length_fmt_int32 [of l] length_fmt_int32 [of i] by (simp add: remove_request_def)

lemma length_cloud_text: "int_name l \<Longrightarrow> int32 i \<Longrightarrow> length (cloud_text d l i) \<le> length d + 60"
  using length_local_name [of l d "''run/mpa/tof''"] length_fmt_int32 [of i] by (simp add: cloud_text_def)

text \<open>The compressed bytes \<open>c\<close> unpack to the file \<open>s\<close>, and there is memory for both.\<close>

definition unpacks :: "zlib \<Rightarrow> 'x world_scheme \<Rightarrow> string \<Rightarrow> string \<Rightarrow> bool" where
  "unpacks z w c s \<longleftrightarrow> z_uncompress z (length s) c = (Z_OK, s) \<and> length c < 2 ^ 31 \<and> length s < 2 ^ 31 \<and>
     int (length c) \<le> malloc_max w \<and> int (length s) \<le> malloc_max w"

lemma writable_cloud:
  assumes "permissive w" "node_at (fs w) (pcomps (local_name a l ''run/mpa/tof'')) = Some Dir"
    "node_at (fs w) (pcomps (cloud_text a l i)) \<noteq> Some Dir"
  shows "writable w (cloud_text a l i)"
  using assms by (simp add: writable_def permissive_denied pcomps_cloud_text)

lemma tt_receive_run:
  assumes w: "log_ok w" "tx_clean sk w" "reader_ok sk (tt_b v) w"
    and pend: "pending sk (tt_b v) w = c @ ''END'' @ nl # line @ nl # rest" "answer (signed_char w) line"
    and v: "nd_logger_n (tr_d (tt_tr v)) = l" "nf_first (tr_f (tt_tr v)) = i" "tt_rec_len v = int (length c)"
      "tt_orig_len v = int (length s)" "length (tt_rec v) = BUFSIZ + 1"
    and n: "int32 l" "int32 i" "length dir < 40" "length ts < TIMESTAMP_LEN"
    and z: "unpacks z w c s" and wr: "writable w (cloud_text dir l i)"
  shows "\<exists>b rec w'. tt_receive z sk v ts dir w = (Ret (v\<lparr>tt_b := b, tt_rec := rec\<rparr>), w') \<and>
    holds_line rec line \<and> reader_ok sk b w' \<and> pending sk b w' = rest \<and>
    talk sk (put_node (pcomps (cloud_text dir l i)) (File s) (fs w)) (sent sk (ln (remove_request ts l i)) w) w'"
proof -
  let ?p = "cloud_text dir l i" and ?st = "put_node (pcomps (cloud_text dir l i)) (File s) (fs w)"
  have name: "snprintf MAX_PATH_LEN ''%s/voxl-logger/log%04d/run/mpa/tof/data_%d.pcd'' [FStr dir, FInt l, FInt i] = ?p"
    using length_cloud_text [OF int_name_int32 [OF n(1)] n(2), of dir] n(3)
    by (subst snprintf_fits) (simp_all add: local_formats MAX_PATH_LEN_def)
  have cmd: "os_sprintf MAXCMDLEN (ln ''REMOVE_FILE %s %d %d'') [FStr ts, FInt l, FInt i] =
      mret (ln (remove_request ts l i))"
    using length_remove_request [OF n(1,2), of ts] n(4)
    by (simp add: os_sprintf_def vformat_remove MAXCMDLEN_def TIMESTAMP_LEN_def)
  define w1 where "w1 = logged (ln ''TT - Receiving %s, compressed size: %ld, original size: %ld'')
      [FStr ?p, FInt (int (length c)), FInt (int (length s))] w"
  have t1: "talk sk (fs w) w w1" by (simp add: w1_def talk_logged)
  have h1: "log_ok w1" "reader_ok sk (tt_b v) w1" "pending sk (tt_b v) w1 = c @ ''END'' @ nl # line @ nl # rest"
    "writable w1 ?p" "malloc_max w1 = malloc_max w" "fs w1 = fs w"
    using w pend(1) wr by (simp_all add: w1_def writable_def denied_def)
  obtain b2 w2 where rd: "ReceiveAndDecompress z sk (tt_b v) ?p (int (length c)) (int (length s)) w1 =
      (Ret (0, b2, int (length s)), w2)"
    and r2: "reader_ok sk b2 w2" "pending sk b2 w2 = line @ nl # rest" "talk sk ?st w1 w2"
    using ReceiveAndDecompress_run [OF h1(1,2,3) _ h1(4), of z s] z h1(5,6) by (auto simp: unpacks_def)
  define w3 where "w3 = logged (ln ''TT - Request to remove file %d, dir %s'') [FInt i, FStr ts]
      (logged (ln ''TT - Finished writing %s'') [FStr ?p] w2)"
  have t2: "talk sk ?st w w2" by (rule talk_trans [OF t1 r2(3)])
  have t3: "talk sk ?st w w3"
    using talk_trans [OF talk_trans [OF t2 talk_logged] talk_logged] talk_fields(1) [OF t2]
    by (simp add: w3_def)
  note ok = talk_ok(1) [OF t2 w(1)]
  have h3: "log_ok w3" "tx_clean sk w3" "reader_ok sk b2 w3" "pending sk b2 w3 = line @ nl # rest"
    "answer (signed_char w3) line" "fs w3 = ?st"
    using ok talk_ok(2) [OF t2] w(2) r2(1,2) talk_fields(8) [OF t3] talk_fields(1) [OF t3] pend(2) by (simp_all add: w3_def)
  obtain b3 rec3 w4 where req: "TcpSendReceiveTT sk b2 (ln (remove_request ts l i)) (tt_rec v) w3 =
      (Ret (0, b3, rec3), w4)"
    and r4: "holds_line rec3 line" "reader_ok sk b3 w4" "pending sk b3 w4 = rest"
      "talk sk ?st (sent sk (ln (remove_request ts l i)) w3) w4"
    using TcpSendReceiveTT_run [OF h3(1-5) v(5)] h3(6) by metis
  have eq: "v\<lparr>tt_orig_len := int (length s), tt_b := b3, tt_rec := rec3\<rparr> = v\<lparr>tt_b := b3, tt_rec := rec3\<rparr>"
    using v(4) by (cases v) simp
  have "tt_receive z sk v ts dir w = (Ret (v\<lparr>tt_b := b3, tt_rec := rec3\<rparr>), w4)"
    using rd ok req
    by (simp add: tt_receive_def v name cmd PrintLog_seq w(1) Let_def mbind_Ret mseq_run mret_run tt_request_def
        PrintLog_seq [unfolded mseq_def] flip: w1_def) (simp add: w3_def mbind_def mret_def eq)
  moreover have "talk sk ?st (sent sk (ln (remove_request ts l i)) w) w4"
    by (rule talk_trans [OF talk_sent [OF t3] r4(4)])
  ultimately show ?thesis using r4 by auto
qed

text \<open>The whole branch for a \<open>SENDING\<close> line.\<close>

definition sending_tr :: "string \<Rightarrow> int \<Rightarrow> int \<Rightarrow> int \<Rightarrow> int \<Rightarrow> tr_info \<Rightarrow> bool" where
  "sending_tr ts l i j n tr \<longleftrightarrow> cstr_of (nd_first (tr_d tr)) = Some ts \<and> nd_logger_n (tr_d tr) = l \<and>
     nf_first (tr_f tr) = i \<and> nf_last (tr_f tr) = j \<and> nf_count (tr_f tr) = n"

lemma tt_sending_run:
  assumes w: "log_ok w" "tx_clean sk w" "reader_ok sk (tt_b v) w" "permissive w"
    and pend: "pending sk (tt_b v) w = c @ ''END'' @ nl # line @ nl # rest" "answer (signed_char w) line"
    and v: "holds_line (tt_rec v) (sending_line ts l i j n (int (length s)) (int (length c)))"
      "length (tt_dir v) = MAX_REL_PATH_LEN"
    and n: "rec_name ts" "int32 l" "int32 i" "int32 j" "int32 n"
    and z: "unpacks z w c s" and st: "storable (fs w) ts l i"
  shows "\<exists>v' tr w'. tt_sending z sk v w = (Ret v', w') \<and> sending_tr ts l i j n tr \<and>
    holds_line (tt_rec v') line \<and> reader_ok sk (tt_b v') w' \<and> pending sk (tt_b v') w' = rest \<and>
    cstr_of (tt_dir v') = Some (active_name ts) \<and> length (tt_dir v') = MAX_REL_PATH_LEN \<and>
    talk sk (put_node (pcomps (cloud_text (active_name ts) l i)) (File s) (local_store ts l (fs w)))
      (sent sk (ln (remove_request ts l i)) (with_tr tr w)) w'"
proof -
  let ?a = "active_name ts"
  define vs where "vs = [SvStr ts, SvInt l, SvInt i, SvInt j, SvInt n, SvInt (int (length s)), SvInt (int (length c))]"
  define A where "A = store_at (ts @ [NUL]) (nd_first (tr_d (tt_tr v)))"
  define tr where "tr = tr_scanned vs A (tt_tr v)"
  have ts: "word_ok ts" "nul_free ts" "length ts < TIMESTAMP_LEN"
    using n(1) rec_name_nul_free [OF n(1)] by (simp_all add: rec_name_def)
  have i64: "int64 (int (length s))" "int64 (int (length c))" using z by (simp_all add: unpacks_def int64_def)
  note scan = sscanf_sending [OF ts(1) n(2-5) i64, folded vs_def]
  have word: "scan_word TIMESTAMP_LEN (nd_first (tr_d (tt_tr v))) vs 0 = mret A"
    using ts(3) by (simp add: scan_word_def vs_def A_def)
  have first: "cstr_of A = Some ts" using cstr_of_terminated [OF ts(2)] by (simp add: A_def store_at_def)
  have tr: "sending_tr ts l i j n tr" using first by (simp add: sending_tr_def tr_def tr_scanned_def vs_def)
  have dir: "snprintf MAX_REL_PATH_LEN ''%s/%s-active'' [FStr DATA_DIR, FStr ts] = ?a"
    using ts(3) by (subst snprintf_fits)
      (simp_all add: local_formats active_name_def DATA_DIR_def MAX_REL_PATH_LEN_def MAX_PATH_LEN_def TIMESTAMP_LEN_def)
  define v1 where "v1 = v\<lparr>tt_dir := store_at (?a @ [NUL]) (tt_dir v), tt_tr := tr,
      tt_rec_len := int (length c), tt_orig_len := int (length s)\<rparr>"
  obtain e where ens: "mbind (DirExists ?a) (\<lambda>ex.
      mseq (if ex = 0 then mseq (CreateTransmissionDir ?a l) (mret ()) else mret ()) (tt_receive z sk v1 ts ?a))
      (with_tr tr w) = tt_receive z sk v1 ts ?a ((with_tr tr w)\<lparr>fs := local_store ts l (fs w), errno_val := e\<rparr>)"
    using ensure_local_run [of "with_tr tr w" ts l i "tt_receive z sk v1 ts ?a"] st n(1) int_name_int32 [OF n(2)] w(4)
    by auto
  define w2 where "w2 = (with_tr tr w)\<lparr>fs := local_store ts l (fs w), errno_val := e\<rparr>"
  have run: "tt_sending z sk v w = tt_receive z sk v1 ts ?a w2"
    using v(1) tr ens first
    by (simp add: tt_sending_def holds_line_def read_cstr_run mbind_Ret scan Let_def word locked_set_tr [OF w(1)] dir
        sending_tr_def flip: tr_def w2_def cong: if_cong) (simp add: v1_def vs_def)
  have t2: "talk sk (local_store ts l (fs w)) (with_tr tr w) w2" unfolding w2_def by (rule talk_fs)
  have wr: "writable w2 (cloud_text ?a l i)"
    using w(4) local_store_tof [OF st] local_store_cloud [OF st] by (intro writable_cloud) (simp_all add: w2_def)
  have a: "length ?a < 40" "nul_free ?a" using active_text [OF n(1)] by simp_all
  have h1: "nd_logger_n (tr_d (tt_tr v1)) = l" "nf_first (tr_f (tt_tr v1)) = i" "tt_rec_len v1 = int (length c)"
      "tt_orig_len v1 = int (length s)" "length (tt_rec v1) = BUFSIZ + 1"
    using tr v(1) by (simp_all add: v1_def sending_tr_def holds_line_def)
  have h2: "log_ok w2" "tx_clean sk w2" "reader_ok sk (tt_b v1) w2" "pending sk (tt_b v1) w2 = c @ ''END'' @ nl # line @ nl # rest"
      "answer (signed_char w2) line" "unpacks z w2 c s"
    using w pend z by (simp_all add: w2_def v1_def unpacks_def)
  obtain b rec w' where rc: "tt_receive z sk v1 ts ?a w2 = (Ret (v1\<lparr>tt_b := b, tt_rec := rec\<rparr>), w')"
    and r: "holds_line rec line" "reader_ok sk b w'" "pending sk b w' = rest"
      "talk sk (put_node (pcomps (cloud_text ?a l i)) (File s) (fs w2)) (sent sk (ln (remove_request ts l i)) w2) w'"
    using tt_receive_run [OF h2(1-5) h1 n(2,3) a(1) ts(3) h2(6) wr] by blast
  have "talk sk (put_node (pcomps (cloud_text ?a l i)) (File s) (local_store ts l (fs w)))
      (sent sk (ln (remove_request ts l i)) (with_tr tr w)) w'"
    using talk_trans [OF talk_sent [OF t2] r(4)] by (simp add: w2_def)
  moreover have "cstr_of (tt_dir v1) = Some ?a"
    using cstr_of_terminated [OF a(2)] by (simp add: v1_def store_at_def)
  moreover have "length (tt_dir v1) = MAX_REL_PATH_LEN"
    using v(2) a(1) by (simp add: v1_def length_store_at MAX_REL_PATH_LEN_def MAX_PATH_LEN_def)
  ultimately show ?thesis using run rc r tr by auto
qed

section \<open>A round that receives a file\<close>

lemma text_char_True: "text_char True c \<Longrightarrow> text_char sg c"
  by (simp add: text_char_def)

lemma text_fmt_d: "list_all (text_char sg) (fmt_d i)"
proof -
  have "text_char True c" if "c \<in> set (digs n)" for c n
    using digs_all [OF that] by (auto simp: text_char_def isdigit_def nl_def NUL_def)
  then have "text_char True c" if "c \<in> set (fmt_d i)" for c
    using that by (auto simp: fmt_d_def text_char_def nl_def NUL_def split: if_splits)
  then show ?thesis by (simp add: list_all_iff text_char_True)
qed

lemma answer_sending:
  assumes "rec_name ts" "int32 l" "int32 i" "int32 j" "int32 n" "int64 a" "int64 b"
  shows "answer sg (sending_line ts l i j n a b)"
proof -
  have "list_all (text_char sg) ts" using assms(1) by (auto simp: rec_name_def list_all_iff text_char_True)
  moreover have "length (sending_line ts l i j n a b) \<le> 8 + length ts + 4 * 12 + 2 * 21"
    using assms(2-5) [THEN length_fmt_int32] assms(6,7) [THEN length_fmt_int64] by (simp add: sending_line_def)
  then have "length (sending_line ts l i j n a b) \<le> BUFSIZ"
    using assms(1) by (simp add: rec_name_def TIMESTAMP_LEN_def BUFSIZ_def)
  ultimately show ?thesis
    by (simp add: answer_def sending_line_def text_fmt_d) (simp add: text_char_def nl_def NUL_def)
qed

lemma starts_with: "nul_free (p @ t) \<Longrightarrow> strncmp (p @ t) q (length q) = 0 \<longleftrightarrow> take (length q) (p @ t) = q"
  if "nul_free q"
  using that strncmp_0_iff [of "p @ t" q "length q"] by simp

lemma tt_request_run:
  assumes "log_ok w" "tx_clean sk w" "reader_ok sk (tt_b v) w" "pending sk (tt_b v) w = line @ nl # rest"
    and "answer (signed_char w) line" "length (tt_rec v) = BUFSIZ + 1"
  shows "\<exists>b rec w'. tt_request sk cmd v w = (Ret (v\<lparr>tt_b := b, tt_rec := rec\<rparr>), w') \<and> holds_line rec line \<and>
    reader_ok sk b w' \<and> pending sk b w' = rest \<and> talk sk (fs w) (sent sk cmd w) w'"
proof -
  obtain b rec w' where run: "TcpSendReceiveTT sk (tt_b v) cmd (tt_rec v) w = (Ret (0, b, rec), w')"
    and r: "holds_line rec line" "reader_ok sk b w'" "pending sk b w' = rest" "talk sk (fs w) (sent sk cmd w) w'"
    using TcpSendReceiveTT_run [OF assms] by blast
  have "tt_request sk cmd v w = (Ret (v\<lparr>tt_b := b, tt_rec := rec\<rparr>), w')"
    by (simp add: tt_request_def mbind_def mret_def run)
  with r show ?thesis by blast
qed

text \<open>The first words of the answers tell the branches apart.\<close>

lemma tt_wait_done:
  assumes "holds_line (tt_rec v) line" "nul_free line" "take 4 line \<noteq> ''WAIT''"
  shows "tt_wait (Suc n) sk v w = (Ret v, w)"
proof -
  have "strncmp line ''WAIT'' 4 \<noteq> 0"
    using assms(2,3) strncmp_0_iff [of line "''WAIT''" 4] by (simp add: nul_free_def NUL_def)
  with assms(1) show ?thesis by (simp add: holds_line_def read_cstr_run mbind_def mret_def)
qed

text \<open>The answer to the removal of a file, which the thread finds in \<open>rec\<close> after the branch.\<close>

definition plain_answer :: "bool \<Rightarrow> string \<Rightarrow> bool" where
  "plain_answer sg line \<longleftrightarrow> answer sg line \<and> take 5 line \<noteq> ''EMPTY''"

lemma tt_round_sending:
  assumes w: "log_ok w" "tx_clean sk w" "reader_ok sk (tt_b v) w" "permissive w"
    and pend: "pending sk (tt_b v) w = sending_line ts l i j n (int (length s)) (int (length c)) @ nl #
      c @ ''END'' @ nl # line @ nl # rest" "plain_answer (signed_char w) line"
    and v: "length (tt_rec v) = BUFSIZ + 1" "length (tt_dir v) = MAX_REL_PATH_LEN"
    and n: "rec_name ts" "int32 l" "int32 i" "int32 j" "int32 n"
    and z: "unpacks z w c s" and st: "storable (fs w) ts l i"
  shows "\<exists>v' tr w'. tt_round z (Suc k) sk v w = (Ret v', w') \<and> sending_tr ts l i j n tr \<and>
    holds_line (tt_rec v') line \<and> reader_ok sk (tt_b v') w' \<and> pending sk (tt_b v') w' = rest \<and>
    cstr_of (tt_dir v') = Some (active_name ts) \<and> length (tt_dir v') = MAX_REL_PATH_LEN \<and>
    talk sk (put_node (pcomps (cloud_text (active_name ts) l i)) (File s) (local_store ts l (fs w)))
      (sent sk (ln (remove_request ts l i)) (with_tr tr (sent sk (ln ''SEND_NEXT'') w))) w'"
proof -
  let ?h = "sending_line ts l i j n (int (length s)) (int (length c))"
  let ?w1 = "logged (ln ''TT - Requesting the next file'') [] w"
  have ah: "answer sg ?h" for sg
    using n z by (intro answer_sending) (simp_all add: unpacks_def int64_def)
  obtain b rec w2 where rq: "tt_request sk (ln ''SEND_NEXT'') v ?w1 = (Ret (v\<lparr>tt_b := b, tt_rec := rec\<rparr>), w2)"
    and r2: "holds_line rec ?h" "reader_ok sk b w2" "pending sk b w2 = c @ ''END'' @ nl # line @ nl # rest"
      "talk sk (fs w) (sent sk (ln ''SEND_NEXT'') ?w1) w2"
    using tt_request_run [of ?w1 sk v ?h "c @ ''END'' @ nl # line @ nl # rest" "ln ''SEND_NEXT''"] w pend(1) v(1) ah by auto
  let ?v = "v\<lparr>tt_b := b, tt_rec := rec\<rparr>"
  have nf: "nul_free ?h" "nul_free line"
    using ah [of True] pend(2) by (auto simp: answer_def plain_answer_def intro: text_nul_free)
  have t2: "talk sk (fs w) (sent sk (ln ''SEND_NEXT'') w) w2"
    using talk_trans [OF talk_sent [OF talk_logged] r2(4)] .
  have h: "log_ok w2" "tx_clean sk w2" "permissive w2" "answer (signed_char w2) line" "unpacks z w2 c s" "storable (fs w2) ts l i"
    using talk_ok [OF t2] w(1,2,4) talk_fields(1,5,6,8) [OF t2] pend(2) z st
    by (simp_all add: permissive_def plain_answer_def unpacks_def)
  have wait: "tt_wait (Suc k) sk ?v w2 = (Ret ?v, w2)"
    using r2(1) nf(1) by (intro tt_wait_done [where line = ?h]) (simp_all, simp add: sending_line_def take_Cons')
  have v': "reader_ok sk (tt_b ?v) w2" "pending sk (tt_b ?v) w2 = c @ ''END'' @ nl # line @ nl # rest"
      "holds_line (tt_rec ?v) ?h" "length (tt_dir ?v) = MAX_REL_PATH_LEN"
    using r2 v(2) by simp_all
  obtain v3 tr w3 where snd: "tt_sending z sk ?v w2 = (Ret v3, w3)" and r3: "sending_tr ts l i j n tr"
      "holds_line (tt_rec v3) line" "reader_ok sk (tt_b v3) w3" "pending sk (tt_b v3) w3 = rest"
      "cstr_of (tt_dir v3) = Some (active_name ts)" "length (tt_dir v3) = MAX_REL_PATH_LEN"
      "talk sk (put_node (pcomps (cloud_text (active_name ts) l i)) (File s) (local_store ts l (fs w2)))
        (sent sk (ln (remove_request ts l i)) (with_tr tr w2)) w3"
    using tt_sending_run [OF h(1,2) v'(1) h(3) v'(2) h(4) v'(3,4) n h(5,6)] by blast
  have "strncmp ?h ''SENDING'' 7 = 0" "strncmp line ''EMPTY'' 5 \<noteq> 0"
    using strncmp_0_iff [of ?h "''SENDING''" 7] strncmp_0_iff [of line "''EMPTY''" 5] nf pend(2)
    by (auto simp: sending_line_def plain_answer_def nul_free_def NUL_def)
  then have "tt_round z (Suc k) sk v w = (Ret v3, w3)"
    using rq wait snd r2(1) r3(2) w(1)
    by (simp add: tt_round_def PrintLog_seq mbind_Ret read_cstr_run holds_line_def mret_run)
  moreover have "talk sk (put_node (pcomps (cloud_text (active_name ts) l i)) (File s) (local_store ts l (fs w)))
      (sent sk (ln (remove_request ts l i)) (with_tr tr (sent sk (ln ''SEND_NEXT'') w))) w3"
  proof -
    have "talk sk (fs w) (with_tr tr (sent sk (ln ''SEND_NEXT'') w)) (with_tr tr w2)"
      by (rule talk_with_tr [OF t2])
    from talk_trans [OF talk_sent [OF this] r3(7)] show ?thesis using talk_fields(1) [OF t2] by simp
  qed
  ultimately show ?thesis using r3 by blast
qed

end
