(* ===== verification/Exchange.thy ===== *)
theory Exchange
  imports Server_Props Client_Round
begin

text \<open>
  The server and the client together: the bytes one side sends are the bytes the other side
  reads. One exchange is a \<open>SEND_NEXT\<close> and the \<open>REMOVE_FILE\<close> that follows it; the server
  serves the two commands, the client runs one round of its transmission thread on the bytes
  the server produced, and the requests it sends are the commands that were served.
\<close>

section \<open>The two sides agree on names and lines\<close>

lemma rec_name_timestamp: "printable_tm t \<Longrightarrow> rec_name (strftime_ts t)"
proof -
  assume t: "printable_tm t"
  have "\<not> isspace c \<and> text_char True c \<and> c \<noteq> CHR ''/''" if "c \<in> set (strftime_ts t)" for c
    using strftime_ts_chars [OF that t] isdigit_not_space [of c] isdigit_neq [of c]
    by (auto simp: text_char_def isspace_def nl_def NUL_def isdigit_def)
  moreover have "strftime_ts t \<noteq> []" using length_strftime_ts [of t] by (metis list.size(3) zero_neq_numeral)
  ultimately show ?thesis by (auto simp: rec_name_def word_ok_def list_all_iff TIMESTAMP_LEN_def)
qed

lemma sending_line_header:
  "sending_header t l i j n @ '' '' @ fmt_d a @ '' '' @ fmt_d b = sending_line (strftime_ts t) l i j n a b"
  by (simp add: sending_header_def sending_line_def)

section \<open>The server's side\<close>

lemma recordings_out [simp]: "recordings (w\<lparr>out := x\<rparr>) dir ts l ns = recordings w dir ts l ns"
  by (simp add: recordings_def can_list_def denied_def mktime_mono_def)

lemma idle_out [simp]: "proc_lines (w\<lparr>out := x\<rparr>) name ls = proc_lines w name ls"
  "no_stale_error (w\<lparr>out := x\<rparr>) = no_stale_error w" "readable z (w\<lparr>out := x\<rparr>) p s = readable z w p s"
  by (simp_all add: proc_lines_def no_stale_error_def readable_def denied_def)

lemma quiet_fields:
  assumes "quiet v w"
  shows "fs w = fs v" "socks w = socks v" "deny w = deny v" "pipe_cmd w = pipe_cmd v" "procs w = procs v"
    "junk_int w = junk_int v" "mk_time w = mk_time v" "malloc_max w = malloc_max v" "blocks w = blocks v"
    "tx_clean sk w = tx_clean sk v" "fs_ok w = fs_ok v"
proof -
  obtain e a b where w: "w = v\<lparr>errno_val := e, out := a, err := b\<rparr>" using assms unfolding quiet_def by blast
  show "fs w = fs v" "socks w = socks v" "deny w = deny v" "pipe_cmd w = pipe_cmd v" "procs w = procs v"
    "junk_int w = junk_int v" "mk_time w = mk_time v" "malloc_max w = malloc_max v" "blocks w = blocks v"
    "tx_clean sk w = tx_clean sk v" "fs_ok w = fs_ok v"
    unfolding w by (simp_all add: tx_clean_def fs_ok_def)
qed

lemma command_words:
  "strcmp ''SEND_NEXT'' ''STATUS'' \<noteq> 0" "strncmp ''SEND_NEXT'' ''START'' 5 \<noteq> 0" "strcmp ''SEND_NEXT'' ''STOP'' \<noteq> 0"
  "strcmp ''SEND_NEXT'' ''SEND_NEXT'' = 0"
  by (simp_all add: strcmp_0_iff strncmp_0_iff nul_free_def NUL_def)

lemma send_next_command:
  "server_command z csk ''SEND_NEXT'' w =
    mseq (SendNext z csk LOGGER_NAME Server_Cmds.DATA_DIR) (mret True) (w\<lparr>out := out w @ ln ''TCP receive: SEND_NEXT''\<rparr>)"
  by (simp add: server_command_def command_words os_print_seq) (simp add: format_simps ln_def nl_def)

lemma remove_file_command:
  assumes "nul_free (remove_request ts l i)"
  shows "server_command z csk (remove_request ts l i) w =
    mseq (RemoveFile csk (remove_request ts l i) Server_Cmds.DATA_DIR) (mret True)
      (w\<lparr>out := out w @ ln (''TCP receive: '' @ remove_request ts l i)\<rparr>)"
proof -
  have f: "vformat (ln ''TCP receive: %s'') [FStr s] = ln (''TCP receive: '' @ s)" for s
    by (simp add: format_simps ln_def nl_def)
  have "strcmp (remove_request ts l i) ''STATUS'' \<noteq> 0" "strncmp (remove_request ts l i) ''START'' 5 \<noteq> 0"
    "strcmp (remove_request ts l i) ''STOP'' \<noteq> 0" "strcmp (remove_request ts l i) ''SEND_NEXT'' \<noteq> 0"
    "strncmp (remove_request ts l i) ''REMOVE_FILE'' 11 = 0"
    using assms by (simp_all add: remove_request_def strcmp_0_iff strncmp_0_iff nul_free_def NUL_def)
  then show ?thesis by (simp add: server_command_def os_print_seq f)
qed

text \<open>What the server must provide for a file to be sent and removed.\<close>

definition server_ready :: "zlib \<Rightarrow> int \<Rightarrow> nat \<Rightarrow> tm list \<Rightarrow> int \<Rightarrow> int list \<Rightarrow> 'x world_scheme \<Rightarrow> bool" where
  "server_ready z csk k ts l ns w \<longleftrightarrow> recordings w Server_Cmds.DATA_DIR ts l ns \<and>
     (\<exists>ls. proc_lines w LOGGER_NAME ls \<and> length ls = k) \<and> no_stale_error w \<and> tx_clean csk w \<and> zlib_ok z \<and>
     malloc_max w < 2 ^ 31 \<and> length ns < 2 ^ 31 \<and> fs_ok w \<and>
     (\<forall>p. \<not> denied ''remove'' p w \<and> \<not> denied ''opendir'' p w)"

definition server_cloud :: "string \<Rightarrow> int \<Rightarrow> int \<Rightarrow> path" where
  "server_cloud ts l i = tof_path Server_Cmds.DATA_DIR ts l @ [data_name i]"

definition removed_line :: "string \<Rightarrow> int \<Rightarrow> string" where
  "removed_line ts i = ''FILE '' @ fmt_d i @ '', '' @ ts @ '' REMOVED''"

lemma server_length: "length Server_Cmds.DATA_DIR = 36"
  by (simp add: Server_Cmds.DATA_DIR_def)

lemma next_reply_sending:
  assumes "next_reply k ts l ns = Rep_SENDING t l' i j n"
  shows "t = Min (set ts)" "l' = l" "i = Min (set ns)" "j = Max (set ns)" "n = int (length ns)" "ns \<noteq> []" "ts \<noteq> []"
  using assms by (auto simp: next_reply_def Let_def split: if_splits)

lemma sent_all_out: "sent_all csk xs (v\<lparr>out := x\<rparr>) = (sent_all csk xs v)\<lparr>out := x\<rparr>"
  by (induction xs arbitrary: v) (simp_all add: sent_updates)

lemma serve_exchange:
  assumes r: "server_ready z csk k ts l ns w" and rep: "next_reply k ts l ns = Rep_SENDING t l i j n"
    and fl: "readable z w (cloud_name Server_Cmds.DATA_DIR (strftime_ts t) l i) s"
  shows "\<exists>w'. mseq (server_command z csk ''SEND_NEXT'') (server_command z csk (remove_request (strftime_ts t) l i)) w =
      (Ret True, w') \<and>
    quiet ((sent csk (ln (removed_line (strftime_ts t) i))
       (sent_all csk (file_chunks z (sending_header t l i j n) s) w))
      \<lparr>fs := del_node (server_cloud (strftime_ts t) l i) (fs w)\<rparr>) w'"
proof -
  let ?D = "Server_Cmds.DATA_DIR" and ?t = "strftime_ts t" and ?cmd = "remove_request (strftime_ts t) l i"
  note rp = next_reply_sending [OF rep]
  obtain ls where ls: "proc_lines w LOGGER_NAME ls" "length ls = k" using r by (auto simp: server_ready_def)
  have rec: "recordings w ?D ts l ns" using r by (simp add: server_ready_def)
  then have f: "printable_tm t" "0 \<le> l" "l \<le> 1" "int32 i"
    using Min_in [of "set ts"] Min_in [of "set ns"] rp by (auto simp: recordings_def Let_def list_all_iff)
  then have l32: "int32 l" by (simp add: int32_def)
  have nm: "rec_name ?t" using f(1) by (rule rec_name_timestamp)
  then have tw: "word_ok ?t" "nul_free ?t" "length ?t < 16" "CHR ''/'' \<notin> set ?t"
    using rec_name_nul_free [OF nm] by (simp_all add: rec_name_def TIMESTAMP_LEN_def)
  let ?w0 = "w\<lparr>out := out w @ ln ''TCP receive: SEND_NEXT''\<rparr>"
  obtain w1 where snd: "SendNext z csk LOGGER_NAME ?D ?w0 = (Ret 0, w1)"
    and q1: "quiet (sent_all csk (file_chunks z (sending_header t l i j n) s) ?w0) w1"
    using SendNext_run [of ?w0 ?D ts l ns LOGGER_NAME ls csk z s] r fl ls rp rep
    by (auto simp: server_ready_def)
  let ?w1 = "w1\<lparr>out := out w1 @ ln (''TCP receive: '' @ ?cmd)\<rparr>"
  have sa: "fs (sent_all csk xs v) = fs v" "deny (sent_all csk xs v) = deny v"
      "tx_clean csk v \<Longrightarrow> tx_clean csk (sent_all csk xs v)" for xs v
    by (induction xs arbitrary: v) (simp_all, simp add: sent_def upd_sock_def)
  have w1: "fs_ok ?w1" "tx_clean csk ?w1" "\<not> denied ''remove'' p ?w1" "fs w1 = fs w" for p
    using quiet_fields(1,3,10) [OF q1] r by (simp_all add: sa server_ready_def fs_ok_def denied_def)
  have here: "node_at (fs ?w1) (tof_path ?D ?t l @ [data_name i]) = Some (File s)"
    using fl pcomps_cloud [OF word_name_ok [OF tw(1,4)], of ?D l i] w1(4) by (simp add: readable_def)
  have fit: "length (cloud_name ?D ?t l i) < Server_Find.MAX_PATH_LEN"
    using length_cloud_name [OF f(2,3,4), of ?D ?t] tw(3) server_length by (simp add: Server_Find.MAX_PATH_LEN_def)
  have c: "word_ok ''REMOVE_FILE''" by (simp add: word_ok_def isspace_def)
  have nf: "nul_free ?cmd"
    using tw(2) nul_free_fmt_d [of l] nul_free_fmt_d [of i] by (auto simp: remove_request_def nul_free_def NUL_def)
  note rm = RemoveFile_run [OF c tw(1,2,3) l32 f(4) tw(4) fit w1(1,2,3) here]
  let ?w2 = "(sent csk (ln (removed_line ?t i)) ?w1)\<lparr>fs := del_node (server_cloud ?t l i) (fs w),
      out := out ?w1 @ ln (''Removing '' @ cloud_name ?D ?t l i)\<rparr>"
  have rm': "RemoveFile csk ?cmd ?D ?w1 = (Ret 0, ?w2)"
    using rm w1(4) by (simp add: remove_request_def removed_line_def server_cloud_def)
  have "mseq (server_command z csk ''SEND_NEXT'') (server_command z csk ?cmd) w = (Ret True, ?w2)"
    using snd rm'
    by (simp add: mseq_run mbind_def send_next_command remove_file_command [OF nf] mret_def)
  moreover have "quiet ((sent csk (ln (removed_line ?t i)) (sent_all csk (file_chunks z (sending_header t l i j n) s) w))
      \<lparr>fs := del_node (server_cloud ?t l i) (fs w)\<rparr>) ?w2"
  proof -
    obtain e a b where w1: "w1 = (sent_all csk (file_chunks z (sending_header t l i j n) s) ?w0)
        \<lparr>errno_val := e, out := a, err := b\<rparr>"
      using q1 unfolding quiet_def by blast
    show ?thesis by (simp add: w1 sent_all_out sent_updates quiet_def)
  qed
  ultimately show ?thesis by blast
qed

section \<open>The client's side\<close>

definition client_ready :: "int \<Rightarrow> tt_vars \<Rightarrow> 'x client_world_scheme \<Rightarrow> bool" where
  "client_ready sk v w \<longleftrightarrow> log_ok w \<and> tx_clean sk w \<and> reader_ok sk (tt_b v) w \<and> permissive w \<and>
     length (tt_rec v) = BUFSIZ + 1 \<and> length (tt_dir v) = MAX_REL_PATH_LEN"

definition local_cloud :: "string \<Rightarrow> int \<Rightarrow> int \<Rightarrow> path" where
  "local_cloud ts l i = pcomps (cloud_text (active_name ts) l i)"

lemma plain_removed: "rec_name ts \<Longrightarrow> int32 i \<Longrightarrow> plain_answer sg (removed_line ts i)"
proof -
  assume ts: "rec_name ts" and i: "int32 i"
  have "list_all (text_char sg) ts" using ts by (auto simp: rec_name_def list_all_iff text_char_True)
  then have "list_all (text_char sg) (removed_line ts i)"
    by (simp add: removed_line_def text_fmt_d) (simp add: text_char_def nl_def NUL_def)
  moreover have "length (removed_line ts i) \<le> BUFSIZ"
    using ts length_fmt_int32 [OF i] by (simp add: removed_line_def rec_name_def TIMESTAMP_LEN_def BUFSIZ_def)
  ultimately show ?thesis by (simp add: plain_answer_def answer_def) (simp add: removed_line_def take_Cons')
qed

lemma packed_unpacks:
  assumes "zlib_ok z" "readable z w p s" "malloc_max w < 2 ^ 31" "malloc_max w \<le> malloc_max v"
  shows "unpacks z v (packed z s) s"
proof -
  obtain c where c: "z_compress z (z_bound z (length s)) s = (Z_OK, c)" "length c \<le> z_bound z (length s)"
      "\<forall>n. length s \<le> n \<longrightarrow> z_uncompress z n c = (Z_OK, s)"
    using assms(1) unfolding zlib_ok_def by blast
  then have "packed z s = c" by (simp add: packed_def)
  with c assms(2-4) show ?thesis by (auto simp: unpacks_def readable_def)
qed

lemma exchange_client:
  assumes c: "client_ready sk v w" and st: "storable (fs w) (strftime_ts t) l i"
    and n: "printable_tm t" "int32 l" "int32 i" "int32 j" "int32 n" and z: "unpacks z w (packed z s) s"
    and pend: "pending sk (tt_b v) w = concat (file_chunks z (sending_header t l i j n) s) @
      ln (removed_line (strftime_ts t) i) @ rest"
  shows "\<exists>v' w'. tt_round z (Suc m) sk v w = (Ret v', w') \<and> client_ready sk v' w' \<and>
    pending sk (tt_b v') w' = rest \<and> malloc_max w' = malloc_max w \<and>
    s_tx (socks w' sk) = s_tx (socks w sk) @ ln ''SEND_NEXT'' @ ln (remove_request (strftime_ts t) l i) \<and>
    fs w' = put_node (local_cloud (strftime_ts t) l i) (File s) (local_store (strftime_ts t) l (fs w)) \<and>
    cstr_of (nd_first (tr_d (t_tr (td w')))) = Some (strftime_ts t) \<and> nd_logger_n (tr_d (t_tr (td w'))) = l \<and>
    cstr_of (tt_dir v') = Some (active_name (strftime_ts t))"
proof -
  let ?t = "strftime_ts t"
  have nm: "rec_name ?t" by (rule rec_name_timestamp [OF n(1)])
  have p: "pending sk (tt_b v) w = sending_line ?t l i j n (int (length s)) (int (length (packed z s))) @ nl #
      packed z s @ ''END'' @ nl # removed_line ?t i @ nl # rest"
    using pend by (simp add: file_chunks_def ln_def flip: sending_line_header)
  have h: "log_ok w" "tx_clean sk w" "reader_ok sk (tt_b v) w" "permissive w" "length (tt_rec v) = BUFSIZ + 1"
      "length (tt_dir v) = MAX_REL_PATH_LEN"
    using c by (simp_all add: client_ready_def)
  obtain v' tr w' where run: "tt_round z (Suc m) sk v w = (Ret v', w')" and r: "sending_tr ?t l i j n tr"
      "holds_line (tt_rec v') (removed_line ?t i)" "reader_ok sk (tt_b v') w'" "pending sk (tt_b v') w' = rest"
      "cstr_of (tt_dir v') = Some (active_name ?t)" "length (tt_dir v') = MAX_REL_PATH_LEN"
      "talk sk (put_node (pcomps (cloud_text (active_name ?t) l i)) (File s) (local_store ?t l (fs w)))
        (sent sk (ln (remove_request ?t l i)) (with_tr tr (sent sk (ln ''SEND_NEXT'') w))) w'"
    using tt_round_sending [OF h(1-4) p plain_removed [OF nm n(3)] h(5,6) nm n(2-5) z st] by blast
  have "client_ready sk v' w'"
    using talk_ok [OF r(7)] talk_fields(5) [OF r(7)] h r(2,3,6)
    by (simp add: client_ready_def permissive_def holds_line_def) (simp add: with_tr_def sent_def upd_sock_def)
  moreover have "s_tx (socks w' sk) = s_tx (socks w sk) @ ln ''SEND_NEXT'' @ ln (remove_request ?t l i)"
    using talk_fields(15) [OF r(7)] by simp
  moreover have "malloc_max w' = malloc_max w" "t_tr (td w') = tr"
    using talk_fields(2,6) [OF r(7)] by simp_all
  ultimately show ?thesis using run r talk_fields(1) [OF r(7)] by (simp add: local_cloud_def sending_tr_def)
qed

section \<open>The server after a removal\<close>

lemma keys_del: "map fst (del_node p st) = filter (\<lambda>q. q \<noteq> p) (map fst st)"
  by (induction st) (auto simp: del_node_def)

lemma children_del: "children (del_node (p @ [c]) st) q = (if q = p then filter (\<lambda>d. d \<noteq> c) (children st q) else children st q)"
proof -
  have "map last (filter (\<lambda>r. r \<noteq> [] \<and> butlast r = q) (filter (\<lambda>r. r \<noteq> p @ [c]) rs)) =
      (if q = p then filter (\<lambda>d. d \<noteq> c) (map last (filter (\<lambda>r. r \<noteq> [] \<and> butlast r = q) rs))
       else map last (filter (\<lambda>r. r \<noteq> [] \<and> butlast r = q) rs))" for rs
  proof (induction rs)
    case (Cons r rs)
    have "r = p @ [c] \<longleftrightarrow> r \<noteq> [] \<and> butlast r = p \<and> last r = c" by (metis append_butlast_last_id last_snoc butlast_snoc snoc_eq_iff_butlast)
    with Cons show ?case by auto
  qed simp
  then show ?thesis unfolding children_def keys_del .
qed

lemma data_name_inj: "data_name i = data_name j \<longleftrightarrow> i = j"
proof
  assume "data_name i = data_name j"
  then have "fmt_d i = fmt_d j" by (simp add: data_name_eq)
  then show "i = j" using scan_int_fmt_d [of "[]" i] scan_int_fmt_d [of "[]" j] by simp
qed simp

lemma recordings_del:
  assumes r: "recordings w dir ts l ns" and ok: "name_ok (strftime_ts (Min (set ts)))"
    and n: "node_at (fs w) (tof_path dir (strftime_ts (Min (set ts))) l @ [data_name i]) = Some (File s)"
  shows "recordings (w\<lparr>fs := del_node (tof_path dir (strftime_ts (Min (set ts))) l @ [data_name i]) (fs w)\<rparr>) dir ts l
    (filter (\<lambda>j. j \<noteq> i) ns)"
proof -
  let ?t = "strftime_ts (Min (set ts))" and ?w = "w\<lparr>fs := del_node (tof_path dir (strftime_ts (Min (set ts))) l @ [data_name i]) (fs w)\<rparr>"
  let ?p = "tof_path dir ?t l"
  have tof: "pcomps (tof_name dir ?t m) = tof_path dir ?t m" for m by (rule pcomps_tof [OF ok])
  have len: "length (pcomps dir) < length ?p" by (simp add: tof_path_def)
  have can: "can_list ?w q = can_list w q" if "pcomps q \<noteq> ?p @ [data_name i]" for q
    using that by (simp add: can_list_def denied_def node_at_del)
  have other: "pcomps dir \<noteq> ?p @ [data_name i]" "pcomps (tof_name dir ?t m) \<noteq> ?p @ [data_name i]" for m
    using len by (auto simp: tof tof_path_def)
  have kids: "children (fs ?w) (pcomps dir) = children (fs w) (pcomps dir)"
    "children (fs ?w) ?p = filter (\<lambda>d. d \<noteq> data_name i) (children (fs w) ?p)"
    using len by (auto simp: children_del)
  have "filter file_entry (children (fs w) ?p) = map data_name ns"
    using r by (simp add: recordings_def Let_def tof)
  then have "filter (\<lambda>d. d \<noteq> data_name i) (filter file_entry (children (fs w) ?p)) =
      map data_name (filter (\<lambda>j. j \<noteq> i) ns)"
    by (simp add: filter_map o_def data_name_inj)
  then have "filter file_entry (children (fs ?w) ?p) = map data_name (filter (\<lambda>j. j \<noteq> i) ns)"
    unfolding kids(2) by (simp add: conj_commute)
  moreover have "mktime_mono ?w ts = mktime_mono w ts" by (simp add: mktime_mono_def)
  ultimately show ?thesis
    using r kids(1) can [OF other(1)] can [OF other(2)]
    by (auto simp: recordings_def Let_def tof list_all_iff)
qed

lemma recordings_cong:
  "fs w = fs v \<Longrightarrow> deny w = deny v \<Longrightarrow> mk_time w = mk_time v \<Longrightarrow> junk_int w = junk_int v \<Longrightarrow>
   recordings w dir ts l ns = recordings v dir ts l ns"
  by (simp add: recordings_def can_list_def denied_def mktime_mono_def)

text \<open>One exchange on the server: its output, its store, and that it is ready for the next.\<close>

fun serve_cmds :: "zlib \<Rightarrow> int \<Rightarrow> string list \<Rightarrow> ('x, bool) os" where
  "serve_cmds z csk [] = mret True"
| "serve_cmds z csk (c # cs) = mbind (server_command z csk c) (\<lambda>a. if a then serve_cmds z csk cs else mret False)"

lemma exchange_server:
  assumes r: "server_ready z csk k ts l ns w" and rep: "next_reply k ts l ns = Rep_SENDING t l i j n"
    and fl: "readable z w (cloud_name Server_Cmds.DATA_DIR (strftime_ts t) l i) s"
  shows "\<exists>w'. serve_cmds z csk [''SEND_NEXT'', remove_request (strftime_ts t) l i] w = (Ret True, w') \<and>
    server_ready z csk k ts l (filter (\<lambda>j. j \<noteq> i) ns) w' \<and>
    s_tx (socks w' csk) = s_tx (socks w csk) @ concat (file_chunks z (sending_header t l i j n) s) @
      ln (removed_line (strftime_ts t) i) \<and>
    fs w' = del_node (server_cloud (strftime_ts t) l i) (fs w) \<and> deny w' = deny w \<and> malloc_max w' = malloc_max w"
proof -
  let ?t = "strftime_ts t" and ?p = "server_cloud (strftime_ts t) l i"
  note rp = next_reply_sending [OF rep]
  obtain w' where run: "mseq (server_command z csk ''SEND_NEXT'') (server_command z csk (remove_request ?t l i)) w =
      (Ret True, w')" and q: "quiet ((sent csk (ln (removed_line ?t i))
       (sent_all csk (file_chunks z (sending_header t l i j n) s) w))\<lparr>fs := del_node ?p (fs w)\<rparr>) w'"
    using serve_exchange [OF r rep fl] by blast
  have pr: "printable_tm t"
    using r Min_in [of "set ts"] rp by (auto simp: server_ready_def recordings_def Let_def list_all_iff)
  have nm: "name_ok ?t" using rec_name_timestamp [OF pr] by (simp add: rec_name_def word_name_ok)
  have here: "node_at (fs w) ?p = Some (File s)"
    using fl pcomps_cloud [OF nm] by (simp add: readable_def server_cloud_def)
  have wf: "store_wf (fs w)" using r by (simp add: server_ready_def fs_ok_def)
  have "store_wf (del_node ?p (fs w))"
    using wf here st.look_below_None [OF wf, of ?p] by (intro st.wf_del) (simp_all add: server_cloud_def)
  moreover have "recordings w' Server_Cmds.DATA_DIR ts l (filter (\<lambda>j. j \<noteq> i) ns)"
  proof -
    have "recordings (w\<lparr>fs := del_node ?p (fs w)\<rparr>) Server_Cmds.DATA_DIR ts l (filter (\<lambda>j. j \<noteq> i) ns)"
      using recordings_del [of w Server_Cmds.DATA_DIR ts l ns i s] r nm here rp(1)
      by (simp add: server_ready_def server_cloud_def)
    then show ?thesis
      using quiet_fields(1,3,6,7) [OF q]
      by (subst recordings_cong [where v = "w\<lparr>fs := del_node ?p (fs w)\<rparr>"]) (simp_all, simp_all add: sent_def upd_sock_def)
  qed
  moreover have "malloc_max w' = malloc_max w" "deny w' = deny w" "procs w' = procs w" "pipe_cmd w' = pipe_cmd w"
      "junk_int w' = junk_int w"
    using quiet_fields [OF q] by (simp_all, simp_all add: sent_def upd_sock_def)
  moreover have "length (filter (\<lambda>j. j \<noteq> i) ns) < 2 ^ 31"
    using r by (intro le_less_trans [OF length_filter_le]) (simp add: server_ready_def)
  ultimately have "server_ready z csk k ts l (filter (\<lambda>j. j \<noteq> i) ns) w'"
    using r quiet_fields(10) [OF q, of csk] quiet_fields(11) [OF q]
    by (auto simp: server_ready_def proc_lines_def no_stale_error_def denied_def fs_ok_def)
  moreover have "serve_cmds z csk [''SEND_NEXT'', remove_request ?t l i] w = (Ret True, w')"
  proof -
    obtain w1 where a: "server_command z csk ''SEND_NEXT'' w = (Ret True, w1)"
      using run by (auto simp: mseq_def send_next_command mret_def elim!: mbind_cases)
    with run show ?thesis by (simp add: mseq_def mbind_def mret_def)
  qed
  ultimately show ?thesis
    using quiet_fields(1,2,3,8) [OF q] by (simp, simp add: sent_def upd_sock_def)
qed

end
