(* ===== verification/Transfer_Clouds.thy ===== *)
theory Transfer_Clouds
  imports Exchange
begin

text \<open>
  The transfer of the point clouds of a recording: client and server composed. A step of the
  composed system is one round of the transmission thread; the commands it writes are the
  commands the server serves, and what the server writes is what it reads, cut into reads of
  any size.
\<close>

section \<open>The composed system\<close>

definition deliver :: "int \<Rightarrow> string list \<Rightarrow> 'x world_scheme \<Rightarrow> 'x world_scheme" where
  "deliver sk parts w = upd_sock sk (\<lambda>s. s\<lparr>s_rx := s_rx s @ map Data parts\<rparr>) w"

text \<open>How the network cuts the bytes of the server: any way without an empty part.\<close>

definition cuts :: "(string \<Rightarrow> string list) \<Rightarrow> bool" where
  "cuts segs \<longleftrightarrow> (\<forall>s. concat (segs s) = s \<and> [] \<notin> set (segs s))"

inductive exchange ::
  "zlib \<Rightarrow> (string \<Rightarrow> string list) \<Rightarrow> int \<Rightarrow> int \<Rightarrow> 'x world_scheme \<times> tt_vars \<times> 'y client_world_scheme \<Rightarrow>
   'x world_scheme \<times> tt_vars \<times> 'y client_world_scheme \<Rightarrow> bool"
  for z segs csk sk where
  step: "serve_cmds z csk cmds sw = (Ret True, sw') \<Longrightarrow>
     s_tx (socks sw' csk) = s_tx (socks sw csk) @ bytes \<Longrightarrow>
     tt_round z (Suc m) sk v (deliver sk (segs bytes) cw) = (Ret v', cw') \<Longrightarrow>
     s_tx (socks cw' sk) = s_tx (socks cw sk) @ concat (map ln cmds) \<Longrightarrow>
     exchange z segs csk sk (sw, v, cw) (sw', v', cw')"

section \<open>Delivered bytes\<close>

lemma deliver_fields [simp]:
  "fs (deliver sk ps w) = fs w" "td (deliver sk ps c) = td c" "malloc_max (deliver sk ps w) = malloc_max w"
  "deny (deliver sk ps w) = deny w" "s_tx (socks (deliver sk ps w) k) = s_tx (socks w k)"
  by (simp_all add: deliver_def upd_sock_def)

lemma deliver_ready:
  assumes "client_ready sk v w" "cuts segs"
  shows "client_ready sk v (deliver sk (segs bytes) w)"
    "pending sk (tt_b v) (deliver sk (segs bytes) w) = pending sk (tt_b v) w @ bytes"
proof -
  have parts: "rx_clean (map Data (segs bytes))" "rx_text (map Data (segs bytes)) = bytes"
    using assms(2) by (auto simp: rx_clean_def rx_text_def cuts_def list_all_iff o_def)
  have a: "rx_clean (es @ ds) \<longleftrightarrow> rx_clean es \<and> rx_clean ds" "rx_text (es @ ds) = rx_text es @ rx_text ds" for es ds
    by (simp_all add: rx_clean_def rx_text_def)
  show "client_ready sk v (deliver sk (segs bytes) w)"
    using assms(1) parts(1)
    by (simp add: client_ready_def log_ok_def tx_clean_def reader_ok_def permissive_def a(1) deliver_def upd_sock_def)
  show "pending sk (tt_b v) (deliver sk (segs bytes) w) = pending sk (tt_b v) w @ bytes"
    using parts(2) by (simp add: pending_def deliver_def upd_sock_def a(2))
qed

section \<open>One file\<close>

text \<open>The two sides are ready to transfer the point clouds \<open>ns\<close>, whose contents are \<open>content\<close>.\<close>

definition transfer_ready ::
  "zlib \<Rightarrow> int \<Rightarrow> int \<Rightarrow> nat \<Rightarrow> tm list \<Rightarrow> int \<Rightarrow> int list \<Rightarrow> (int \<Rightarrow> string) \<Rightarrow>
   'x world_scheme \<Rightarrow> tt_vars \<Rightarrow> 'y client_world_scheme \<Rightarrow> bool" where
  "transfer_ready z csk sk k ts l ns content sw v cw \<longleftrightarrow>
     server_ready z csk k ts l ns sw \<and> distinct ns \<and> client_ready sk v cw \<and> pending sk (tt_b v) cw = [] \<and>
     malloc_max sw \<le> malloc_max cw \<and>
     (\<forall>i \<in> set ns. readable z sw (cloud_name Server_Cmds.DATA_DIR (strftime_ts (Min (set ts))) l i) (content i) \<and>
        storable (fs cw) (strftime_ts (Min (set ts))) l i)"

text \<open>The variables of the client name the recording being transferred.\<close>

definition names_recording :: "string \<Rightarrow> int \<Rightarrow> tt_vars \<Rightarrow> 'y client_world_scheme \<Rightarrow> bool" where
  "names_recording t l v w \<longleftrightarrow> cstr_of (nd_first (tr_d (t_tr (td w)))) = Some t \<and>
     nd_logger_n (tr_d (t_tr (td w))) = l \<and> cstr_of (tt_dir v) = Some (active_name t)"

lemma cloud_paths [simp]: "server_cloud t l i \<noteq> []" "local_cloud t l i \<noteq> []"
  by (simp_all add: server_cloud_def local_cloud_def pcomps_cloud_text)

lemma server_cloud_inj: "server_cloud t l i = server_cloud t l j \<longleftrightarrow> i = j"
  by (simp add: server_cloud_def data_name_inj)

lemma exchange_step:
  assumes r: "transfer_ready z csk sk k ts l ns content sw v cw"
    and rep: "next_reply k ts l ns = Rep_SENDING t l i j n" and segs: "cuts segs"
  shows "\<exists>sw' v' cw'. exchange z segs csk sk (sw, v, cw) (sw', v', cw') \<and>
    transfer_ready z csk sk k ts l (filter (\<lambda>j. j \<noteq> i) ns) content sw' v' cw' \<and>
    names_recording (strftime_ts t) l v' cw' \<and>
    fs sw' = del_node (server_cloud (strftime_ts t) l i) (fs sw) \<and>
    fs cw' = put_node (local_cloud (strftime_ts t) l i) (File (content i)) (local_store (strftime_ts t) l (fs cw)) \<and>
    store_wf (fs cw') \<and> deny sw' = deny sw \<and> malloc_max sw' = malloc_max sw"
proof -
  let ?t = "strftime_ts t" and ?ns = "filter (\<lambda>j. j \<noteq> i) ns"
  let ?bytes = "concat (file_chunks z (sending_header t l i j n) (content i)) @ ln (removed_line ?t i)"
  note rp = next_reply_sending [OF rep]
  have sr: "server_ready z csk k ts l ns sw" and cr: "client_ready sk v cw" and p: "pending sk (tt_b v) cw = []"
    and mm: "malloc_max sw \<le> malloc_max cw"
    and each: "\<And>i. i \<in> set ns \<Longrightarrow> readable z sw (cloud_name Server_Cmds.DATA_DIR ?t l i) (content i) \<and> storable (fs cw) ?t l i"
    using r rp(1) by (auto simp: transfer_ready_def)
  have i: "i \<in> set ns" using rp Min_in [of "set ns"] by simp
  note fl = each [OF i, THEN conjunct1] and st = each [OF i, THEN conjunct2]
  obtain sw' where serve: "serve_cmds z csk [''SEND_NEXT'', remove_request ?t l i] sw = (Ret True, sw')"
    and sr': "server_ready z csk k ts l ?ns sw'" and tx: "s_tx (socks sw' csk) = s_tx (socks sw csk) @ ?bytes"
    and fs': "fs sw' = del_node (server_cloud ?t l i) (fs sw)" "deny sw' = deny sw" "malloc_max sw' = malloc_max sw"
    using exchange_server [OF sr rep fl] by auto
  have rec: "recordings sw Server_Cmds.DATA_DIR ts l ns" "zlib_ok z" "malloc_max sw < 2 ^ 31" "length ns < 2 ^ 31"
    using sr by (simp_all add: server_ready_def)
  have n: "printable_tm t" "int32 l" "int32 i" "int32 j" "int32 n"
    using rec(1,4) rp Min_in [of "set ts"] i Max_in [of "set ns"]
    by (auto simp: recordings_def Let_def list_all_iff int32_def)
  have z: "unpacks z (deliver sk (segs ?bytes) cw) (packed z (content i)) (content i)"
    by (rule packed_unpacks [OF rec(2) fl rec(3)]) (simp add: mm)
  obtain v' cw' where round: "tt_round z (Suc 0) sk v (deliver sk (segs ?bytes) cw) = (Ret v', cw')"
    and c': "client_ready sk v' cw'" "pending sk (tt_b v') cw' = []" "malloc_max cw' = malloc_max cw"
      "s_tx (socks cw' sk) = s_tx (socks cw sk) @ ln ''SEND_NEXT'' @ ln (remove_request ?t l i)"
      "fs cw' = put_node (local_cloud ?t l i) (File (content i)) (local_store ?t l (fs cw))"
      "names_recording ?t l v' cw'"
  proof -
    have "storable (fs (deliver sk (segs ?bytes) cw)) ?t l i"
      "pending sk (tt_b v) (deliver sk (segs ?bytes) cw) = concat (file_chunks z (sending_header t l i j n) (content i)) @
        ln (removed_line ?t i) @ []"
      using st deliver_ready(2) [OF cr segs] p by simp_all
    from exchange_client [OF deliver_ready(1) [OF cr segs] this(1) n z this(2), of 0] show ?thesis
      using that by (auto simp: names_recording_def)
  qed
  have "exchange z segs csk sk (sw, v, cw) (sw', v', cw')"
    by (rule exchange.step [where bytes = ?bytes and m = 0 and segs = segs, OF serve tx round]) (simp add: c'(4))
  moreover have "transfer_ready z csk sk k ts l ?ns content sw' v' cw'"
  proof -
    have nm: "rec_name ?t" by (rule rec_name_timestamp [OF n(1)])
    have "readable z sw' (cloud_name Server_Cmds.DATA_DIR ?t l m) (content m)" if m: "m \<in> set ns" "m \<noteq> i" for m
    proof -
      have "pcomps (cloud_name Server_Cmds.DATA_DIR ?t l m) = server_cloud ?t l m"
        using pcomps_cloud [of ?t Server_Cmds.DATA_DIR l m] nm by (simp add: server_cloud_def rec_name_def word_name_ok)
      then show ?thesis
        using each [OF m(1), THEN conjunct1] fs' m(2) by (simp add: readable_def denied_def node_at_del server_cloud_inj)
    qed
    moreover have "storable (fs cw') ?t l m" if "m \<in> set ns" for m
      using stored_cloud_storable [OF st each [OF that, THEN conjunct2] nm] c'(5) by (simp add: local_cloud_def)
    ultimately show ?thesis
      using sr' c' mm fs'(3) r rp(1) by (auto simp: transfer_ready_def)
  qed
  moreover have "store_wf (fs cw')"
    using stored_cloud_storable [OF st st rec_name_timestamp [OF n(1)]] c'(5) by (simp add: local_cloud_def storable_def)
  ultimately show ?thesis using fs' c'(5,6) by blast
qed

section \<open>All files\<close>

lemma local_cloud_inj: "local_cloud t l i = local_cloud t l j \<longleftrightarrow> i = j"
proof -
  have "''data_'' @ fmt_d i @ ''.pcd'' = data_name i" for i by (simp add: data_name_eq)
  then show ?thesis by (simp add: local_cloud_def pcomps_cloud_text data_name_inj)
qed

lemma local_store_idem:
  assumes "storable st t l i" "rec_name t"
  shows "local_store t l (put_node (local_cloud t l i) n (local_store t l st)) =
    put_node (local_cloud t l i) n (local_store t l st)"
proof -
  let ?tof = "pcomps (local_name (active_name t) l ''run/mpa/tof'')"
  obtain r where r: "?tof = pcomps (active_name t) @ r" "r \<noteq> []" using active_above by blast
  have "node_at (local_store t l st) (pcomps (active_name t)) = Some Dir"
    using st.look_above [of "local_store t l st" "pcomps (active_name t)" r] wf_local_store [OF assms]
      local_store_tof [OF assms(1)] r by simp
  moreover have "local_cloud t l i \<noteq> pcomps (active_name t)" using r by (simp add: local_cloud_def pcomps_cloud_text)
  ultimately show ?thesis by (subst local_store_def) (simp add: node_at_put)
qed

lemma distinct_filter_one:
  "distinct xs \<Longrightarrow> x \<in> set xs \<Longrightarrow> length (filter (\<lambda>y. y \<noteq> x) xs) = length xs - 1"
proof -
  assume d: "distinct xs" and x: "x \<in> set xs"
  have "filter (\<lambda>y. y \<noteq> x) xs = removeAll x xs" by (simp add: removeAll_filter_not_eq eq_commute)
  then show ?thesis using d x by (simp add: length_remove1 flip: distinct_remove1_removeAll)
qed

lemma exchanges_run:
  assumes "transfer_ready z csk sk k ts l ns content sw v cw" "ts \<noteq> []" "k = 0 \<or> length ts \<noteq> 1" "cuts segs"
    and t: "t = strftime_ts (Min (set ts))"
  shows "\<exists>sw' v' cw'. (exchange z segs csk sk ^^ length ns) (sw, v, cw) (sw', v', cw') \<and>
    transfer_ready z csk sk k ts l [] content sw' v' cw' \<and> deny sw' = deny sw \<and> malloc_max sw' = malloc_max sw \<and>
    (ns \<noteq> [] \<longrightarrow> names_recording t l v' cw' \<and> store_wf (fs cw')) \<and>
    (\<forall>p. node_at (fs sw') p = (if p \<in> server_cloud t l ` set ns then None else node_at (fs sw) p)) \<and>
    (\<forall>i \<in> set ns. node_at (fs cw') (local_cloud t l i) = Some (File (content i))) \<and>
    (\<forall>p. p \<notin> local_cloud t l ` set ns \<longrightarrow>
       node_at (fs cw') p = node_at (if ns = [] then fs cw else local_store t l (fs cw)) p)"
  using assms(1)
proof (induction "length ns" arbitrary: ns sw v cw)
  case 0
  then show ?case by auto
next
  case (Suc m)
  define i where "i = Min (set ns)"
  let ?ns = "filter (\<lambda>j. j \<noteq> i) ns"
  have ns: "ns \<noteq> []" using Suc.hyps(2) by auto
  have i: "i \<in> set ns" using ns by (simp add: i_def)
  have rep: "next_reply k ts l ns = Rep_SENDING (Min (set ts)) l i (Max (set ns)) (int (length ns))"
    using assms(2,3) ns by (auto simp: next_reply_def i_def Let_def Suc_le_eq)
  obtain sw1 v1 cw1 where step: "exchange z segs csk sk (sw, v, cw) (sw1, v1, cw1)"
    and r1: "transfer_ready z csk sk k ts l ?ns content sw1 v1 cw1" "names_recording t l v1 cw1"
      "fs sw1 = del_node (server_cloud t l i) (fs sw)"
      "fs cw1 = put_node (local_cloud t l i) (File (content i)) (local_store t l (fs cw))"
      "store_wf (fs cw1)" "deny sw1 = deny sw" "malloc_max sw1 = malloc_max sw"
    using exchange_step [OF Suc.prems rep assms(4)] t by blast
  have "distinct ns" using Suc.prems by (simp add: transfer_ready_def)
  then have len: "m = length ?ns" and set: "set ns = insert i (set ?ns)" "i \<notin> set ?ns"
    using Suc.hyps(2) i distinct_filter_one [of ns i] by auto
  obtain sw' v' cw' where run: "(exchange z segs csk sk ^^ m) (sw1, v1, cw1) (sw', v', cw')"
    and r: "transfer_ready z csk sk k ts l [] content sw' v' cw'" "?ns \<noteq> [] \<longrightarrow> names_recording t l v' cw' \<and> store_wf (fs cw')"
      "\<And>p. node_at (fs sw') p = (if p \<in> server_cloud t l ` set ?ns then None else node_at (fs sw1) p)"
      "\<And>j. j \<in> set ?ns \<Longrightarrow> node_at (fs cw') (local_cloud t l j) = Some (File (content j))"
      "\<And>p. p \<notin> local_cloud t l ` set ?ns \<Longrightarrow>
        node_at (fs cw') p = node_at (if ?ns = [] then fs cw1 else local_store t l (fs cw1)) p"
      "deny sw' = deny sw1" "malloc_max sw' = malloc_max sw1"
    using Suc.hyps(1) [OF len r1(1)] len by blast
  have st: "storable (fs cw) t l i" and nm: "rec_name t"
    using Suc.prems i t assms(2) Min_in [of "set ts"] rec_name_timestamp [of "Min (set ts)"]
    by (auto simp: transfer_ready_def server_ready_def recordings_def list_all_iff)
  have idem: "local_store t l (fs cw1) = fs cw1" using local_store_idem [OF st nm] r1(4) by simp
  have "(exchange z segs csk sk ^^ length ns) (sw, v, cw) (sw', v', cw')"
    using relpowp_Suc_I2 [OF step run] Suc.hyps(2) by simp
  moreover have "names_recording t l v' cw' \<and> store_wf (fs cw')"
    using r(2) r1(2,5) run len by (cases "?ns = []") auto
  moreover have "node_at (fs sw') p = (if p \<in> server_cloud t l ` set ns then None else node_at (fs sw) p)" for p
    unfolding r(3) r1(3) set(1) by (auto simp: node_at_del)
  moreover have "node_at (fs cw') (local_cloud t l j) = Some (File (content j))" if "j \<in> set ns" for j
  proof (cases "j = i")
    case True
    have "local_cloud t l i \<notin> local_cloud t l ` set ?ns" by (auto simp: local_cloud_inj)
    with r(5) [of "local_cloud t l i"] idem True show ?thesis by (simp add: r1(4) node_at_put)
  next
    case False
    then show ?thesis using r(4) that by simp
  qed
  moreover have "node_at (fs cw') p = node_at (if ns = [] then fs cw else local_store t l (fs cw)) p"
    if "p \<notin> local_cloud t l ` set ns" for p
  proof -
    have "p \<notin> local_cloud t l ` set ?ns" "p \<noteq> local_cloud t l i" using that i by auto
    with r(5) [of p] idem ns show ?thesis by (simp add: r1(4) node_at_put)
  qed
  moreover have "deny sw' = deny sw" "malloc_max sw' = malloc_max sw" using r(6,7) r1(6,7) by simp_all
  ultimately show ?case using r(1) by blast
qed

end
