(* ===== verification/Client_Finish.thy ===== *)
theory Client_Finish
  imports Client_Round
begin

text \<open>
  The end of a recording on the client: the four files besides the point clouds, the request
  to remove the recording from the server, and the renaming of the local directory.
\<close>

section \<open>A place for a file\<close>

definition room :: "store \<Rightarrow> path \<Rightarrow> bool" where
  "room st p \<longleftrightarrow> p \<noteq> [] \<and> node_at st (butlast p) = Some Dir \<and> node_at st p \<noteq> Some Dir"

lemma room_writable: "permissive w \<Longrightarrow> room (fs w) (pcomps p) \<Longrightarrow> writable w p"
  by (simp add: room_def writable_def permissive_denied)

lemma room_put: "room st p \<Longrightarrow> room st q \<Longrightarrow> room (put_node p (File s) st) q"
  by (auto simp: room_def node_at_put)

text \<open>Writing several files.\<close>

lemma node_at_put_files:
  assumes "\<And>r. r \<in> set rels \<Longrightarrow> f r \<noteq> []"
  shows "inj_on f (set rels) \<Longrightarrow> r \<in> set rels \<Longrightarrow>
      node_at (fold (\<lambda>r. put_node (f r) (File (c r))) rels st) (f r) = Some (File (c r))"
    and "q \<notin> f ` set rels \<Longrightarrow> node_at (fold (\<lambda>r. put_node (f r) (File (c r))) rels st) q = node_at st q"
proof -
  have other: "node_at (fold (\<lambda>r. put_node (f r) (File (c r))) rs st) q = node_at st q"
    if "q \<notin> f ` set rs" "\<And>r. r \<in> set rs \<Longrightarrow> f r \<noteq> []" for q rs st
    using that by (induction rs arbitrary: st) (auto simp: node_at_put)
  then show "q \<notin> f ` set rels \<Longrightarrow> node_at (fold (\<lambda>r. put_node (f r) (File (c r))) rels st) q = node_at st q"
    using assms by blast
  show "inj_on f (set rels) \<Longrightarrow> r \<in> set rels \<Longrightarrow>
      node_at (fold (\<lambda>r. put_node (f r) (File (c r))) rels st) (f r) = Some (File (c r))"
    using assms
  proof (induction rels arbitrary: st)
    case (Cons x xs)
    show ?case
    proof (cases "r \<in> set xs")
      case True
      then show ?thesis using Cons by (simp add: inj_on_insert)
    next
      case False
      then have "r = x" "f r \<notin> f ` set xs" using Cons.prems(1,2) by (auto simp: inj_on_def)
      then show ?thesis using other [of "f r" xs] Cons.prems(3) by (simp add: node_at_put)
    qed
  qed simp
qed

section \<open>The request of a file\<close>

definition requested_line :: "string \<Rightarrow> int \<Rightarrow> int \<Rightarrow> string" where
  "requested_line p a b = ''SENDING REQUESTED '' @ p @ '' '' @ fmt_d a @ '' '' @ fmt_d b"

lemma sformat_requested: "sformat ''%*s %*s %*s %ld %ld'' =
    [SWord False, SSpace, SWord False, SSpace, SWord False, SSpace, SInt 64, SSpace, SInt 64]"
  by (simp add: sformat_simps)

lemma sscanf_requested:
  assumes "word_ok p" "int64 a" "int64 b"
  shows "sscanf (requested_line p a b) ''%*s %*s %*s %ld %ld'' = [SvInt a, SvInt b]"
proof -
  have c: "word_ok ''SENDING''" "word_ok ''REQUESTED''" by (simp_all add: word_ok_def isspace_def)
  have "requested_line p a b = ''SENDING'' @ '' '' @ ''REQUESTED'' @ '' '' @ p @ '' '' @ fmt_d a @ '' '' @ fmt_d b"
    by (simp add: requested_line_def)
  moreover have "scan (sformat ''%*s %*s %*s %ld %ld'')
      (c @ '' '' @ d @ '' '' @ p @ '' '' @ fmt_d a @ '' '' @ fmt_d b) = [SvInt a, SvInt b]"
    if "word_ok c" "word_ok d" for c d
    using that assms
    by (simp add: sformat_requested scan_word_simps fmt_d_word wrap_int_64 del: scan.simps(2-6))
  ultimately show ?thesis using c by (simp only: sscanf_def)
qed

text \<open>The path of a file below its recording.\<close>

definition below :: "string \<Rightarrow> string" where
  "below rel = dropWhile (\<lambda>c. c \<noteq> CHR ''/'') rel"

text \<open>A relative path that the client may ask for: a recording, a slash and a path in it.\<close>

definition rel_ok :: "string \<Rightarrow> bool" where
  "rel_ok rel \<longleftrightarrow> word_ok rel \<and> list_all (text_char True) rel \<and> hd rel \<noteq> CHR ''/'' \<and> CHR ''/'' \<in> set rel \<and>
     length rel < 116"

lemma sscanf_below: "rel_ok rel \<Longrightarrow> sscanf rel ''%*[^/]%s'' = [SvStr (below rel)]"
proof -
  assume r: "rel_ok rel"
  have f: "sformat ''%*[^/]%s'' = [SUntil CHR ''/'', SWord True]" by (simp add: sformat_simps)
  have w: "takeWhile (\<lambda>x. x \<noteq> CHR ''/'') rel \<noteq> []" using r by (cases rel) (auto simp: rel_ok_def word_ok_def)
  have "below rel \<noteq> []" using r by (auto simp: below_def rel_ok_def dropWhile_eq_Nil_conv)
  moreover have "list_all (\<lambda>c. \<not> isspace c) (below rel)"
    using r set_dropWhileD by (fastforce simp: below_def rel_ok_def word_ok_def list_all_iff)
  ultimately have "word_ok (below rel)" by (simp add: word_ok_def)
  then have "scan [SWord True] (below rel) = [SvStr (below rel)]" by (simp only: scan_SWord_end) simp
  moreover have "scan [SUntil CHR ''/'', SWord True] rel = scan [SWord True] (below rel)"
    using w by (simp add: below_def Let_def del: scan.simps(4))
  ultimately show ?thesis by (simp only: sscanf_def f)
qed

text \<open>Where the file goes.\<close>

definition dest :: "string \<Rightarrow> string \<Rightarrow> string" where
  "dest dir rel = dir @ ''/'' @ below rel"

definition send_file_request :: "string \<Rightarrow> string" where
  "send_file_request rel = ''SEND_FILE '' @ rel"

lemma rel_ok_nul_free: "rel_ok rel \<Longrightarrow> nul_free rel \<and> nul_free (below rel)"
  using set_dropWhileD [of _ "\<lambda>c. c \<noteq> CHR ''/''" rel]
  by (auto simp: rel_ok_def below_def nul_free_def list_all_iff text_char_def)

lemma length_below: "length (below rel) \<le> length rel"
  by (simp add: below_def length_dropWhile_le)

definition file_bytes :: "string \<Rightarrow> string \<Rightarrow> string \<Rightarrow> string" where
  "file_bytes p c s = requested_line p (int (length s)) (int (length c)) @ nl # c @ ''END'' @ [nl]"

lemma RequestFile_run:
  assumes w: "log_ok w" "tx_clean sk w" "reader_ok sk b w" "permissive w"
    and pend: "pending sk b w = file_bytes p c s @ rest"
    and p: "word_ok p" "list_all (text_char True) p" "length p < 4000"
    and rel: "rel_ok rel" and dir: "cstr_of dir_array = Some dir" "length dir < 100"
    and z: "unpacks z w c s" and st: "room (fs w) (pcomps (dest dir rel))"
  shows "\<exists>b' w'. RequestFile z sk b rel dir_array w = (Ret (0, b'), w') \<and> reader_ok sk b' w' \<and>
    pending sk b' w' = rest \<and>
    talk sk (put_node (pcomps (dest dir rel)) (File s) (fs w)) (sent sk (ln (send_file_request rel)) w) w'"
proof -
  let ?h = "requested_line p (int (length s)) (int (length c))" and ?a = "uninit_array (BUFSIZ + 1) ''RequestFile.buf'' w"
  let ?t = "uninit_array (MAX_PATH_LEN div 2) ''RequestFile.temp'' w"
  have i64: "int64 (int (length s))" "int64 (int (length c))" using z by (simp_all add: unpacks_def int64_def)
  have ans: "answer sg ?h" for sg
  proof -
    have "list_all (text_char sg) p" using p(2) by (auto simp: list_all_iff text_char_True)
    moreover have "length ?h \<le> BUFSIZ"
      using i64 [THEN length_fmt_int64] p(3) by (simp add: requested_line_def BUFSIZ_def)
    ultimately show ?thesis
      by (simp add: answer_def requested_line_def text_fmt_d) (simp add: text_char_def nl_def NUL_def)
  qed
  have cmd: "os_sprintf MAXCMDLEN (ln ''SEND_FILE %s'') [FStr rel] = mret (ln (send_file_request rel))"
    using rel by (simp add: os_sprintf_def MAXCMDLEN_def rel_ok_def format_simps ln_def nl_def send_file_request_def)
  obtain b1 a1 w1 where req: "TcpSendReceiveTT sk b (ln (send_file_request rel)) ?a w = (Ret (0, b1, a1), w1)"
    and r1: "holds_line a1 ?h" "reader_ok sk b1 w1" "pending sk b1 w1 = c @ ''END'' @ nl # rest"
      "talk sk (fs w) (sent sk (ln (send_file_request rel)) w) w1"
  proof -
    have "pending sk b w = ?h @ nl # c @ ''END'' @ nl # rest" "length ?a = BUFSIZ + 1"
      using pend by (simp_all add: file_bytes_def)
    from TcpSendReceiveTT_run [OF w(1-3) this(1) ans this(2)] show ?thesis using that by blast
  qed
  have nf: "nul_free ?h" using ans [of True] by (auto simp: answer_def intro: text_nul_free)
  have head: "strncmp ?h ''SENDING REQUESTED'' 17 = 0"
    using strncmp_0_iff [of ?h "''SENDING REQUESTED''" 17] nf by (simp add: requested_line_def nul_free_def NUL_def)
  have bl: "nul_free (below rel)" "length (below rel) < 116"
    using rel_ok_nul_free [OF rel] length_below [of rel] rel by (simp_all add: rel_ok_def)
  have word: "scan_word (MAX_PATH_LEN div 2) ?t [SvStr (below rel)] 0 = mret (store_at (below rel @ [NUL]) ?t)"
    using bl(2) by (simp add: scan_word_def MAX_PATH_LEN_def)
  have tl: "cstr_of (store_at (below rel @ [NUL]) ?t) = Some (below rel)"
    using cstr_of_terminated [OF bl(1)] by (simp add: store_at_def)
  have path: "os_sprintf MAX_PATH_LEN ''%s/%s'' [FStr dir, FStr (below rel)] = mret (dest dir rel)"
    using bl(2) dir(2) by (simp add: os_sprintf_def MAX_PATH_LEN_def format_simps dest_def)
  have h1: "log_ok w1" "unpacks z w1 c s" "fs w1 = fs w" "permissive w1"
    using talk_ok(1) [OF r1(4)] w talk_fields(1,5,6) [OF r1(4)] z by (simp_all add: unpacks_def permissive_def)
  have wr: "writable w1 (dest dir rel)" using room_writable [OF h1(4)] st h1(3) by simp
  obtain b2 w2 where rd: "ReceiveAndDecompress z sk b1 (dest dir rel) (int (length c)) (int (length s)) w1 =
      (Ret (0, b2, int (length s)), w2)"
    and r2: "reader_ok sk b2 w2" "pending sk b2 w2 = rest"
      "talk sk (put_node (pcomps (dest dir rel)) (File s) (fs w1)) w1 w2"
    using ReceiveAndDecompress_run [OF h1(1) r1(2,3) _ wr, of z s] h1(2) by (auto simp: unpacks_def)
  have "RequestFile z sk b rel dir_array w = (Ret (0, b2), w2)"
    using req r1(1) dir(1) rd head tl
    by (simp add: RequestFile_def mbind_mget cmd mbind_Ret read_cstr_run holds_line_def sscanf_requested [OF p(1) i64]
        sscanf_below [OF rel] Let_def word path mret_run)
  with r2 talk_trans [OF r1(4) r2(3)] h1(3) show ?thesis by auto
qed

section \<open>The remaining files\<close>

lemma request_one_run:
  assumes w: "log_ok w" "tx_clean sk w" "reader_ok sk b w" "permissive w"
    and pend: "pending sk b w = file_bytes p c s @ rest"
    and p: "word_ok p" "list_all (text_char True) p" "length p < 4000"
    and rel: "rel_ok rel" and dir: "cstr_of dir_array = Some dir" "length dir < 100"
    and z: "unpacks z w c s" and st: "room (fs w) (pcomps (dest dir rel))"
  shows "\<exists>b' w'. request_one z sk dir_array b rel w = (Ret (0, b'), w') \<and> reader_ok sk b' w' \<and>
    pending sk b' w' = rest \<and>
    talk sk (put_node (pcomps (dest dir rel)) (File s) (fs w)) (sent sk (ln (send_file_request rel)) w) w'"
proof -
  let ?w = "logged (ln ''TT - Requesting %s'') [FStr rel] w"
  have h: "log_ok ?w" "tx_clean sk ?w" "reader_ok sk b ?w" "permissive ?w" "pending sk b ?w = file_bytes p c s @ rest"
    "unpacks z ?w c s" "room (fs ?w) (pcomps (dest dir rel))"
    using w pend z st by (simp_all add: unpacks_def permissive_def)
  obtain b' w1 where run: "RequestFile z sk b rel dir_array ?w = (Ret (0, b'), w1)"
    and r: "reader_ok sk b' w1" "pending sk b' w1 = rest"
      "talk sk (put_node (pcomps (dest dir rel)) (File s) (fs w)) (sent sk (ln (send_file_request rel)) ?w) w1"
    using RequestFile_run [OF h(1-5) p rel dir h(6,7)] by auto
  let ?w' = "logged (ln ''TT - Finished writing %s'') [FStr rel] w1"
  have ok: "log_ok w1" using talk_ok(1) [OF r(3)] w(1) by simp
  have "request_one z sk dir_array b rel w = (Ret (0, b'), ?w')"
    using run ok by (simp add: request_one_def PrintLog_seq w(1) mbind_Ret mret_run)
  moreover have "talk sk (put_node (pcomps (dest dir rel)) (File s) (fs w)) (sent sk (ln (send_file_request rel)) w) ?w'"
    using talk_trans [OF talk_trans [OF talk_sent [OF talk_logged] r(3)] talk_logged] talk_fields(1) [OF r(3)] by simp
  ultimately show ?thesis using r by auto
qed

text \<open>The four requests one after the other.\<close>

fun request_all :: "zlib \<Rightarrow> int \<Rightarrow> string \<Rightarrow> string list \<Rightarrow> buffer_tcp \<Rightarrow> ('x, int \<times> buffer_tcp) cl" where
  "request_all z sk dir [] b = mret (0, b)"
| "request_all z sk dir (rel # rels) b =
     mbind (request_one z sk dir b rel) (\<lambda>(r, b). if r < 0 then mret (- 1, b) else request_all z sk dir rels b)"

definition remaining_names :: "string \<Rightarrow> int \<Rightarrow> string list" where
  "remaining_names ts l =
     (let k = (if l = 0 then 1 else 0)
      in [local_name ts l ''run/mpa/tof/data.csv'', local_name ts l ''info.json'',
          local_name ts k ''run/mpa/vvpx4_body_wrt_local/data.csv'', local_name ts k ''info.json''])"

text \<open>The server's path and the content of each file.\<close>

definition remote_file :: "zlib \<Rightarrow> 'x world_scheme \<Rightarrow> (string \<Rightarrow> string) \<Rightarrow> (string \<Rightarrow> string) \<Rightarrow> (string \<Rightarrow> string) \<Rightarrow>
    string \<Rightarrow> bool" where
  "remote_file z w rpath pk content rel \<longleftrightarrow> rel_ok rel \<and> word_ok (rpath rel) \<and>
     list_all (text_char True) (rpath rel) \<and> length (rpath rel) < 4000 \<and> unpacks z w (pk rel) (content rel)"

lemma request_all_run:
  assumes "log_ok w" "tx_clean sk w" "reader_ok sk b w" "permissive w"
    and "pending sk b w = concat (map (\<lambda>rel. file_bytes (rpath rel) (pk rel) (content rel)) rels) @ rest"
    and dir: "cstr_of dir_array = Some dir" "length dir < 100"
    and "\<And>rel. rel \<in> set rels \<Longrightarrow> remote_file z w rpath pk content rel \<and> room (fs w) (pcomps (dest dir rel))"
  shows "\<exists>b' w'. request_all z sk dir_array rels b w = (Ret (0, b'), w') \<and> reader_ok sk b' w' \<and>
    pending sk b' w' = rest \<and>
    talk sk (fold (\<lambda>rel. put_node (pcomps (dest dir rel)) (File (content rel))) rels (fs w))
      (sent_all sk (map (\<lambda>rel. ln (send_file_request rel)) rels) w) w'"
  using assms(1-5,8)
proof (induction rels arbitrary: b w)
  case Nil
  then show ?case using talk_refl [of sk w] by (auto simp: mret_run)
next
  case (Cons rel rels)
  have f: "remote_file z w rpath pk content rel" "room (fs w) (pcomps (dest dir rel))" using Cons.prems(6) by simp_all
  obtain b1 w1 where run: "request_one z sk dir_array b rel w = (Ret (0, b1), w1)"
    and r: "reader_ok sk b1 w1"
      "pending sk b1 w1 = concat (map (\<lambda>rel. file_bytes (rpath rel) (pk rel) (content rel)) rels) @ rest"
      "talk sk (put_node (pcomps (dest dir rel)) (File (content rel)) (fs w)) (sent sk (ln (send_file_request rel)) w) w1"
    using request_one_run [OF Cons.prems(1-4) _ _ _ _ _ dir _ f(2), of "rpath rel" "pk rel" "content rel" _ z]
      Cons.prems(5) f(1) by (auto simp: remote_file_def)
  have h: "log_ok w1" "tx_clean sk w1" "permissive w1"
    using talk_ok [OF r(3)] Cons.prems(1,2,4) talk_fields(5) [OF r(3)] by (simp_all add: permissive_def)
  have each: "remote_file z w1 rpath pk content q \<and> room (fs w1) (pcomps (dest dir q))" if "q \<in> set rels" for q
    using Cons.prems(6) [of q] that room_put [OF f(2)] talk_fields(1,6) [OF r(3)] by (simp add: remote_file_def unpacks_def)
  obtain b2 w2 where rest: "request_all z sk dir_array rels b1 w1 = (Ret (0, b2), w2)"
    and r2: "reader_ok sk b2 w2" "pending sk b2 w2 = rest"
      "talk sk (fold (\<lambda>rel. put_node (pcomps (dest dir rel)) (File (content rel))) rels (fs w1))
        (sent_all sk (map (\<lambda>rel. ln (send_file_request rel)) rels) w1) w2"
    using Cons.IH [OF h(1,2) r(1) h(3) r(2) each] by blast
  have "request_all z sk dir_array (rel # rels) b w = (Ret (0, b2), w2)"
    using run rest by (simp add: mbind_Ret)
  with r2 talk_trans [OF talk_sent_all [OF r(3)] r2(3)] talk_fields(1) [OF r(3)] show ?case by auto
qed

lemma locked_read:
  assumes "log_ok w"
  shows "mseq mutex_lock (mbind (mget f) (\<lambda>d. mseq mutex_unlock (k d))) w = k (f (w\<lparr>td := (td w)\<lparr>t_lock := Mx_Locked\<rparr>\<rparr>)) w"
proof -
  have eq: "w\<lparr>td := (td w)\<lparr>t_lock := Mx_Free\<rparr>\<rparr> = w"
    using assms by (cases w; cases "td w") (simp add: log_ok_def)
  show ?thesis
    using assms by (simp add: mseq_def mbind_def mget_def mutex_lock_def mutex_unlock_def mmod_def log_ok_def eq)
qed

lemma RequestAll_request_all:
  assumes w: "log_ok w" and d: "cstr_of (nd_first (tr_d (t_tr (td w)))) = Some ts" "nd_logger_n (tr_d (t_tr (td w))) = l"
    and n: "rec_name ts" "int_name l"
  shows "RequestAllReaminingFiles z sk b dir_array w = request_all z sk dir_array (remaining_names ts l) b w"
proof -
  define k :: int where "k = (if l = 0 then 1 else 0)"
  have k: "int_name k" by (simp add: k_def int_name_def)
  have fit: "snprintf MAX_REL_PATH_LEN f [FStr ts, FInt m] = local_name ts m s"
    if "vformat f [FStr ts, FInt m] = local_name ts m s" "length s \<le> 40" "int_name m" for f m s
    using that n(1) length_local_name [OF that(3), of ts s]
    by (subst snprintf_fits) (simp_all add: MAX_REL_PATH_LEN_def MAX_PATH_LEN_def rec_name_def TIMESTAMP_LEN_def)
  have v: "tr_d (t_tr (td (w\<lparr>td := (td w)\<lparr>t_lock := Mx_Locked\<rparr>\<rparr>))) = tr_d (t_tr (td w))" by simp
  show ?thesis
    unfolding RequestAllReaminingFiles_def locked_read [OF w] Let_def v d(2)
    using d
    by (fold k_def) (simp add: mbind_Ret read_cstr_run remaining_names_def Let_def
      fit [OF local_formats(6) _ n(2)] fit [OF local_formats(7) _ n(2)] fit [OF local_formats(8) _ k]
      fit [OF local_formats(7) _ k] flip: k_def cong: if_cong)
qed

section \<open>The branch that ends a recording\<close>

definition empty_line :: "string \<Rightarrow> int \<Rightarrow> string" where
  "empty_line ts l = ''EMPTY '' @ ts @ '' '' @ fmt_d l"

definition remove_dir_request :: "string \<Rightarrow> string" where
  "remove_dir_request ts = ''REMOVE_DIR '' @ ts"

definition final_name :: "string \<Rightarrow> string" where
  "final_name ts = DATA_DIR @ ''/'' @ ts"

text \<open>The local store after the four files and after the renaming.\<close>

definition with_remaining :: "string \<Rightarrow> int \<Rightarrow> (string \<Rightarrow> string) \<Rightarrow> store \<Rightarrow> store" where
  "with_remaining ts l content st =
     fold (\<lambda>rel. put_node (pcomps (dest (active_name ts) rel)) (File (content rel))) (remaining_names ts l) st"

definition finished_store :: "string \<Rightarrow> int \<Rightarrow> (string \<Rightarrow> string) \<Rightarrow> store \<Rightarrow> store" where
  "finished_store ts l content st =
     move_tree (pcomps (active_name ts)) (pcomps (final_name ts)) (with_remaining ts l content st)"

lemma sscanf_empty:
  assumes "word_ok ts" "int32 l"
  shows "sscanf (empty_line ts l) ''%*s %s %d'' = [SvStr ts, SvInt l]"
proof -
  have c: "word_ok ''EMPTY''" by (simp add: word_ok_def isspace_def)
  have f: "sformat ''%*s %s %d'' = [SWord False, SSpace, SWord True, SSpace, SInt 32]" by (simp add: sformat_simps)
  have "scan (sformat ''%*s %s %d'') (c @ '' '' @ ts @ '' '' @ fmt_d l) = [SvStr ts, SvInt l]" if "word_ok c" for c
    using that assms by (simp add: f scan_word_simps fmt_d_word wrap_int_32 del: scan.simps(2-6))
  from this [OF c] show ?thesis by (simp add: sscanf_def empty_line_def)
qed

lemma answer_empty: "rec_name ts \<Longrightarrow> int32 l \<Longrightarrow> answer sg (empty_line ts l)"
proof -
  assume ts: "rec_name ts" and l: "int32 l"
  have "list_all (text_char sg) ts" using ts by (auto simp: rec_name_def list_all_iff text_char_True)
  moreover have "length (empty_line ts l) \<le> BUFSIZ"
    using ts length_fmt_int32 [OF l] by (simp add: empty_line_def rec_name_def TIMESTAMP_LEN_def BUFSIZ_def)
  ultimately show ?thesis
    by (simp add: answer_def empty_line_def text_fmt_d) (simp add: text_char_def nl_def NUL_def)
qed

lemma length_final: "rec_name ts \<Longrightarrow> length (final_name ts) < 40"
  by (simp add: final_name_def rec_name_def TIMESTAMP_LEN_def DATA_DIR_def)

lemma tt_empty_run:
  assumes w: "log_ok w" "tx_clean sk w" "reader_ok sk (tt_b v) w" "permissive w"
    and pend: "pending sk (tt_b v) w =
      concat (map (\<lambda>rel. file_bytes (rpath rel) (pk rel) (content rel)) (remaining_names ts l)) @ line @ nl # rest"
    and line: "answer (signed_char w) line"
    and v: "holds_line (tt_rec v) (empty_line ts l)" "cstr_of (tt_dir v) = Some (active_name ts)"
    and d: "cstr_of (nd_first (tr_d (t_tr (td w)))) = Some ts" "nd_logger_n (tr_d (t_tr (td w))) = l"
    and n: "rec_name ts" "int32 l"
    and rem: "\<And>rel. rel \<in> set (remaining_names ts l) \<Longrightarrow>
      remote_file z w rpath pk content rel \<and> room (fs w) (pcomps (dest (active_name ts) rel))"
    and mv: "movable (with_remaining ts l content (fs w)) (pcomps (active_name ts)) (pcomps (final_name ts))"
      "node_at (with_remaining ts l content (fs w)) (pcomps (active_name ts)) = Some Dir"
      "node_at (with_remaining ts l content (fs w)) (pcomps (final_name ts)) \<in> {None, Some Dir}"
  shows "\<exists>v' w'. tt_empty z sk v w = (Ret v', w') \<and> holds_line (tt_rec v') line \<and>
    reader_ok sk (tt_b v') w' \<and> pending sk (tt_b v') w' = rest \<and> tt_dir v' = tt_dir v \<and>
    talk sk (finished_store ts l content (fs w))
      (sent sk (ln (remove_dir_request ts)) (sent_all sk (map (\<lambda>rel. ln (send_file_request rel)) (remaining_names ts l)) w)) w'"
proof -
  let ?sent = "sent_all sk (map (\<lambda>rel. ln (send_file_request rel)) (remaining_names ts l))"
  let ?st = "with_remaining ts l content (fs w)"
  define A where "A = store_at (ts @ [NUL]) (tt_folder v)"
  have ts: "word_ok ts" "nul_free ts" "length ts < TIMESTAMP_LEN"
    using n(1) rec_name_nul_free [OF n(1)] by (simp_all add: rec_name_def)
  note scan = sscanf_empty [OF ts(1) n(2)]
  have word: "scan_word TIMESTAMP_LEN (tt_folder v) [SvStr ts, SvInt l] 0 = mret A"
    using ts(3) by (simp add: scan_word_def A_def)
  have folder: "cstr_of A = Some ts" using cstr_of_terminated [OF ts(2)] by (simp add: A_def store_at_def)
  let ?w1 = "logged (ln ''TT - Finished sending files (EMPTY)'') [] w"
  have rem1: "remote_file z ?w1 rpath pk content rel \<and> room (fs ?w1) (pcomps (dest (active_name ts) rel))"
    if "rel \<in> set (remaining_names ts l)" for rel
    using rem [OF that] by (simp add: remote_file_def unpacks_def)
  have h1: "log_ok ?w1" "tx_clean sk ?w1" "reader_ok sk (tt_b v) ?w1" "permissive ?w1"
      "pending sk (tt_b v) ?w1 = concat (map (\<lambda>rel. file_bytes (rpath rel) (pk rel) (content rel)) (remaining_names ts l)) @
        line @ nl # rest" "length (active_name ts) < 100"
    using w pend active_text [OF n(1)] by (simp_all add: permissive_def)
  obtain b2 w2 where all: "request_all z sk (tt_dir v) (remaining_names ts l) (tt_b v) ?w1 = (Ret (0, b2), w2)"
    and r2: "reader_ok sk b2 w2" "pending sk b2 w2 = line @ nl # rest" "talk sk ?st (?sent ?w1) w2"
    using request_all_run [OF h1(1-5) v(2) h1(6) rem1] by (auto simp: with_remaining_def)
  have t2: "talk sk ?st (?sent w) w2"
    by (rule talk_trans [OF talk_sent_all [OF talk_logged] r2(3)])
  have rq: "RequestAllReaminingFiles z sk (tt_b v) (tt_dir v) ?w1 = (Ret (0, b2), w2)"
    using RequestAll_request_all [OF h1(1) _ _ n(1) int_name_int32 [OF n(2)]] d all by simp
  have h2: "log_ok w2" "tx_clean sk w2" "permissive w2" "answer (signed_char w2) line" "fs w2 = ?st"
    using talk_ok [OF t2] w talk_fields(1,5,8) [OF t2] line by (simp_all add: permissive_def)
  let ?w3 = "logged (ln ''TT - Request to remove %s from the server'') [FStr ts] w2"
  define v1 where "v1 = v\<lparr>tt_b := b2, tt_folder := A, tt_logger_n := l\<rparr>"
  have h3: "log_ok ?w3" "tx_clean sk ?w3" "reader_ok sk (tt_b v1) ?w3" "pending sk (tt_b v1) ?w3 = line @ nl # rest"
      "answer (signed_char ?w3) line" "length (tt_rec v1) = BUFSIZ + 1"
    using h2 r2 v(1) by (simp_all add: v1_def holds_line_def)
  have cmd: "snprintf MAX_REL_PATH_LEN (ln ''REMOVE_DIR %s'') [FStr ts] = ln (remove_dir_request ts)"
    using ts(3) by (subst snprintf_fits)
      (simp_all add: format_simps ln_def nl_def remove_dir_request_def MAX_REL_PATH_LEN_def MAX_PATH_LEN_def TIMESTAMP_LEN_def)
  obtain b4 rec4 w4 where rm: "tt_request sk (ln (remove_dir_request ts)) v1 ?w3 = (Ret (v1\<lparr>tt_b := b4, tt_rec := rec4\<rparr>), w4)"
    and r4: "holds_line rec4 line" "reader_ok sk b4 w4" "pending sk b4 w4 = rest"
      "talk sk ?st (sent sk (ln (remove_dir_request ts)) ?w3) w4"
    using tt_request_run [OF h3, of "ln (remove_dir_request ts)"] h2(5) by auto
  have t4: "talk sk ?st (sent sk (ln (remove_dir_request ts)) (?sent w)) w4"
    using talk_trans [OF talk_sent [OF talk_trans [OF t2 talk_logged]] r4(4)] h2(5) by simp
  let ?w5 = "logged (ln ''TT - Renaming local dir to %s'') [FStr ts] w4"
  have h5: "log_ok w4" "fs ?w5 = ?st" "\<not> denied ''rename'' p ?w5" for p
    using talk_ok(1) [OF t4] w(1,4) talk_fields(1,5) [OF t4] by (simp_all add: denied_def permissive_def)
  have fin: "snprintf MAX_REL_PATH_LEN ''%s/%s'' [FStr DATA_DIR, FStr ts] = final_name ts"
    using length_final [OF n(1)] by (subst snprintf_fits)
      (simp_all add: format_simps final_name_def MAX_REL_PATH_LEN_def MAX_PATH_LEN_def)
  let ?w6 = "?w5\<lparr>fs := finished_store ts l content (fs w)\<rparr>"
  have ren: "os_rename (active_name ts) (final_name ts) ?w5 = (Ret 0, ?w6)"
    using os_rename_run [of ?w5 "active_name ts" "final_name ts"] mv h5(2,3) by (simp add: finished_store_def)
  have "tt_empty z sk v w = (Ret (v1\<lparr>tt_b := b4, tt_rec := rec4\<rparr>), ?w6)"
    using v w(1) h2(1) h5(1) folder rq rm ren
    by (simp add: tt_empty_def holds_line_def read_cstr_run mbind_Ret scan Let_def word
        PrintLog_seq [unfolded mseq_def] mseq_run mret_run cmd fin)
      (simp add: v1_def mbind_Ret read_cstr_run PrintLog_seq [unfolded mseq_def] mseq_run mret_run)
  moreover have "talk sk (finished_store ts l content (fs w))
      (sent sk (ln (remove_dir_request ts)) (?sent w)) ?w6"
  proof -
    have "?w6 = ?w5\<lparr>fs := finished_store ts l content (fs w), errno_val := errno_val ?w5\<rparr>" by simp
    then show ?thesis using talk_trans [OF talk_trans [OF t4 talk_logged] talk_fs] by metis
  qed
  ultimately show ?thesis using r4 by (auto simp: v1_def)
qed

section \<open>A round that ends a recording\<close>

definition requests_of_end :: "string \<Rightarrow> int \<Rightarrow> string list" where
  "requests_of_end ts l = map send_file_request (remaining_names ts l) @ [remove_dir_request ts]"

lemma tt_round_empty:
  assumes w: "log_ok w" "tx_clean sk w" "reader_ok sk (tt_b v) w" "permissive w"
    and pend: "pending sk (tt_b v) w = empty_line ts l @ nl #
      concat (map (\<lambda>rel. file_bytes (rpath rel) (pk rel) (content rel)) (remaining_names ts l)) @ line @ nl # rest"
    and line: "answer (signed_char w) line"
    and v: "length (tt_rec v) = BUFSIZ + 1" "cstr_of (tt_dir v) = Some (active_name ts)"
    and d: "cstr_of (nd_first (tr_d (t_tr (td w)))) = Some ts" "nd_logger_n (tr_d (t_tr (td w))) = l"
    and n: "rec_name ts" "int32 l"
    and rem: "\<And>rel. rel \<in> set (remaining_names ts l) \<Longrightarrow>
      remote_file z w rpath pk content rel \<and> room (fs w) (pcomps (dest (active_name ts) rel))"
    and mv: "movable (with_remaining ts l content (fs w)) (pcomps (active_name ts)) (pcomps (final_name ts))"
      "node_at (with_remaining ts l content (fs w)) (pcomps (active_name ts)) = Some Dir"
      "node_at (with_remaining ts l content (fs w)) (pcomps (final_name ts)) \<in> {None, Some Dir}"
  shows "\<exists>v' w'. tt_round z (Suc k) sk v w = (Ret v', w') \<and> holds_line (tt_rec v') line \<and>
    reader_ok sk (tt_b v') w' \<and> pending sk (tt_b v') w' = rest \<and> tt_dir v' = tt_dir v \<and>
    talk sk (finished_store ts l content (fs w))
      (sent_all sk (map ln (''SEND_NEXT'' # requests_of_end ts l)) w) w'"
proof -
  let ?h = "empty_line ts l" and ?w1 = "logged (ln ''TT - Requesting the next file'') [] w"
  have ah: "answer sg ?h" for sg by (rule answer_empty [OF n])
  obtain b rec w2 where rq: "tt_request sk (ln ''SEND_NEXT'') v ?w1 = (Ret (v\<lparr>tt_b := b, tt_rec := rec\<rparr>), w2)"
    and r2: "holds_line rec ?h" "reader_ok sk b w2"
      "pending sk b w2 = concat (map (\<lambda>rel. file_bytes (rpath rel) (pk rel) (content rel)) (remaining_names ts l)) @ line @ nl # rest"
      "talk sk (fs w) (sent sk (ln ''SEND_NEXT'') ?w1) w2"
    using tt_request_run [of ?w1 sk v ?h _ "ln ''SEND_NEXT''"] w pend v(1) ah by auto
  let ?v = "v\<lparr>tt_b := b, tt_rec := rec\<rparr>"
  have nf: "nul_free ?h" using ah [of True] by (auto simp: answer_def intro: text_nul_free)
  have t2: "talk sk (fs w) (sent sk (ln ''SEND_NEXT'') w) w2" using talk_trans [OF talk_sent [OF talk_logged] r2(4)] .
  have h: "log_ok w2" "tx_clean sk w2" "permissive w2" "answer (signed_char w2) line" "fs w2 = fs w" "td w2 = td w"
    using talk_ok [OF t2] w(1,2,4) talk_fields(1,2,5,8) [OF t2] line by (simp_all add: permissive_def)
  have rem2: "remote_file z w2 rpath pk content rel \<and> room (fs w2) (pcomps (dest (active_name ts) rel))"
    if "rel \<in> set (remaining_names ts l)" for rel
    using rem [OF that] h(5) talk_fields(6) [OF t2] by (simp add: remote_file_def unpacks_def)
  have v2: "reader_ok sk (tt_b ?v) w2" "holds_line (tt_rec ?v) ?h" "cstr_of (tt_dir ?v) = Some (active_name ts)"
      "pending sk (tt_b ?v) w2 = concat (map (\<lambda>rel. file_bytes (rpath rel) (pk rel) (content rel)) (remaining_names ts l)) @ line @ nl # rest"
      "cstr_of (nd_first (tr_d (t_tr (td w2)))) = Some ts" "nd_logger_n (tr_d (t_tr (td w2))) = l"
    using r2 v d h(6) by simp_all
  obtain v3 w3 where emp: "tt_empty z sk ?v w2 = (Ret v3, w3)" and r3: "holds_line (tt_rec v3) line"
      "reader_ok sk (tt_b v3) w3" "pending sk (tt_b v3) w3 = rest" "tt_dir v3 = tt_dir v"
      "talk sk (finished_store ts l content (fs w))
        (sent sk (ln (remove_dir_request ts)) (sent_all sk (map (\<lambda>rel. ln (send_file_request rel)) (remaining_names ts l)) w2)) w3"
    using tt_empty_run [OF h(1,2) v2(1) h(3) v2(4) h(4) v2(2,3,5,6) n rem2, unfolded h(5), OF _ mv] by auto
  have wait: "tt_wait (Suc k) sk ?v w2 = (Ret ?v, w2)"
    using r2(1) nf by (intro tt_wait_done [where line = ?h]) (simp_all, simp add: empty_line_def take_Cons')
  have "strncmp ?h ''SENDING'' 7 \<noteq> 0" "strncmp ?h ''EMPTY'' 5 = 0"
    using strncmp_0_iff [of ?h "''SENDING''" 7] strncmp_0_iff [of ?h "''EMPTY''" 5] nf
    by (auto simp: empty_line_def nul_free_def NUL_def)
  then have "tt_round z (Suc k) sk v w = (Ret v3, w3)"
    using rq wait emp r2(1) w(1)
    by (simp add: tt_round_def PrintLog_seq mbind_Ret read_cstr_run holds_line_def mret_run)
  moreover have "sent_all sk (map ln (''SEND_NEXT'' # requests_of_end ts l)) w =
      sent sk (ln (remove_dir_request ts)) (sent_all sk (map (\<lambda>rel. ln (send_file_request rel)) (remaining_names ts l))
        (sent sk (ln ''SEND_NEXT'') w))"
    by (simp add: requests_of_end_def sent_all_def o_def)
  ultimately show ?thesis using r3 talk_trans [OF talk_sent [OF talk_sent_all [OF t2]] r3(5)] by auto
qed

end
