(* ===== verification/Transfer_End.thy ===== *)
theory Transfer_End
  imports Transfer_Clouds Client_Finish
begin

text \<open>
  The end of a transfer: the server answers \<open>EMPTY\<close>, sends the files besides the point clouds
  and removes the recording; the client stores them and gives its copy the final name. With
  the exchanges before it this moves a whole recording from the server to the client.
\<close>

section \<open>The server's side\<close>

lemma quiet_refl: "quiet w w"
  by (simp add: quiet_def)

lemma quiet_trans: "quiet u v \<Longrightarrow> quiet v w \<Longrightarrow> quiet u w"
  by (cases u, cases v, cases w) (simp add: quiet_def)

lemma quiet_sent: "quiet v w \<Longrightarrow> quiet (sent sk s v) (sent sk s w)"
  by (cases v; cases w) (simp add: quiet_def sent_def upd_sock_def)

lemma quiet_sent_all: "quiet v w \<Longrightarrow> quiet (sent_all sk xs v) (sent_all sk xs w)"
  by (induction xs arbitrary: v w) (simp_all add: quiet_sent)

lemma quiet_out: "quiet v w \<Longrightarrow> quiet v (w\<lparr>out := x\<rparr>)" "quiet (v\<lparr>out := x\<rparr>) w = quiet v w"
  by (cases v; cases w; simp add: quiet_def)+

definition server_path :: "string \<Rightarrow> string" where
  "server_path rel = Server_Cmds.DATA_DIR @ ''/'' @ rel"

lemma server_path_ok: "rel_ok rel \<Longrightarrow> word_ok (server_path rel) \<and> list_all (text_char True) (server_path rel) \<and>
    length (server_path rel) < 200 \<and> nul_free (server_path rel)"
  by (auto simp: server_path_def rel_ok_def word_ok_def Server_Cmds.DATA_DIR_def isspace_def text_char_def nl_def NUL_def
      nul_free_def list_all_iff)

lemma file_bytes_chunks:
  "concat (file_chunks z (''SENDING REQUESTED '' @ p) s) = file_bytes p (packed z s) s"
  by (simp add: file_chunks_def file_bytes_def requested_line_def ln_def)

lemma SendFile_run:
  assumes "rel_ok rel" "zlib_ok z" "readable z w (server_path rel) s" "malloc_max w < 2 ^ 31" "tx_clean csk w"
  shows "\<exists>w'. SendFile z csk (send_file_request rel) w = (Ret 0, w') \<and>
    quiet (sent_all csk (file_chunks z (''SENDING REQUESTED '' @ server_path rel) s) w) w'"
proof -
  have rel: "word_ok rel" "nul_free rel" "length rel < 116"
    using assms(1) rel_ok_nul_free by (simp_all add: rel_ok_def)
  have c: "word_ok ''SEND_FILE''" by (simp add: word_ok_def isspace_def)
  note scan = sscanf_word [OF c rel(1)]
  let ?u = "uninit_array (Server_Find.MAX_PATH_LEN div 2) ''SendFile.rel_path'' w"
  obtain a where a: "scan_word (Server_Find.MAX_PATH_LEN div 2) ?u [SvStr rel] 0 w = (Ret a, w)" "cstr_of a = Some rel"
    using scan_word_fits [of rel "Server_Find.MAX_PATH_LEN div 2" ?u "[]" w] rel(2,3)
    unfolding Server_Find.MAX_PATH_LEN_def by auto
  have path: "snprintf Server_Find.MAX_PATH_LEN ''%s/%s'' [FStr Server_Cmds.DATA_DIR, FStr rel] = server_path rel"
    using rel(3) server_length by (subst snprintf_fits) (simp_all add: path_formats Server_Find.MAX_PATH_LEN_def server_path_def)
  have l: "length (server_path rel) < 200" using server_path_ok [OF assms(1)] by simp
  have hdr: "snprintf (BUFSIZ + 1) ''SENDING REQUESTED %s'' [FStr (server_path rel)] = ''SENDING REQUESTED '' @ server_path rel"
    using l by (subst snprintf_fits) (simp_all add: format_simps BUFSIZ_def)
  note send = CompressAndSend_run [OF assms(2-5), of "''SENDING REQUESTED '' @ server_path rel"]
  have "SendFile z csk (send_file_request rel) w = mseq (os_print (ln ''Finished sending %s'') [FStr (server_path rel)]) (mret 0)
      (sent_all csk (file_chunks z (''SENDING REQUESTED '' @ server_path rel) s) w)"
    using send l a scan
    by (simp add: SendFile_def mbind_mget send_file_request_def mbind_Ret read_cstr_run Let_def path hdr [simplified])
  then show ?thesis by (auto simp: os_print_seq mret_def intro: quiet_out quiet_refl)
qed

lemma send_file_command:
  assumes "nul_free (send_file_request rel)"
  shows "\<exists>x. server_command z csk (send_file_request rel) w =
    mseq (SendFile z csk (send_file_request rel)) (mret True) (w\<lparr>out := x\<rparr>)"
proof -
  have "strcmp (send_file_request rel) ''STATUS'' \<noteq> 0" "strncmp (send_file_request rel) ''START'' 5 \<noteq> 0"
    "strcmp (send_file_request rel) ''STOP'' \<noteq> 0" "strcmp (send_file_request rel) ''SEND_NEXT'' \<noteq> 0"
    "strncmp (send_file_request rel) ''REMOVE_FILE'' 11 \<noteq> 0" "strncmp (send_file_request rel) ''REMOVE_DIR'' 10 \<noteq> 0"
    "strncmp (send_file_request rel) ''SEND_FILE'' 9 = 0"
    using assms by (simp_all add: send_file_request_def strcmp_0_iff strncmp_0_iff nul_free_def NUL_def)
  then show ?thesis by (auto simp: server_command_def os_print_seq)
qed

lemma remove_dir_command:
  assumes "nul_free (remove_dir_request ts)"
  shows "\<exists>x. server_command z csk (remove_dir_request ts) w =
    mseq (RemoveDir csk (remove_dir_request ts) Server_Cmds.DATA_DIR) (mret True) (w\<lparr>out := x\<rparr>)"
proof -
  have "strcmp (remove_dir_request ts) ''STATUS'' \<noteq> 0" "strncmp (remove_dir_request ts) ''START'' 5 \<noteq> 0"
    "strcmp (remove_dir_request ts) ''STOP'' \<noteq> 0" "strcmp (remove_dir_request ts) ''SEND_NEXT'' \<noteq> 0"
    "strncmp (remove_dir_request ts) ''REMOVE_FILE'' 11 \<noteq> 0" "strncmp (remove_dir_request ts) ''REMOVE_DIR'' 10 = 0"
    using assms by (simp_all add: remove_dir_request_def strcmp_0_iff strncmp_0_iff nul_free_def NUL_def)
  then show ?thesis by (auto simp: server_command_def os_print_seq)
qed

lemma serve_cmds_append:
  "serve_cmds z csk xs w = (Ret True, w1) \<Longrightarrow> serve_cmds z csk (xs @ ys) w = serve_cmds z csk ys w1"
proof (induction xs arbitrary: w)
  case (Cons c cs)
  from Cons.prems obtain w2 where c: "server_command z csk c w = (Ret True, w2)" "serve_cmds z csk cs w2 = (Ret True, w1)"
    by (auto simp: mret_def elim!: mbind_RetE split: if_splits)
  then show ?case using Cons.IH by (simp add: mbind_Ret)
qed (simp add: mret_def)

lemma serve_files:
  assumes "zlib_ok z" "malloc_max w < 2 ^ 31" "tx_clean csk w"
    and "\<And>rel. rel \<in> set rels \<Longrightarrow> rel_ok rel \<and> readable z w (server_path rel) (files rel)"
  shows "\<exists>w'. serve_cmds z csk (map send_file_request rels) w = (Ret True, w') \<and>
    quiet (sent_all csk (concat (map (\<lambda>rel. file_chunks z (''SENDING REQUESTED '' @ server_path rel) (files rel)) rels)) w) w'"
  using assms(2-)
proof (induction rels arbitrary: w)
  case Nil
  then show ?case by (simp add: mret_def quiet_refl)
next
  case (Cons rel rels)
  have rel: "rel_ok rel" "readable z w (server_path rel) (files rel)" using Cons.prems(3) by simp_all
  have nf: "nul_free (send_file_request rel)"
    using rel_ok_nul_free [OF rel(1)] by (simp add: send_file_request_def nul_free_def NUL_def)
  let ?cs = "file_chunks z (''SENDING REQUESTED '' @ server_path rel) (files rel)"
  obtain x where x: "server_command z csk (send_file_request rel) w =
      mseq (SendFile z csk (send_file_request rel)) (mret True) (w\<lparr>out := x\<rparr>)"
    using send_file_command [OF nf] by blast
  obtain w1 where snd: "SendFile z csk (send_file_request rel) (w\<lparr>out := x\<rparr>) = (Ret 0, w1)"
    and q: "quiet (sent_all csk ?cs (w\<lparr>out := x\<rparr>)) w1"
    using SendFile_run [OF rel(1) assms(1), of "w\<lparr>out := x\<rparr>" "files rel" csk] rel(2) Cons.prems by auto
  have q1: "quiet (sent_all csk ?cs w) w1" using q by (simp add: sent_all_out quiet_out)
  have h: "malloc_max w1 < 2 ^ 31" "tx_clean csk w1"
    using quiet_fields(8) [OF q1] quiet_fields(10) [OF q1, of csk] Cons.prems(1,2) by simp_all
  have each: "rel_ok q \<and> readable z w1 (server_path q) (files q)" if "q \<in> set rels" for q
    using Cons.prems(3) [of q] that quiet_fields(1,3,8) [OF q1] by (simp add: readable_def denied_def)
  obtain w2 where run: "serve_cmds z csk (map send_file_request rels) w1 = (Ret True, w2)"
    and q2: "quiet (sent_all csk (concat (map (\<lambda>rel. file_chunks z (''SENDING REQUESTED '' @ server_path rel) (files rel)) rels)) w1) w2"
    using Cons.IH [OF h each] by blast
  have "serve_cmds z csk (map send_file_request (rel # rels)) w = (Ret True, w2)"
    using snd run by (simp add: mbind_def x mseq_def mret_def)
  moreover have "sent_all csk (xs @ ys) v = sent_all csk ys (sent_all csk xs v)" for xs ys and v :: "'a world_scheme"
    by (induction xs arbitrary: v) simp_all
  ultimately show ?case using quiet_trans [OF quiet_sent_all [OF q1] q2] by auto
qed

lemma sent_fixed: "malloc_max (sent k s w) = malloc_max w" "deny (sent k s w) = deny w"
  by (simp_all add: sent_def upd_sock_def)

text \<open>All commands of the end of a recording.\<close>

definition server_dir :: "string \<Rightarrow> path" where
  "server_dir t = pcomps (Server_Cmds.DATA_DIR @ ''/'' @ t)"

definition end_bytes :: "zlib \<Rightarrow> (string \<Rightarrow> string) \<Rightarrow> string \<Rightarrow> int \<Rightarrow> string" where
  "end_bytes z files t l = ln (empty_line t l) @
     concat (map (\<lambda>rel. file_bytes (server_path rel) (packed z (files rel)) (files rel)) (remaining_names t l)) @
     ln (''DIR '' @ t @ '' REMOVED'')"

lemma serve_end:
  assumes r: "server_ready z csk k ts l [] w" and stopped: "ts \<noteq> []" "k = 0 \<or> length ts \<noteq> 1"
    and t: "t = strftime_ts (Min (set ts))"
    and rem: "\<And>rel. rel \<in> set (remaining_names t l) \<Longrightarrow> rel_ok rel \<and> readable z w (server_path rel) (files rel)"
    and dir: "node_at (fs w) (server_dir t) \<noteq> None"
  shows "\<exists>w'. serve_cmds z csk (''SEND_NEXT'' # requests_of_end t l) w = (Ret True, w') \<and>
    s_tx (socks w' csk) = s_tx (socks w csk) @ end_bytes z files t l \<and>
    fs w' = without (server_dir t) (fs w) \<and> fs_ok w'"
proof -
  let ?D = "Server_Cmds.DATA_DIR"
  have wr: "recordings w ?D ts l []" "zlib_ok z" "malloc_max w < 2 ^ 31" "tx_clean csk w" "no_stale_error w" "fs_ok w"
    and nd: "\<And>p. \<not> denied ''remove'' p w" "\<And>p. \<not> denied ''opendir'' p w"
    using r by (simp_all add: server_ready_def)
  obtain ls where ls: "proc_lines w LOGGER_NAME ls" "length ls = k" using r by (auto simp: server_ready_def)
  have rep: "next_reply (length ls) ts l [] = Rep_EMPTY (Min (set ts)) l"
    using stopped ls(2) by (auto simp: next_reply_def Let_def)
  have "printable_tm (Min (set ts))"
    using wr(1) Min_in [of "set ts"] stopped(1) by (auto simp: recordings_def list_all_iff)
  then have nm: "rec_name t" unfolding t by (rule rec_name_timestamp)
  then have tw: "word_ok t" "nul_free t" "length t < 16"
    using rec_name_nul_free [OF nm] by (simp_all add: rec_name_def TIMESTAMP_LEN_def)
  let ?w0 = "w\<lparr>out := out w @ ln ''TCP receive: SEND_NEXT''\<rparr>"
  obtain w1 where "SendNext z csk LOGGER_NAME ?D ?w0 = (Ret 0, w1)"
    and "quiet (sent_all csk (reply_chunks z [] (next_reply (length ls) ts l [])) ?w0) w1"
    using SendNext_run [of ?w0 ?D ts l "[]" LOGGER_NAME ls csk z "[]"] wr ls by auto
  then have c1: "serve_cmds z csk [''SEND_NEXT''] w = (Ret True, w1)"
    and q1: "quiet (sent_all csk [ln (empty_line t l)] w) w1"
    by (simp_all add: mbind_def send_next_command mseq_def mret_def rep sent_updates quiet_out)
      (simp_all add: empty_line_def t)
  have h1: "malloc_max w1 < 2 ^ 31" "tx_clean csk w1" "fs w1 = fs w" "deny w1 = deny w"
    using quiet_fields(1,3,8) [OF q1] quiet_fields(10) [OF q1, of csk] wr(3,4) by (simp_all add: sent_fixed)
  have rem1: "rel_ok rel \<and> readable z w1 (server_path rel) (files rel)" if "rel \<in> set (remaining_names t l)" for rel
    using rem [OF that] h1(3,4) quiet_fields(8) [OF q1] by (simp add: readable_def denied_def sent_fixed)
  obtain w2 where c2: "serve_cmds z csk (map send_file_request (remaining_names t l)) w1 = (Ret True, w2)"
    and q2: "quiet (sent_all csk (concat (map (\<lambda>rel. file_chunks z (''SENDING REQUESTED '' @ server_path rel) (files rel))
      (remaining_names t l))) w1) w2"
    using serve_files [OF wr(2) h1(1,2) rem1] by blast
  have f2: "fs w2 = fs w" "deny w2 = deny w" "tx_clean csk w2"
    using quiet_fields(1,3) [OF q2] quiet_fields(10) [OF q2, of csk] h1 by simp_all
  have nf: "nul_free (remove_dir_request t)" using tw(2) by (simp add: remove_dir_request_def nul_free_def NUL_def)
  obtain x where x: "server_command z csk (remove_dir_request t) w2 =
      mseq (RemoveDir csk (remove_dir_request t) ?D) (mret True) (w2\<lparr>out := x\<rparr>)"
    using remove_dir_command [OF nf] by blast
  have c: "word_ok ''REMOVE_DIR''" by (simp add: word_ok_def isspace_def)
  let ?w3 = "(sent csk (ln (''DIR '' @ t @ '' REMOVED'')) (w2\<lparr>out := x\<rparr>))\<lparr>fs := without (server_dir t) (fs w)\<rparr>"
  have "server_dir t \<noteq> []" using dir by (auto simp: server_dir_def node_at_def Server_Cmds.DATA_DIR_def pcomps_def)
  then have "RemoveDir csk (remove_dir_request t) ?D (w2\<lparr>out := x\<rparr>) = (Ret 0, ?w3)"
    using RemoveDir_run [OF c tw, of ?D "server_dir t" "w2\<lparr>out := x\<rparr>" csk] dir f2 wr(6) nd tw(3) server_length
    by (simp add: server_dir_def remove_dir_request_def fs_ok_def denied_def)
  then have c3: "serve_cmds z csk [remove_dir_request t] w2 = (Ret True, ?w3)"
    by (simp add: mbind_def x mseq_def mret_def)
  have "serve_cmds z csk (''SEND_NEXT'' # requests_of_end t l) w = (Ret True, ?w3)"
    using serve_cmds_append [OF c1] serve_cmds_append [OF c2] c3 by (simp add: requests_of_end_def)
  moreover have "s_tx (socks w2 csk) = s_tx (socks w csk) @ ln (empty_line t l) @
      concat (map (\<lambda>rel. file_bytes (server_path rel) (packed z (files rel)) (files rel)) (remaining_names t l))"
  proof -
    have "concat (concat (map (\<lambda>rel. file_chunks z (''SENDING REQUESTED '' @ server_path rel) (files rel)) rs)) =
        concat (map (\<lambda>rel. file_bytes (server_path rel) (packed z (files rel)) (files rel)) rs)" for rs
      by (induction rs) (simp, simp only: list.map concat.simps concat_append file_bytes_chunks)
    then show ?thesis using quiet_fields(2) [OF q1] quiet_fields(2) [OF q2] by simp
  qed
  moreover have "fs_ok ?w3"
    using without_node(2) [of "fs w" "server_dir t"] dir wr(6) \<open>server_dir t \<noteq> []\<close> by (simp add: fs_ok_def)
  ultimately show ?thesis by (simp add: end_bytes_def)
qed

section \<open>The client's side\<close>

lemma fmt_04d_01: "m \<in> {0, 1} \<Longrightarrow> fmt_04d m \<in> {''0000'', ''0001''}"
proof -
  have "digs 0 = ''0''" "digs 1 = ''1''" by (simp_all add: digs_small digit_char_table [simplified])
  moreover assume "m \<in> {0, 1}"
  ultimately show ?thesis by (auto simp: fmt_04d_def Let_def numeral_eq_Suc)
qed

lemmas plain_path_defs = word_ok_def isspace_def text_char_def nl_def NUL_def

lemma rel_ok_local:
  assumes t: "rec_name t" and m: "m \<in> {0, 1}" and s: "word_ok s" "list_all (text_char True) s" "length s \<le> 50"
  shows "rel_ok (local_name t m s)" "below (local_name t m s) = local_name [] m s"
proof -
  define ok where "ok = (\<lambda>c. text_char True c \<and> \<not> isspace c)"
  have lit: "list_all ok ''/voxl-logger/log''" "ok CHR ''/''" by (simp_all add: ok_def plain_path_defs)
  have f: "fmt_04d m = ''0000'' \<or> fmt_04d m = ''0001''" using fmt_04d_01 [OF m] by simp
  have "list_all ok ''0000''" "list_all ok ''0001''" by (simp_all add: ok_def plain_path_defs)
  with f have chars: "list_all ok (fmt_04d m)" "length (fmt_04d m) = 4" by auto
  have ts: "t \<noteq> []" "hd t \<noteq> CHR ''/''" "CHR ''/'' \<notin> set t" "list_all ok t" "length t < 16" and ss: "list_all ok s"
    using t s by (auto simp: rec_name_def word_ok_def ok_def list_all_iff TIMESTAMP_LEN_def) (metis list.set_sel(1))
  have all: "list_all ok (local_name t m s)"
    unfolding local_name_def list_all_append list.pred_inject(2) using lit chars(1) ts(4) ss by simp
  have "length (local_name t m s) < 116" "hd (local_name t m s) = hd t" "CHR ''/'' \<in> set (local_name t m s)" "local_name t m s \<noteq> []"
    using ts(1,5) s(3) chars(2) by (simp_all add: local_name_def)
  with all ts(2) show "rel_ok (local_name t m s)"
    by (auto simp: rel_ok_def word_ok_def ok_def list_all_iff)
  show "below (local_name t m s) = local_name [] m s"
    using ts(3) by (auto simp: below_def local_name_def dropWhile_append)
qed

lemma pcomps_dest:
  assumes "below rel = local_name [] m s"
  shows "pcomps (dest a rel) = pcomps (local_name a m s)"
  using assms pcomps_append [of a "local_name [] m s"] by (simp add: dest_def pcomps_local)

text \<open>
  Each of the four files lies in a directory of a new recording, and is none of the directories
  and none of the point clouds.
\<close>

lemma remaining_paths:
  assumes t: "rec_name t" and l: "l \<in> {0, 1}" and rel: "rel \<in> set (remaining_names t l)"
  shows "\<exists>us f. rel_ok rel \<and> pcomps rel = t # us @ [f] \<and> f \<in> {''data.csv'', ''info.json''} \<and>
    (\<forall>a. pcomps (dest a rel) = pcomps a @ us @ [f]) \<and>
    (\<forall>a. (\<exists>p \<in> set (recording_names a l). prefix (pcomps a @ us) (pcomps p)) \<and>
      (\<forall>p \<in> set (recording_names a l). \<not> prefix (pcomps a @ us @ [f]) (pcomps p)))"
proof -
  define k :: int where "k = (if l = 0 then 1 else 0)"
  have k: "k \<in> {0, 1}" by (simp add: k_def)
  have tn: "pcomps t = [t]" using t by (intro pcomps_name) (auto simp: rec_name_def name_ok_def word_ok_def)
  have subs: "pcomps ''run/mpa/tof/data.csv'' = [''run'', ''mpa'', ''tof'', ''data.csv'']"
    "pcomps ''info.json'' = [''info.json'']" "pcomps ''run/mpa/tof'' = [''run'', ''mpa'', ''tof'']"
    "pcomps ''run/mpa/vvpx4_body_wrt_local/data.csv'' = [''run'', ''mpa'', ''vvpx4_body_wrt_local'', ''data.csv'']"
    "pcomps ''run/mpa/vvpx4_body_wrt_local'' = [''run'', ''mpa'', ''vvpx4_body_wrt_local'']"
    "pcomps ''data'' = [''data'']" "pcomps ''etc/modalai'' = [''etc'', ''modalai'']"
    by (simp_all add: pcomps_def)
  have names: "recording_names a l = [local_name a l ''run/mpa/tof'', local_name a l ''data'', local_name a l ''etc/modalai'',
      local_name a k ''run/mpa/vvpx4_body_wrt_local'', local_name a k ''data'', local_name a k ''etc/modalai'']" for a
    by (simp add: recording_names_def k_def)
  have use: ?thesis if "rel = local_name t m s" "m \<in> {0, 1}" "word_ok s" "list_all (text_char True) s" "length s \<le> 50"
      "pcomps s = vs @ [f]" "f \<in> {''data.csv'', ''info.json''}"
      "m = l \<and> vs = [''run'', ''mpa'', ''tof''] \<or> vs = [] \<and> f = ''info.json'' \<and> (m = l \<or> m = k) \<or>
       m = k \<and> vs = [''run'', ''mpa'', ''vvpx4_body_wrt_local'']" for m s vs f
  proof (intro exI conjI allI)
    note r = rel_ok_local [OF t that(2-5)]
    show "rel_ok rel" using r that(1) by simp
    show "pcomps rel = t # ([''voxl-logger'', ''log'' @ fmt_04d m] @ vs) @ [f]"
      using that(1,6) tn by (simp add: pcomps_local)
    show "f \<in> {''data.csv'', ''info.json''}" by (rule that(7))
    show "pcomps (dest a rel) = pcomps a @ ([''voxl-logger'', ''log'' @ fmt_04d m] @ vs) @ [f]" for a
      using pcomps_dest [OF r(2)] that(1,6) by (simp add: pcomps_local)
    show "\<exists>p \<in> set (recording_names a l). prefix (pcomps a @ [''voxl-logger'', ''log'' @ fmt_04d m] @ vs) (pcomps p)" for a
      using that(8) by (auto simp: names pcomps_local subs)
    show "\<forall>p \<in> set (recording_names a l). \<not> prefix (pcomps a @ ([''voxl-logger'', ''log'' @ fmt_04d m] @ vs) @ [f]) (pcomps p)" for a
      using that(7,8) by (auto simp: names pcomps_local subs)
  qed
  consider "rel = local_name t l ''run/mpa/tof/data.csv''" | "rel = local_name t l ''info.json''"
    | "rel = local_name t k ''run/mpa/vvpx4_body_wrt_local/data.csv''" | "rel = local_name t k ''info.json''"
    using rel by (auto simp: remaining_names_def k_def Let_def split: if_splits)
  then show ?thesis
  proof cases
    case 1
    show ?thesis by (rule use [OF 1 l, of "[''run'', ''mpa'', ''tof'']" "''data.csv''"]) (simp_all add: plain_path_defs subs)
  next
    case 2
    show ?thesis by (rule use [OF 2 l, of "[]" "''info.json''"]) (simp_all add: plain_path_defs subs)
  next
    case 3
    show ?thesis
      by (rule use [OF 3 k, of "[''run'', ''mpa'', ''vvpx4_body_wrt_local'']" "''data.csv''"]) (simp_all add: plain_path_defs subs)
  next
    case 4
    show ?thesis by (rule use [OF 4 k, of "[]" "''info.json''"]) (simp_all add: plain_path_defs subs)
  qed
qed

lemma remaining_dests_distinct:
  assumes t: "rec_name t" and l: "l \<in> {0, 1}"
  shows "inj_on (\<lambda>rel. pcomps (dest a rel)) (set (remaining_names t l))"
proof -
  define k :: int where "k = (if l = 0 then 1 else 0)"
  have k: "k \<in> {0, 1}" by (simp add: k_def)
  have d: "pcomps (dest a (local_name t m s)) = pcomps a @ [''voxl-logger'', ''log'' @ fmt_04d m] @ pcomps s"
    if "m \<in> {0, 1}" "word_ok s" "list_all (text_char True) s" "length s \<le> 50" for m s
    using pcomps_dest [OF rel_ok_local(2) [OF t that]] by (simp add: pcomps_local)
  have subs: "pcomps ''run/mpa/tof/data.csv'' = [''run'', ''mpa'', ''tof'', ''data.csv'']" "pcomps ''info.json'' = [''info.json'']"
    "pcomps ''run/mpa/vvpx4_body_wrt_local/data.csv'' = [''run'', ''mpa'', ''vvpx4_body_wrt_local'', ''data.csv'']"
    by (simp_all add: pcomps_def)
  have lk: "fmt_04d l \<noteq> fmt_04d k"
  proof -
    have "fmt_04d 0 = ''0000''" "fmt_04d 1 = ''0001''"
      by (simp_all add: fmt_04d_def Let_def digs_small digit_char_table numeral_eq_Suc)
    then show ?thesis using l by (auto simp: k_def)
  qed
  have names: "remaining_names t l = [local_name t l ''run/mpa/tof/data.csv'', local_name t l ''info.json'',
      local_name t k ''run/mpa/vvpx4_body_wrt_local/data.csv'', local_name t k ''info.json'']"
    by (simp add: remaining_names_def k_def Let_def)
  have "distinct (map (\<lambda>rel. pcomps (dest a rel)) (remaining_names t l))"
    using lk by (simp add: names d [OF l] d [OF k] subs plain_path_defs)
  then show ?thesis by (simp only: distinct_map)
qed

lemma wf_put_files:
  "store_wf st \<Longrightarrow> (\<And>r. r \<in> set rels \<Longrightarrow> room st (f r)) \<Longrightarrow>
   store_wf (fold (\<lambda>r. put_node (f r) (File (c r))) rels st)"
proof (induction rels arbitrary: st)
  case (Cons x xs)
  have x: "room st (f x)" using Cons.prems(2) by simp
  then obtain p d where p: "f x = p @ [d]" by (cases "f x" rule: rev_cases) (auto simp: room_def)
  have "store_wf (put_node (f x) (File (c x)) st)"
    using st.wf_put_file [OF Cons.prems(1)] x p by (simp add: room_def)
  moreover have "room (put_node (f x) (File (c x)) st) (f r)" if "r \<in> set xs" for r
    using room_put [OF x] Cons.prems(2) that by simp
  ultimately show ?case using Cons.IH by simp
qed simp

text \<open>A local store in which the recording is new, after its directories and point clouds are there.\<close>

definition new_copy :: "string \<Rightarrow> int \<Rightarrow> int set \<Rightarrow> store \<Rightarrow> store \<Rightarrow> bool" where
  "new_copy t l I st0 st \<longleftrightarrow> store_wf st \<and> store_wf st0 \<and>
     node_at st0 (pcomps (active_name t)) = None \<and> node_at st0 (pcomps (final_name t)) = None \<and>
     (\<forall>p. p \<notin> local_cloud t l ` I \<longrightarrow> node_at st p = node_at (local_store t l st0) p)"

lemma below_new:
  assumes "new_copy t l I st0 st"
  shows "node_at st0 (pcomps (active_name t) @ us) = None" "node_at st0 (pcomps (final_name t) @ us) = None"
  using assms st.look_below_None [of st0 "pcomps (active_name t)" us] st.look_below_None [of st0 "pcomps (final_name t)" us]
  by (cases us; simp add: new_copy_def)+

lemma local_store_new:
  assumes "new_copy t l I st0 st"
  shows "node_at (local_store t l st0) q =
    (if (\<exists>p \<in> set (recording_names (active_name t) l). prefix q (pcomps p)) \<and> node_at st0 q = None
     then Some Dir else node_at st0 q)"
  using assms by (simp add: new_copy_def local_store_def recording_dirs_def node_at_recording)

lemma pcomps_final: "rec_name t \<Longrightarrow> pcomps (final_name t) = [Client_Lib.DATA_DIR, t]"
proof -
  assume t: "rec_name t"
  have n: "name_ok t" "name_ok Client_Lib.DATA_DIR"
    using t by (auto simp: rec_name_def name_ok_def word_ok_def Client_Lib.DATA_DIR_def)
  show ?thesis
    using pcomps_append_name [OF n(1), of Client_Lib.DATA_DIR] pcomps_name [OF n(2)] by (simp add: final_name_def)
qed

lemma local_cloud_shape:
  "\<exists>us. local_cloud t l i = pcomps (active_name t) @ us @ [''data_'' @ fmt_d i @ ''.pcd''] \<and> length us = 5"
  by (rule exI [of _ "[''voxl-logger'', ''log'' @ fmt_04d l, ''run'', ''mpa'', ''tof'']"])
    (simp add: local_cloud_def pcomps_cloud_text pcomps_local, simp add: pcomps_def)

lemma local_cloud_below:
  assumes "pcomps (active_name t) @ vs \<in> local_cloud t l ` I"
  shows "length vs = 6" "\<exists>i. last vs = ''data_'' @ fmt_d i @ ''.pcd''"
proof -
  obtain i where i: "pcomps (active_name t) @ vs = local_cloud t l i" using assms by blast
  obtain us where "local_cloud t l i = pcomps (active_name t) @ us @ [''data_'' @ fmt_d i @ ''.pcd'']" "length us = 5"
    using local_cloud_shape by blast
  with i have "vs = us @ [''data_'' @ fmt_d i @ ''.pcd'']" "length us = 5" by simp_all
  then show "length vs = 6" "\<exists>i. last vs = ''data_'' @ fmt_d i @ ''.pcd''" by auto
qed

lemma new_copy_facts:
  assumes n: "new_copy t l I st0 st" and t: "rec_name t" and l: "l \<in> {0, 1}"
  shows "node_at st (pcomps (active_name t)) = Some Dir" (is ?active)
    and "node_at st (pcomps (final_name t) @ us) = None" (is ?final)
    and "rel \<in> set (remaining_names t l) \<Longrightarrow> room st (pcomps (dest (active_name t) rel))"
    and "rel \<in> set (remaining_names t l) \<Longrightarrow> pcomps (dest (active_name t) rel) \<notin> local_cloud t l ` I"
proof -
  let ?A = "pcomps (active_name t)"
  have nd: "node_at st p = node_at (local_store t l st0) p" if "p \<notin> local_cloud t l ` I" for p
    using n that by (simp add: new_copy_def)
  have dir: "node_at st (?A @ us) = Some Dir" if ex: "\<exists>p \<in> set (recording_names (active_name t) l). prefix (?A @ us) (pcomps p)" for us
  proof -
    obtain p where p: "p \<in> set (recording_names (active_name t) l)" "prefix (?A @ us) (pcomps p)" using ex by blast
    have "length us \<le> 5" using recording_prefix_length [OF p(1)] prefix_length_le [OF p(2)] by simp
    then have "?A @ us \<notin> local_cloud t l ` I" using local_cloud_below(1) [of t us l I] by auto
    then show ?thesis using nd local_store_new [OF n] below_new(1) [OF n] ex by simp
  qed
  have "local_name (active_name t) l ''run/mpa/tof'' \<in> set (recording_names (active_name t) l)"
    by (simp add: recording_names_def Let_def)
  then show ?active using dir [of "[]"] active_above by (metis append_Nil2 prefixI)
  show ?final
  proof -
    have f: "\<not> prefix (pcomps (final_name t) @ us) (?A @ vs)" for vs
      unfolding pcomps_final [OF t] pcomps_active [OF t] by simp
    have "\<not> prefix (pcomps (final_name t) @ us) (pcomps p)" if "p \<in> set (recording_names (active_name t) l)" for p
      using recording_names_cases [OF that] f by (auto simp: pcomps_local)
    moreover have "pcomps (final_name t) @ us \<notin> local_cloud t l ` I"
    proof
      assume "pcomps (final_name t) @ us \<in> local_cloud t l ` I"
      then obtain i where "pcomps (final_name t) @ us = local_cloud t l i" by blast
      moreover obtain vs where "local_cloud t l i = pcomps (active_name t) @ vs" using local_cloud_shape by blast
      ultimately have "pcomps (final_name t) @ us = pcomps (active_name t) @ vs" by simp
      with f [of vs] show False by (metis prefix_order.refl)
    qed
    ultimately show ?thesis using nd local_store_new [OF n] below_new(2) [OF n] by simp
  qed
  assume rel: "rel \<in> set (remaining_names t l)"
  obtain us f where p: "pcomps (dest (active_name t) rel) = ?A @ us @ [f]" "f \<in> {''data.csv'', ''info.json''}"
    and d: "\<exists>p \<in> set (recording_names (active_name t) l). prefix (?A @ us) (pcomps p)"
      "\<forall>p \<in> set (recording_names (active_name t) l). \<not> prefix (?A @ us @ [f]) (pcomps p)"
    using remaining_paths [OF t l rel] by blast
  have "f \<noteq> ''data_'' @ fmt_d i @ ''.pcd''" for i using p(2) by auto
  then show nc: "pcomps (dest (active_name t) rel) \<notin> local_cloud t l ` I"
    using local_cloud_below(2) [of t "us @ [f]" l I] unfolding p(1) by auto
  have "node_at st (pcomps (dest (active_name t) rel)) = None"
    using nd [OF nc] local_store_new [OF n] d(2) below_new(1) [OF n] p(1) by auto
  then show "room st (pcomps (dest (active_name t) rel))"
    using dir [OF d(1)] p(1) by (simp add: room_def butlast_append flip: append_assoc)
qed

text \<open>The local directory can be renamed, and what the client holds afterwards.\<close>

lemma finished_run:
  assumes n: "new_copy t l I st0 st" and t: "rec_name t" and l: "l \<in> {0, 1}"
  shows "movable (with_remaining t l files st) (pcomps (active_name t)) (pcomps (final_name t))"
    and "node_at (with_remaining t l files st) (pcomps (active_name t)) = Some Dir"
    and "node_at (with_remaining t l files st) (pcomps (final_name t)) = None"
    and "node_at (finished_store t l files st) p =
      (if prefix (pcomps (final_name t)) p
       then node_at (with_remaining t l files st) (pcomps (active_name t) @ drop 2 p)
       else if prefix (pcomps (active_name t)) p then None else node_at st p)"
proof -
  let ?A = "pcomps (active_name t)" and ?F = "pcomps (final_name t)" and ?st = "with_remaining t l files st"
  let ?f = "\<lambda>rel. pcomps (dest (active_name t) rel)"
  note nf = new_copy_facts [OF n t l]
  have in_active: "\<exists>us f. ?f rel = ?A @ us @ [f]" if "rel \<in> set (remaining_names t l)" for rel
    using remaining_paths [OF t l that] by blast
  have ne: "?f r \<noteq> []" if "r \<in> set (remaining_names t l)" for r using in_active [OF that] by auto
  have out: "node_at ?st q = node_at st q" if "q \<notin> ?f ` set (remaining_names t l)" for q
    unfolding with_remaining_def by (rule node_at_put_files(2) [OF ne that])
  have other: "node_at ?st q = node_at st q" if "\<And>vs. vs \<noteq> [] \<Longrightarrow> q \<noteq> ?A @ vs" for q
  proof (rule out, rule notI)
    assume "q \<in> ?f ` set (remaining_names t l)"
    then obtain rel where rel: "rel \<in> set (remaining_names t l)" "q = ?f rel" by blast
    then obtain us f where "q = ?A @ (us @ [f])" using in_active [OF rel(1)] by auto
    then show False using that [of "us @ [f]"] by simp
  qed
  show a: "node_at ?st ?A = Some Dir" using other [of ?A] nf(1) by simp
  have fin: "node_at ?st (?F @ us) = None" for us
    using other [of "?F @ us"] nf(2) by (simp add: pcomps_final [OF t] pcomps_active [OF t])
  then show f: "node_at ?st ?F = None" using append_Nil2 by metis
  have wf: "store_wf ?st"
    using n nf(3) unfolding with_remaining_def new_copy_def by (intro wf_put_files) auto
  have "node_at ?st [Client_Lib.DATA_DIR] = Some Dir"
    using st.look_above [OF wf, of "[Client_Lib.DATA_DIR]" "[t @ ''-active'']"] a by (simp add: pcomps_active [OF t])
  moreover have "children ?st ?F = []"
  proof -
    have "c \<notin> set (children ?st ?F)" for c using children_set [OF wf, of ?F] fin [of "[c]"] by auto
    then show ?thesis by (metis list.set_intros(1) neq_Nil_conv)
  qed
  ultimately show m: "movable ?st ?A ?F"
    using wf a by (simp add: movable_def pcomps_final [OF t] pcomps_active [OF t])
  have len: "length ?F = 2" by (simp add: pcomps_final [OF t])
  show "node_at (finished_store t l files st) p =
      (if prefix ?F p then node_at ?st (?A @ drop 2 p) else if prefix ?A p then None else node_at st p)"
    using other [of p] by (auto simp: finished_store_def node_at_move_tree [OF m] len prefix_def)
qed

lemma finished_nodes:
  assumes n: "new_copy t l I st0 st" and t: "rec_name t" and l: "l \<in> {0, 1}"
  shows "i \<in> I \<Longrightarrow> node_at (finished_store t l files st) (pcomps (cloud_text (final_name t) l i)) = node_at st (local_cloud t l i)"
    and "rel \<in> set (remaining_names t l) \<Longrightarrow>
      node_at (finished_store t l files st) (pcomps (dest (final_name t) rel)) = Some (File (files rel))"
proof -
  let ?A = "pcomps (active_name t)" and ?F = "pcomps (final_name t)"
  let ?f = "\<lambda>rel. pcomps (dest (active_name t) rel)"
  have len: "length ?F = 2" by (simp add: pcomps_final [OF t])
  have ne: "?f r \<noteq> []" if "r \<in> set (remaining_names t l)" for r using remaining_paths [OF t l that] by auto
  have inside: "node_at (finished_store t l files st) (?F @ us) = node_at (with_remaining t l files st) (?A @ us)" for us
    using finished_run(4) [OF n t l, of files "?F @ us"] len by simp
  show "node_at (finished_store t l files st) (pcomps (cloud_text (final_name t) l i)) = node_at st (local_cloud t l i)"
    if i: "i \<in> I"
  proof -
    obtain us where us: "pcomps (cloud_text (final_name t) l i) = ?F @ us" "local_cloud t l i = ?A @ us"
      by (simp add: local_cloud_def pcomps_cloud_text pcomps_local)
    have "local_cloud t l i \<notin> ?f ` set (remaining_names t l)"
    proof
      assume "local_cloud t l i \<in> ?f ` set (remaining_names t l)"
      then obtain rel where "rel \<in> set (remaining_names t l)" "local_cloud t l i = ?f rel" by (elim imageE)
      with new_copy_facts(4) [OF n t l] imageI [OF i, of "local_cloud t l"] show False by simp
    qed
    from node_at_put_files(2) [OF ne this] show ?thesis
      using inside [of us] us by (simp add: with_remaining_def)
  qed
  show "node_at (finished_store t l files st) (pcomps (dest (final_name t) rel)) = Some (File (files rel))"
    if rel: "rel \<in> set (remaining_names t l)"
  proof -
    obtain us f where "pcomps (dest (final_name t) rel) = ?F @ us @ [f]" "?f rel = ?A @ us @ [f]"
      using remaining_paths [OF t l rel] by blast
    then show ?thesis
      using inside node_at_put_files(1) [OF ne remaining_dests_distinct [OF t l] rel, of files st]
      by (simp add: with_remaining_def)
  qed
qed

section \<open>The end of a recording\<close>

lemma answer_dir_removed: "rec_name t \<Longrightarrow> answer sg (''DIR '' @ t @ '' REMOVED'')"
proof -
  assume t: "rec_name t"
  have "list_all (text_char sg) t" using t by (auto simp: rec_name_def list_all_iff text_char_True)
  then show ?thesis
    using t by (simp add: answer_def rec_name_def TIMESTAMP_LEN_def BUFSIZ_def take_Cons')
      (simp add: text_char_def nl_def NUL_def)
qed

lemma exchange_end:
  assumes r: "transfer_ready z csk sk k ts l [] content sw v cw" and stopped: "ts \<noteq> []" "k = 0 \<or> length ts \<noteq> 1"
    and t: "t = strftime_ts (Min (set ts))" and l: "l \<in> {0, 1}" and segs: "cuts segs"
    and v: "names_recording t l v cw"
    and rem: "\<And>rel. rel \<in> set (remaining_names t l) \<Longrightarrow> readable z sw (server_path rel) (files rel)"
    and dir: "node_at (fs sw) (server_dir t) \<noteq> None" and n: "new_copy t l I st0 (fs cw)"
  shows "\<exists>sw' v' cw'. exchange z segs csk sk (sw, v, cw) (sw', v', cw') \<and>
    fs sw' = without (server_dir t) (fs sw) \<and> fs cw' = finished_store t l files (fs cw)"
proof -
  have sr: "server_ready z csk k ts l [] sw" and cr: "client_ready sk v cw" and p: "pending sk (tt_b v) cw = []"
    and mm: "malloc_max sw \<le> malloc_max cw"
    using r by (auto simp: transfer_ready_def)
  have z: "zlib_ok z" "malloc_max sw < 2 ^ 31" using sr by (simp_all add: server_ready_def)
  have "printable_tm (Min (set ts))"
    using sr Min_in [of "set ts"] stopped(1) by (auto simp: server_ready_def recordings_def list_all_iff)
  then have nm: "rec_name t" unfolding t by (rule rec_name_timestamp)
  have l32: "int32 l" using l by (auto simp: int32_def)
  have rok: "rel_ok rel" if "rel \<in> set (remaining_names t l)" for rel
    using remaining_paths [OF nm l that] by blast
  obtain sw' where serve: "serve_cmds z csk (''SEND_NEXT'' # requests_of_end t l) sw = (Ret True, sw')"
    and s': "s_tx (socks sw' csk) = s_tx (socks sw csk) @ end_bytes z files t l" "fs sw' = without (server_dir t) (fs sw)"
    using serve_end [OF sr stopped t _ dir, of files] rok rem by blast
  let ?w = "deliver sk (segs (end_bytes z files t l)) cw"
  have d: "client_ready sk v ?w" "pending sk (tt_b v) ?w = end_bytes z files t l"
    using deliver_ready [OF cr segs] p by simp_all
  have h: "log_ok ?w" "tx_clean sk ?w" "reader_ok sk (tt_b v) ?w" "permissive ?w" "length (tt_rec v) = BUFSIZ + 1"
    using d(1) by (simp_all add: client_ready_def)
  have pend: "pending sk (tt_b v) ?w = empty_line t l @ nl #
      concat (map (\<lambda>rel. file_bytes (server_path rel) (packed z (files rel)) (files rel)) (remaining_names t l)) @
      (''DIR '' @ t @ '' REMOVED'') @ nl # []"
    using d(2) by (simp add: end_bytes_def ln_def)
  have nr: "cstr_of (tt_dir v) = Some (active_name t)" "cstr_of (nd_first (tr_d (t_tr (td ?w)))) = Some t"
      "nd_logger_n (tr_d (t_tr (td ?w))) = l"
    using v by (simp_all add: names_recording_def)
  have rem': "remote_file z ?w server_path (\<lambda>rel. packed z (files rel)) files rel \<and>
      room (fs ?w) (pcomps (dest (active_name t) rel))" if rel: "rel \<in> set (remaining_names t l)" for rel
  proof -
    have "unpacks z ?w (packed z (files rel)) (files rel)"
      by (rule packed_unpacks [OF z(1) rem [OF rel] z(2)]) (simp add: mm)
    then show ?thesis
      using server_path_ok [OF rok [OF rel]] rok [OF rel] new_copy_facts(3) [OF n nm l rel] by (auto simp: remote_file_def)
  qed
  note fin = finished_run [OF n nm l, of files]
  obtain v' cw' where round: "tt_round z (Suc 0) sk v ?w = (Ret v', cw')"
    and tk: "talk sk (finished_store t l files (fs ?w)) (sent_all sk (map ln (''SEND_NEXT'' # requests_of_end t l)) ?w) cw'"
    using tt_round_empty [OF h(1-4) pend answer_dir_removed [OF nm] h(5) nr nm l32 rem', of 0] fin(1-3) by auto
  have "exchange z segs csk sk (sw, v, cw) (sw', v', cw')"
    by (rule exchange.step [where bytes = "end_bytes z files t l" and m = 0 and segs = segs, OF serve s'(1) round])
      (simp add: talk_fields(15) [OF tk])
  then show ?thesis using s'(2) talk_fields(1) [OF tk] by auto
qed

end
