(* ===== verification/Transfer_Props.thy ===== *)
theory Transfer_Props
  imports Transfer_End
begin

text \<open>
  The properties of the transfer of recordings, over the server and the client together.
\<close>

section \<open>A whole recording\<close>

lemma tof_below_dir: "rec_name t \<Longrightarrow> \<exists>r. tof_path Server_Cmds.DATA_DIR t l = server_dir t @ r \<and> r \<noteq> []"
proof -
  assume t: "rec_name t"
  then have n: "name_ok t" by (auto simp: rec_name_def name_ok_def word_ok_def)
  show ?thesis
    using pcomps_append_name [OF n, of Server_Cmds.DATA_DIR] by (simp add: tof_path_def server_dir_def)
qed

lemma recording_moved_run:
  assumes r: "transfer_ready z csk sk k ts l ns content sw v cw" and ns: "ns \<noteq> []" and stopped: "k = 0 \<or> length ts \<noteq> 1"
    and segs: "cuts segs" and t: "t = strftime_ts (Min (set ts))"
    and rem: "\<And>rel. rel \<in> set (remaining_names t l) \<Longrightarrow> readable z sw (server_path rel) (files rel)"
    and new: "node_at (fs cw) (pcomps (active_name t)) = None" "node_at (fs cw) (pcomps (final_name t)) = None"
  shows "\<exists>sw' v' cw'. (exchange z segs csk sk ^^ Suc (length ns)) (sw, v, cw) (sw', v', cw') \<and>
    (\<forall>p. node_at (fs sw') p = (if prefix (server_dir t) p then None else node_at (fs sw) p)) \<and>
    (\<forall>i \<in> set ns. node_at (fs cw') (pcomps (cloud_text (final_name t) l i)) = Some (File (content i))) \<and>
    (\<forall>rel \<in> set (remaining_names t l). node_at (fs cw') (pcomps (dest (final_name t) rel)) = Some (File (files rel))) \<and>
    (\<forall>p. prefix (pcomps (active_name t)) p \<longrightarrow> node_at (fs cw') p = None) \<and>
    (\<forall>p. node_at (fs cw) p \<noteq> None \<longrightarrow> node_at (fs cw') p = node_at (fs cw) p)"
proof -
  have rec: "recordings sw Server_Cmds.DATA_DIR ts l ns" "fs_ok sw"
    using r by (simp_all add: transfer_ready_def server_ready_def)
  then have ts: "ts \<noteq> []" and l: "l \<in> {0, 1}" by (auto simp: recordings_def Let_def)
  have nm: "rec_name t"
    using rec(1) ts Min_in [of "set ts"] rec_name_timestamp [of "Min (set ts)"] t by (auto simp: recordings_def list_all_iff)
  obtain sw1 v1 cw1 where run: "(exchange z segs csk sk ^^ length ns) (sw, v, cw) (sw1, v1, cw1)"
    and r1: "transfer_ready z csk sk k ts l [] content sw1 v1 cw1" "deny sw1 = deny sw" "malloc_max sw1 = malloc_max sw"
      "names_recording t l v1 cw1" "store_wf (fs cw1)"
    and s1: "\<And>p. node_at (fs sw1) p = (if p \<in> server_cloud t l ` set ns then None else node_at (fs sw) p)"
    and c1: "\<And>i. i \<in> set ns \<Longrightarrow> node_at (fs cw1) (local_cloud t l i) = Some (File (content i))"
      "\<And>p. p \<notin> local_cloud t l ` set ns \<Longrightarrow> node_at (fs cw1) p = node_at (local_store t l (fs cw)) p"
    using exchanges_run [OF r ts stopped segs t] ns by auto
  have tn: "name_ok t" using nm by (auto simp: rec_name_def name_ok_def word_ok_def)
  obtain b where b: "tof_path Server_Cmds.DATA_DIR t l = server_dir t @ b" "b \<noteq> []" using tof_below_dir [OF nm] by blast
  have rec1: "recordings sw1 Server_Cmds.DATA_DIR ts l []" "fs_ok sw1"
    using r1(1) by (simp_all add: transfer_ready_def server_ready_def)
  then have "node_at (fs sw1) (server_dir t @ b) = Some Dir"
    using pcomps_tof [OF tn, of Server_Cmds.DATA_DIR l] t b(1) by (auto simp: recordings_def Let_def can_list_def)
  then have dir: "node_at (fs sw1) (server_dir t) = Some Dir" and dne: "server_dir t \<noteq> []"
    using st.look_above [of "fs sw1" "server_dir t" b] rec1(2) b(2)
    by (auto simp: fs_ok_def server_dir_def pcomps_append_name [OF tn, of Server_Cmds.DATA_DIR, simplified])
  have rem1: "readable z sw1 (server_path rel) (files rel)" if rel: "rel \<in> set (remaining_names t l)" for rel
  proof -
    obtain us f where "pcomps rel = t # us @ [f]" "f \<in> {''data.csv'', ''info.json''}"
      using remaining_paths [OF nm l rel] by blast
    then have "last (pcomps (server_path rel)) = f"
      using pcomps_append [of Server_Cmds.DATA_DIR rel] by (simp add: server_path_def)
    moreover have "last (server_cloud t l i) = data_name i" for i by (simp add: server_cloud_def)
    moreover have "f \<noteq> data_name i" for i using \<open>f \<in> _\<close> by (auto simp: data_name_eq)
    ultimately have "pcomps (server_path rel) \<notin> server_cloud t l ` set ns" by (metis imageE)
    then show ?thesis using rem [OF rel] s1 r1(2,3) by (simp add: readable_def denied_def)
  qed
  have i: "Min (set ns) \<in> set ns" using ns by simp
  then have "store_wf (fs cw)" using r t by (auto simp: transfer_ready_def storable_def)
  then have n: "new_copy t l (set ns) (fs cw) (fs cw1)" using new r1(5) c1(2) by (simp add: new_copy_def)
  obtain sw2 v2 cw2 where last: "exchange z segs csk sk (sw1, v1, cw1) (sw2, v2, cw2)"
    and s2: "fs sw2 = without (server_dir t) (fs sw1)" and c2: "fs cw2 = finished_store t l files (fs cw1)"
    using exchange_end [OF r1(1) ts stopped t l segs r1(4) rem1 _ n] dir by auto
  note fin = finished_run [OF n nm l, of files]
  have "(exchange z segs csk sk ^^ Suc (length ns)) (sw, v, cw) (sw2, v2, cw2)" using run last by auto
  moreover have "node_at (fs sw2) p = (if prefix (server_dir t) p then None else node_at (fs sw) p)" for p
  proof -
    have "server_cloud t l i = server_dir t @ b @ [data_name i]" for i by (simp add: server_cloud_def b(1))
    then have "p \<in> server_cloud t l ` set ns \<Longrightarrow> prefix (server_dir t) p" by auto
    then show ?thesis
      using without_node(1) [of "fs sw1" "server_dir t" p] rec1(2) dir dne s1 [of p] by (auto simp: s2 fs_ok_def)
  qed
  moreover have "\<forall>i \<in> set ns. node_at (fs cw2) (pcomps (cloud_text (final_name t) l i)) = Some (File (content i))"
    using finished_nodes(1) [OF n nm l] c1(1) by (simp add: c2)
  moreover have "\<forall>rel \<in> set (remaining_names t l). node_at (fs cw2) (pcomps (dest (final_name t) rel)) = Some (File (files rel))"
    using finished_nodes(2) [OF n nm l] by (simp add: c2)
  moreover have "node_at (fs cw2) p = None" if "prefix (pcomps (active_name t)) p" for p
  proof -
    have "\<not> prefix (pcomps (final_name t)) p"
      using that by (auto simp: pcomps_final [OF nm] pcomps_active [OF nm] prefix_def)
    then show ?thesis using fin(4) that by (simp add: c2)
  qed
  moreover have "node_at (fs cw2) p = node_at (fs cw) p" if "node_at (fs cw) p \<noteq> None" for p
  proof -
    have np: "\<not> prefix (pcomps (active_name t)) p" "\<not> prefix (pcomps (final_name t)) p"
      using that below_new [OF n] by (auto simp: prefix_def)
    have "p \<notin> local_cloud t l ` set ns" using np(1) local_cloud_shape [of t l] by (metis imageE prefixI)
    then show ?thesis using c1(2) [of p] local_store_old [OF that, of t l] np fin(4) [of p] by (simp add: c2)
  qed
  ultimately show ?thesis by blast
qed

section \<open>A small drone and a small client\<close>

definition site_tof :: path where
  "site_tof = [''..'', ''..'', ''data_generation'', ''generated_data'', ''20230102-083000'', ''voxl-logger'', ''log0000'',
     ''run'', ''mpa'', ''tof'']"

definition site_vv :: path where
  "site_vv = take 6 site_tof @ [''log0001'', ''run'', ''mpa'', ''vvpx4_body_wrt_local'']"

definition site_store :: store where
  "site_store = map (\<lambda>n. (take n site_tof, Dir)) [1, 2, 3, 4, 5, 6, 7, 8, 9, 10] @
     map (\<lambda>n. (take n site_vv, Dir)) [7, 8, 9, 10] @
     [(site_tof @ [''data_4.pcd''], File ''abc''), (site_tof @ [''data_3.pcd''], File ''xyz''),
      (site_tof @ [''data.csv''], File ''k''), (take 7 site_tof @ [''info.json''], File ''k''),
      (site_vv @ [''data.csv''], File ''k''), (take 7 site_vv @ [''info.json''], File ''k'')]"

definition site_world :: world where
  "site_world = plain_world\<lparr>fs := site_store\<rparr>"

definition small_client :: client_world where
  "small_client = world.extend plain_world (client_world.fields
     \<lparr>t_status = 1, t_running = 1, t_ip = ''drone'', t_port = 8000, t_lock = Mx_Free,
      t_tr = \<lparr>tr_f = \<lparr>nf_first = 0, nf_last = 0, nf_count = 0\<rparr>,
        tr_d = \<lparr>nd_first = [], nd_last = [], nd_count = 0, nd_logger_n = 0\<rparr>\<rparr>\<rparr>
     True [] [] [] [] [] [] True True 0)"

lemma site_recordings: "recordings site_world Server_Cmds.DATA_DIR [demo_time] 0 [4, 3]"
proof -
  have "dir_entry ''20230102-083000''"
    using dir_entry_strftime [OF demo_printable] by (simp add: demo_texts)
  moreover have "file_entry ''data_4.pcd''" "file_entry ''data_3.pcd''"
    using file_entry_data_name [of 4] file_entry_data_name [of 3] by (simp_all add: demo_texts)
  moreover note file_entry_csv
  moreover have root: "pcomps Server_Cmds.DATA_DIR = take 4 site_tof" by (simp add: Server_Cmds.DATA_DIR_def pcomps_def site_tof_def)
  moreover have "tof_path Server_Cmds.DATA_DIR ''20230102-083000'' 0 = site_tof"
    unfolding tof_path_def root by (simp add: site_tof_def demo_texts)
  moreover have "children site_store (take 4 site_tof) = [''20230102-083000'']"
    "children site_store site_tof = [''data_4.pcd'', ''data_3.pcd'', ''data.csv'']"
    by (simp_all add: children_def site_store_def site_tof_def site_vv_def)
  moreover have "node_at site_store (take 4 site_tof) = Some Dir" "node_at site_store site_tof = Some Dir"
    by (simp_all add: node_at_def site_store_def site_tof_def)
  moreover have "fs site_world = site_store" "\<not> denied a p site_world" for a p
    by (simp_all add: site_world_def plain_world_def denied_def)
  ultimately show ?thesis
    using demo_printable server_length
    by (simp add: recordings_def Let_def demo_texts mktime_mono_def int32_def can_list_def pcomps_tof demo_name_ok)
qed

lemma site_server: "server_ready stored_zlib 4 0 [demo_time] 0 [4, 3] site_world"
proof -
  have "store_wf site_store"
    by (simp add: store_wf_def site_store_def site_tof_def site_vv_def node_at_def)
  moreover have "proc_lines site_world LOGGER_NAME []" by (simp add: site_world_def plain_world_defs proc_lines_def LOGGER_NAME_def)
  ultimately show ?thesis
    unfolding server_ready_def
    by (intro conjI site_recordings stored_zlib_ok exI [of _ "[]"])
      (simp_all add: site_world_def plain_world_defs no_stale_error_def tx_clean_def fs_ok_def denied_def)
qed

lemma small_client_world [simp]:
  "fs small_client = []" "malloc_max small_client = 1000000" "deny small_client = (\<lambda>_ _. False)"
  "socks small_client = socks plain_world" "clock small_client = clock plain_world" "t_lock (td small_client) = Mx_Free"
  "log_open small_client" "junk_str small_client = junk_str plain_world"
  by (simp_all add: small_client_def world.extend_def client_world.fields_def plain_world_def)

lemma small_client_ready: "client_ready 4 (tt_uninit small_client) small_client"
  "pending 4 (tt_b (tt_uninit small_client)) small_client = []"
proof -
  have "printable_tm (clock plain_world)"
    by (simp add: plain_world_def printable_tm_def valid_tm_def days_in_month_def days_before_month_def month_starts_def
        leap_def nth_Cons')
  then show "client_ready 4 (tt_uninit small_client) small_client"
    by (simp add: client_ready_def log_ok_def tx_clean_def reader_ok_def permissive_def tt_uninit_def init_buffer_tcp_def
        rx_clean_def) (simp add: plain_world_def plain_sock_def)
  show "pending 4 (tt_b (tt_uninit small_client)) small_client = []"
    by (simp add: pending_def unread_def tt_uninit_def init_buffer_tcp_def rx_text_def) (simp add: plain_world_def plain_sock_def)
qed

lemma site_names: "pcomps (active_name ''20230102-083000'') = [Client_Lib.DATA_DIR, ''20230102-083000-active'']"
  "pcomps (final_name ''20230102-083000'') = [Client_Lib.DATA_DIR, ''20230102-083000'']"
proof -
  have "rec_name ''20230102-083000''" using rec_name_timestamp [OF demo_printable] by (simp add: demo_texts)
  from pcomps_active [OF this] pcomps_final [OF this] show
    "pcomps (active_name ''20230102-083000'') = [Client_Lib.DATA_DIR, ''20230102-083000-active'']"
    "pcomps (final_name ''20230102-083000'') = [Client_Lib.DATA_DIR, ''20230102-083000'']" by simp_all
qed

definition site_content :: "int \<Rightarrow> string" where
  "site_content i = (if i = 3 then ''xyz'' else ''abc'')"

lemma site_transfer:
  "transfer_ready stored_zlib 4 4 0 [demo_time] 0 [4, 3] site_content site_world (tt_uninit small_client) small_client"
proof -
  have root: "pcomps Server_Cmds.DATA_DIR = take 4 site_tof" by (simp add: Server_Cmds.DATA_DIR_def pcomps_def site_tof_def)
  have tof: "tof_path Server_Cmds.DATA_DIR ''20230102-083000'' 0 = site_tof"
    unfolding tof_path_def root by (simp add: site_tof_def demo_texts)
  have "node_at site_store (site_tof @ [''data_4.pcd'']) = Some (File ''abc'')"
    "node_at site_store (site_tof @ [''data_3.pcd'']) = Some (File ''xyz'')"
    by (simp_all add: node_at_def site_store_def site_tof_def site_vv_def)
  then have "readable stored_zlib site_world (cloud_name Server_Cmds.DATA_DIR ''20230102-083000'' 0 i) (site_content i)"
    if "i \<in> {4, 3}" for i
    using that
    by (auto simp: readable_def pcomps_cloud demo_name_ok tof demo_texts site_content_def site_world_def plain_world_def
        denied_def stored_zlib_def)
  moreover have "storable (fs small_client) ''20230102-083000'' 0 i" for i
    by (simp add: storable_def store_wf_def node_at_def pcomps_cloud_text pcomps_local site_names)
  moreover have "malloc_max site_world = 1000000" by (simp add: site_world_def plain_world_def)
  ultimately show ?thesis
    using site_server small_client_ready by (simp add: transfer_ready_def demo_texts)
qed

lemma site_remaining:
  assumes "rel \<in> set (remaining_names ''20230102-083000'' 0)"
  shows "readable stored_zlib site_world (server_path rel) ''k''"
proof -
  have f: "fmt_04d 0 = ''0000''" "fmt_04d 1 = ''0001''"
    by (simp_all add: fmt_04d_def Let_def digs_small digit_char_table numeral_eq_Suc)
  have "pcomps (server_path rel) \<in> {site_tof @ [''data.csv''], take 7 site_tof @ [''info.json''],
      site_vv @ [''data.csv''], take 7 site_vv @ [''info.json'']}"
    using assms by (auto simp: remaining_names_def Let_def local_name_def f server_path_def Server_Cmds.DATA_DIR_def
        pcomps_def site_tof_def site_vv_def)
  moreover have "node_at site_store (site_tof @ [''data.csv'']) = Some (File ''k'')"
    "node_at site_store (take 7 site_tof @ [''info.json'']) = Some (File ''k'')"
    "node_at site_store (site_vv @ [''data.csv'']) = Some (File ''k'')"
    "node_at site_store (take 7 site_vv @ [''info.json'']) = Some (File ''k'')"
    by (simp_all add: node_at_def site_store_def site_tof_def site_vv_def)
  ultimately show ?thesis
    by (auto simp: readable_def site_world_def plain_world_def denied_def stored_zlib_def)
qed

section \<open>The transfer of a whole recording\<close>

text \<open>
  C1. A recording that is no longer written moves from the drone to the client: after one
  exchange for each point cloud and one more, in whatever parts the network delivers the
  bytes, the server has removed the directory of the recording and nothing else, and the
  client holds every point cloud and the four remaining files, each with its content, under
  the final name of the recording; its temporary directory is gone and no file or directory it
  had before has changed.
\<close>

theorem recording_moved:
  assumes "transfer_ready z csk sk k ts l ns content sw v cw" "ns \<noteq> []" "k = 0 \<or> length ts \<noteq> 1" "cuts segs"
    and "t = strftime_ts (Min (set ts))"
    and "\<And>rel. rel \<in> set (remaining_names t l) \<Longrightarrow> readable z sw (server_path rel) (files rel)"
    and "node_at (fs cw) (pcomps (active_name t)) = None" "node_at (fs cw) (pcomps (final_name t)) = None"
  shows "\<exists>sw' v' cw'. (exchange z segs csk sk ^^ Suc (length ns)) (sw, v, cw) (sw', v', cw') \<and>
    (\<forall>p. node_at (fs sw') p = (if prefix (server_dir t) p then None else node_at (fs sw) p)) \<and>
    (\<forall>i \<in> set ns. node_at (fs cw') (pcomps (cloud_text (final_name t) l i)) = Some (File (content i))) \<and>
    (\<forall>rel \<in> set (remaining_names t l). node_at (fs cw') (pcomps (dest (final_name t) rel)) = Some (File (files rel))) \<and>
    (\<forall>p. prefix (pcomps (active_name t)) p \<longrightarrow> node_at (fs cw') p = None) \<and>
    (\<forall>p. node_at (fs cw) p \<noteq> None \<longrightarrow> node_at (fs cw') p = node_at (fs cw) p)"
  by (rule recording_moved_run [OF assms])

theorem recording_moved_witness:
  "\<exists>sw' v' cw'. (exchange stored_zlib (map (\<lambda>c. [c])) 4 4 ^^ 3) (site_world, tt_uninit small_client, small_client) (sw', v', cw') \<and>
     node_at (fs sw') (take 5 site_tof) = None \<and> node_at (fs sw') (take 4 site_tof) = Some Dir \<and>
     node_at (fs cw') (pcomps (cloud_text (final_name ''20230102-083000'') 0 3)) = Some (File ''xyz'')"
proof -
  have "cuts (map (\<lambda>c. [c]))" by (auto simp: cuts_def)
  moreover have "server_dir ''20230102-083000'' = take 5 site_tof"
    by (simp add: server_dir_def Server_Cmds.DATA_DIR_def pcomps_def site_tof_def)
  moreover have "\<not> prefix (take 5 site_tof) (take 4 site_tof)" "node_at site_store (take 4 site_tof) = Some Dir"
    by (simp_all add: site_tof_def node_at_def site_store_def)
  moreover have "fs site_world = site_store" by (simp add: site_world_def)
  ultimately obtain sw' v' cw' where run: "(exchange stored_zlib (map (\<lambda>c. [c])) 4 4 ^^ Suc (length [4, 3 :: int]))
      (site_world, tt_uninit small_client, small_client) (sw', v', cw')"
    and sv: "\<And>p. node_at (fs sw') p = (if prefix (take 5 site_tof) p then None else node_at (fs site_world) p)"
    and cl: "\<And>i. i \<in> {4, 3} \<Longrightarrow>
      node_at (fs cw') (pcomps (cloud_text (final_name ''20230102-083000'') 0 i)) = Some (File (site_content i))"
    using recording_moved [OF site_transfer, of "map (\<lambda>c. [c])" "''20230102-083000''" "\<lambda>_. ''k''"] site_remaining
    by (auto simp: demo_texts node_at_def [of "[]"] site_names simp del: relpowp.simps)
  have "Suc (length [4, 3 :: int]) = 3" by simp
  with run have "(exchange stored_zlib (map (\<lambda>c. [c])) 4 4 ^^ 3) (site_world, tt_uninit small_client, small_client) (sw', v', cw')"
    by (simp only:)
  moreover have "node_at (fs sw') (take 5 site_tof) = None" "node_at (fs sw') (take 4 site_tof) = Some Dir"
    using sv \<open>\<not> prefix _ _\<close> \<open>node_at site_store _ = _\<close> \<open>fs site_world = _\<close> by simp_all
  moreover have "node_at (fs cw') (pcomps (cloud_text (final_name ''20230102-083000'') 0 3)) = Some (File ''xyz'')"
    using cl [of 3] by (simp add: site_content_def)
  ultimately show ?thesis by blast
qed

end
