(* ===== verification/Client_Props.thy ===== *)
theory Client_Props
  imports Client_Ends Client_Main Transfer_Props
begin

text \<open>
  The properties of the transmission thread of the client: how it ends, what it does when a
  transfer breaks off or a request fails, and the directories it makes.
\<close>

section \<open>A client with scripted input\<close>

definition client_with_rx :: "rx_event list \<Rightarrow> client_world" where
  "client_with_rx es = upd_sock 4 (s_rx_update (\<lambda>_. es)) small_client"

lemma small_client_more [simp]:
  "signed_char small_client" "env_running small_client = []" "env_status small_client = []" "td (client_with_rx es) = td small_client"
  "log_ok (client_with_rx es)" "tx_clean 4 (client_with_rx es)" "fs (client_with_rx es) = []" "blocks (client_with_rx es) = 0"
  "malloc_max (client_with_rx es) = 1000000" "signed_char (client_with_rx es)" "deny (client_with_rx es) = (\<lambda>_ _. False)"
  "t_status (td small_client) = 1" "t_running (td small_client) = 1" "keys (client_with_rx es) = []"
  "env_status (client_with_rx es) = []" "tid_set (client_with_rx es)" "join_ok (client_with_rx es)" "threads (client_with_rx es) = 0"
  "clock (client_with_rx es) = clock plain_world" "keys small_client = []"
proof -
  have "log_ok small_client" using small_client_ready(1) by (simp add: client_ready_def)
  then show "log_ok (client_with_rx es)" by (simp add: log_ok_def client_with_rx_def upd_sock_def)
qed (simp_all add: client_with_rx_def small_client_def world.extend_def client_world.fields_def plain_world_defs upd_sock_def
    tx_clean_def)

definition fresh_reader :: buffer_tcp where
  "fresh_reader = init_buffer_tcp (replicate (BUFSIZ + 1) NUL)"

lemma client_reader:
  "list_all (\<lambda>e. rx_data e \<noteq> []) es \<Longrightarrow> reader_ok 4 fresh_reader (client_with_rx es)"
  "pending 4 fresh_reader (client_with_rx es) = rx_text es"
  by (simp_all add: reader_ok_def pending_def unread_def fresh_reader_def init_buffer_tcp_def client_with_rx_def rx_clean_def)
    (simp add: plain_world_defs)

section \<open>The end of the transmission thread\<close>

text \<open>
  C5. However the server, the network, the files and the main thread behave, the transmission
  thread never returns, never ends the process, is never killed by a signal and never waits on
  its own mutex (every lock is given back before the next one is taken, so that the outcome
  \<open>Blocked\<close> does not occur): it ends by \<open>pthread_exit\<close> with one of the three statuses the main
  thread knows, or it is still running when the fuel ends, or its behaviour is undefined.
\<close>

theorem transmission_thread_ends:
  assumes "sigpipe_ign w" "t_lock (td w) = Mx_Free" "transmission_thread z n w = (r, w')"
  shows "r = Thread_Exit \<and> t_status (td w') \<in> {0, - 1, - 2} \<or> r = Still_Running \<or> (\<exists>u. r = Undef u)"
proof -
  have "thread_inv False w" using assms(1,2) by (simp add: thread_inv_def)
  then have "ended False r w'" using endsD [OF transmission_thread_ends_run] assms(3) by blast
  moreover have "r \<noteq> Ret a" for a
    using no_return_thread [of z n] assms(3) by (metis fst_conv no_return_def)
  ultimately show ?thesis by (cases r) auto
qed

theorem transmission_thread_ends_witness:
  "\<exists>r w'. transmission_thread stored_zlib 3 (small_client\<lparr>sigpipe_ign := True\<rparr>) = (r, w') \<and>
     (r = Thread_Exit \<and> t_status (td w') \<in> {0, - 1, - 2} \<or> r = Still_Running \<or> (\<exists>u. r = Undef u))"
proof -
  obtain r w' where "transmission_thread stored_zlib 3 (small_client\<lparr>sigpipe_ign := True\<rparr>) = (r, w')" by (metis surj_pair)
  with transmission_thread_ends [OF _ _ this] show ?thesis by simp
qed

text \<open>
  C13. A thread that has been told to stop stops: with \<open>running\<close> at 0 the loop is left after the
  round it is in, whatever the server answers, even when it says \<open>WAIT\<close>.
\<close>

theorem stopped_thread_terminates:
  assumes "sigpipe_ign w" "t_lock (td w) = Mx_Free" "t_running (td w) = 0" "env_running w = []"
    and "tt_loop z (Suc n) sk v w = (r, w')"
  shows "r = Ret () \<or> r = Thread_Exit \<and> t_status (td w') \<in> {0, - 1, - 2} \<or> (\<exists>u. r = Undef u)"
proof -
  have "thread_inv True w" using assms(1-4) by (simp add: thread_inv_def)
  then have "ended True r w'" using endsD [OF tt_loop_ends [OF disjI2]] assms(5) by blast
  then show ?thesis by (cases r) auto
qed

theorem stopped_thread_terminates_witness:
  "\<exists>r w'. tt_loop stored_zlib 1 4 (tt_uninit small_client)
       (small_client\<lparr>sigpipe_ign := True, td := (td small_client)\<lparr>t_running := 0\<rparr>\<rparr>) = (r, w') \<and> r \<noteq> Still_Running"
proof -
  let ?w = "small_client\<lparr>sigpipe_ign := True, td := (td small_client)\<lparr>t_running := 0\<rparr>\<rparr>"
  obtain r w' where run: "tt_loop stored_zlib (Suc 0) 4 (tt_uninit small_client) ?w = (r, w')" by (metis surj_pair)
  have "r = Ret () \<or> r = Thread_Exit \<and> t_status (td w') \<in> {0, - 1, - 2} \<or> (\<exists>u. r = Undef u)"
    by (rule stopped_thread_terminates [OF _ _ _ _ run]) simp_all
  then have "r \<noteq> Still_Running" by auto
  with run show ?thesis unfolding One_nat_def by blast
qed

section \<open>A transfer that breaks off\<close>

lemma closed_getchar:
  assumes "reader_ok sk b w" "pending sk b w = []"
  shows "\<exists>v b'. tcp_binary_getchar_bs sk b w = (Ret (v, b'), w) \<and> reader_ok sk b' w \<and> pending sk b' w = []"
proof -
  have un: "unread b = []" and rx: "s_rx (socks w sk) = []" using assms
    by (cases "s_rx (socks w sk)"; auto simp: pending_def reader_ok_def rx_clean_def rx_text_def)+
  then have i: "b_dim b \<le> b_i b" using assms(1) by (auto simp: unread_def reader_ok_def split: if_splits)
  let ?b = "b\<lparr>b_dim := 0, b_i := 0\<rparr>"
  have ne: "b_buffer b \<noteq> []" using assms(1) by (auto simp: reader_ok_def)
  have s: "store_at [] a = a" for a by (simp add: store_at_def)
  have "tcp_binary_getchar_bs sk b w = (Ret (char_int (signed_char w) (b_buffer b ! 0), ?b\<lparr>b_i := 1\<rparr>), w)"
    using assms(1) i rx ne
    by (simp add: tcp_binary_getchar_bs_def tcp_binary_receive_def os_read_def mbind_def mseq_def mret_def reader_ok_def
      buffer_next_def load_def mget_def s)
  moreover have "reader_ok sk (?b\<lparr>b_i := 1\<rparr>) w" "pending sk (?b\<lparr>b_i := 1\<rparr>) w = []"
    using assms(1) rx by (simp_all add: reader_ok_def pending_def unread_def rx_text_def)
  ultimately show ?thesis by blast
qed

lemma recv_loop_closed:
  fixes w :: "'x client_world_scheme"
  assumes "reader_ok sk b w" "length (pending sk b w) \<le> n"
  shows "\<exists>s b' w'. recv_loop (tcp_binary_getchar_bs sk) n b w = (Ret (s, b'), w') \<and> reader_ok sk b' w' \<and>
    pending sk b' w' = [] \<and> only_rx sk w w'"
  using assms
proof (induction n arbitrary: b w)
  case 0
  then show ?case by (auto simp: mret_def only_rx_refl)
next
  case (Suc n)
  have "\<exists>v b1 w1. tcp_binary_getchar_bs sk b w = (Ret (v, b1), w1) \<and> reader_ok sk b1 w1 \<and>
      length (pending sk b1 w1) \<le> n \<and> only_rx sk w w1"
  proof (cases "pending sk b w")
    case Nil
    with closed_getchar [OF Suc.prems(1) Nil] show ?thesis using only_rx_refl by fastforce
  next
    case (Cons c cs)
    with binary_getchar_next [OF Suc.prems(1) Cons] Suc.prems(2) show ?thesis by fastforce
  qed
  then obtain v b1 w1 where step: "tcp_binary_getchar_bs sk b w = (Ret (v, b1), w1)"
    and 1: "reader_ok sk b1 w1" "length (pending sk b1 w1) \<le> n" "only_rx sk w w1" by blast
  obtain s b' w' where rest: "recv_loop (tcp_binary_getchar_bs sk) n b1 w1 = (Ret (s, b'), w')"
    and r: "reader_ok sk b' w'" "pending sk b' w' = []" "only_rx sk w1 w'"
    using Suc.IH [OF 1(1,2)] by blast
  have "recv_loop (tcp_binary_getchar_bs sk) (Suc n) b w = (Ret (int_char v # s, b'), w')"
    using step rest by (simp add: mbind_def mret_def)
  with r only_rx_trans [OF 1(3) r(3)] show ?case by blast
qed


lemma closed_readline:
  assumes "reader_ok sk b w" "pending sk b w = []" "0 < length buf"
  shows "\<exists>b' buf' w'. tcp_readline eh sk b buf w = (Ret (0, b', buf'), w') \<and> only_rx sk w w'"
  using readline_partial [where line = "[]" and i = 0, OF assms(1,2)] assms(3) by (fastforce simp: tcp_readline_def)

text \<open>The end of the thread when the last word can still be sent.\<close>

lemma ExitTransmissionThread_run:
  assumes "log_ok w" "tx_clean sk w"
  shows "\<exists>l. ExitTransmissionThread sk c w =
    (Thread_Exit, (sent sk (ln ''CLOSE'') w)\<lparr>log := l, td := (td w)\<lparr>t_status := c\<rparr>\<rparr>)"
proof -
  let ?w1 = "logged (ln ''TT - CLOSING TRANSMISSION THREAD'') [] w"
  let ?w2 = "sent sk (ln ''CLOSE'') ?w1"
  let ?w3 = "logged (ln ''TT - TRANSMISSION THREAD CLOSED'') [] ?w2"
  have "ExitTransmissionThread sk c w = (Thread_Exit, ?w3\<lparr>td := (td ?w3)\<lparr>t_status := c\<rparr>\<rparr>)"
    using assms
    by (simp add: ExitTransmissionThread_def PrintLog_seq mseq_run [where m = "tcp_send client_error_handler sk _"]
      tcp_send_clean mbind_Ret PrintLog_seq [unfolded mseq_def] set_status_def mmod_run mseq_def mstop_run)
  moreover have "?w3\<lparr>td := (td ?w3)\<lparr>t_status := c\<rparr>\<rparr> =
      (sent sk (ln ''CLOSE'') w)\<lparr>log := log ?w3, td := (td w)\<lparr>t_status := c\<rparr>\<rparr>"
    by (simp add: logged_def sent_def upd_sock_def)
  ultimately show ?thesis by metis
qed

text \<open>
  C12. A transfer that breaks off writes nothing: when the connection closes before the line
  after the compressed block has arrived, wherever in the block, the missing bytes are made up
  from the old buffer, but the thread then ends with status -2, after which the main thread
  starts a new one. The buffer for the block is never freed.
\<close>

theorem broken_transfer_writes_nothing:
  fixes w :: "'x client_world_scheme"
  assumes "log_ok w" "tx_clean sk w" "reader_ok sk b w" "int (length (pending sk b w)) \<le> rec_len"
    and "0 < rec_len" "rec_len < 2 ^ 31" "rec_len \<le> malloc_max w"
  shows "\<exists>w'. ReceiveAndDecompress z sk b p rec_len orig_len w = (Thread_Exit, w') \<and> t_status (td w') = - 2 \<and>
    fs w' = fs w \<and> blocks w' = blocks w + 1"
proof -
  let ?w = "w\<lparr>blocks := blocks w + 1\<rparr>" and ?n = "nat rec_len"
    and ?a = "uninit_array (BUFSIZ + 1) ''ReceiveAndDecompress.rec'' w"
  have "reader_ok sk b ?w" "length (pending sk b ?w) \<le> ?n" using assms(3,4) by simp_all
  from recv_loop_closed [OF this] obtain s b1 w1
    where loop: "recv_loop (tcp_binary_getchar_bs sk) ?n b ?w = (Ret (s, b1), w1)"
    and r1: "reader_ok sk b1 w1" "pending sk b1 w1 = []" "only_rx sk ?w w1" by blast
  have "\<not> 2 ^ 31 \<le> rec_len" "nat (min rec_len (2 ^ 31)) = ?n" using assms(6) by simp_all
  with loop assms(5) have block: "receive_buffer sk True rec_len b ?w = (Ret (s, b1), w1)"
    by (simp add: receive_buffer_def mbind_Ret mret_run)
  obtain b2 a2 w2 where line: "tcp_readline client_error_handler sk b1 ?a w1 = (Ret (0, b2, a2), w2)"
    and o2: "only_rx sk w1 w2"
    using closed_readline [OF r1(1,2), of ?a client_error_handler] by auto
  have o: "only_rx sk ?w w2" by (rule only_rx_trans [OF r1(3) o2])
  then have w2: "log_ok w2" "tx_clean sk w2" "fs w2 = fs w" "blocks w2 = blocks w + 1"
    using assms(1,2) by (auto simp: only_rx_def log_ok_def tx_clean_def upd_sock_def)
  let ?w3 = "logged (ln ''ERROR - TT - Connection error while receiving %s'') [FStr p] w2"
  obtain l where ex: "(ExitTransmissionThread sk (- 2) :: ('x, unit) cl) ?w3 =
      (Thread_Exit, (sent sk (ln ''CLOSE'') ?w3)\<lparr>log := l, td := (td ?w3)\<lparr>t_status := - 2\<rparr>\<rparr>)"
    using ExitTransmissionThread_run [of ?w3 sk "- 2"] w2(1,2) by auto
  have m: "os_malloc rec_len w = (Ret True, ?w)" using assms(5,7) by (simp add: os_malloc_def)
  have "ReceiveAndDecompress z sk b p rec_len orig_len w =
      (Thread_Exit, (sent sk (ln ''CLOSE'') ?w3)\<lparr>log := l, td := (td ?w3)\<lparr>t_status := - 2\<rparr>\<rparr>)"
    using w2(1) line
    by (simp add: ReceiveAndDecompress_def mbind_mget mbind_Ret m block mseq_run EOF_def PrintLog_seq [unfolded mseq_def]
      mbind_Thread_Exit ex)
  then show ?thesis using w2(3,4) by (simp add: sent_def upd_sock_def logged_def)
qed

theorem broken_transfer_writes_nothing_witness:
  "\<exists>w'. ReceiveAndDecompress stored_zlib 4 fresh_reader ''f'' 10 20 (client_with_rx [Data ''abc'']) = (Thread_Exit, w') \<and>
     t_status (td w') = - 2 \<and> fs w' = []"
proof -
  have "reader_ok 4 fresh_reader (client_with_rx [Data ''abc''])"
    "int (length (pending 4 fresh_reader (client_with_rx [Data ''abc'']))) \<le> 10"
    by (simp_all add: client_reader rx_text_def)
  then show ?thesis
    using broken_transfer_writes_nothing [of "client_with_rx [Data ''abc'']" 4 fresh_reader 10 stored_zlib "''f''" 20] by fastforce
qed

text \<open>
  C29. A block that the line \<open>END\<close> does not follow is refused with -4 and nothing is written,
  but the buffer that holds it stays allocated: each refused file leaks one block.
\<close>

theorem refused_block_leaks:
  fixes w :: "'x client_world_scheme"
  assumes "reader_ok sk b w" "pending sk b w = c @ line @ nl # rest" "answer (signed_char w) line"
    and "take 3 line \<noteq> ''END''" "c \<noteq> []" "length c < 2 ^ 31" "int (length c) \<le> malloc_max w"
  shows "\<exists>b' w'. ReceiveAndDecompress z sk b p (int (length c)) orig_len w = (Ret (- 4, b', orig_len), w') \<and>
    pending sk b' w' = rest \<and> fs w' = fs w \<and> blocks w' = blocks w + 1"
proof -
  let ?a = "uninit_array (BUFSIZ + 1) ''ReceiveAndDecompress.rec'' w" and ?w = "w\<lparr>blocks := blocks w + 1\<rparr>"
  obtain b1 w1 where block: "receive_buffer sk True (int (length c)) b ?w = (Ret (c, b1), w1)"
    and b1: "reader_ok sk b1 w1" "pending sk b1 w1 = line @ nl # rest" "talk sk (fs w) ?w w1"
    using recv_block_run [of sk b ?w c "line @ nl # rest"] assms(1,2,6) by auto
  have a1: "answer (signed_char w1) line" using assms(3) talk_fields [OF b1(3)] by simp
  obtain b2 a2 w2 where line: "tcp_readline client_error_handler sk b1 ?a w1 = (Ret (int (length line), b2, a2), w2)"
    and b2: "holds_line a2 line" "reader_ok sk b2 w2" "pending sk b2 w2 = rest" "talk sk (fs w1) w1 w2"
    using read_line_run [OF b1(1,2) a1, of ?a] by auto
  have t2: "talk sk (fs ?w) ?w w2" using talk_trans [OF b1(3) b2(4)] talk_fields(1) [OF b1(3)] by simp
  have nf: "nul_free line" "line \<noteq> []" using assms(3) by (auto simp: answer_def intro: text_nul_free)
  have "strncmp line ''END'' 3 \<noteq> 0"
    using strncmp_0_iff [of line "''END''" 3] nf(1) assms(4) by (auto simp: nul_free_def NUL_def)
  then have "ReceiveAndDecompress z sk b p (int (length c)) orig_len w = (Ret (- 4, b2, orig_len), w2)"
    using block line b2(1) nf(2) assms(7)
    by (simp add: ReceiveAndDecompress_def mbind_mget mbind_Ret os_malloc_def read_cstr_run holds_line_def
        EOF_def mseq_run mret_run)
  moreover have "fs w2 = fs w" "blocks w2 = blocks w + 1" using t2 by (auto simp: talk_def upd_sock_def)
  ultimately show ?thesis using b2(3) by blast
qed


theorem refused_block_leaks_witness:
  "\<exists>b' w'. ReceiveAndDecompress stored_zlib 4 fresh_reader ''f'' 3 20 (client_with_rx [Data (''abc'' @ ln ''OOPS'')]) =
     (Ret (- 4, b', 20), w') \<and> blocks w' = 1"
proof -
  let ?w = "client_with_rx [Data (''abc'' @ ln ''OOPS'')]"
  have r: "reader_ok 4 fresh_reader ?w" "pending 4 fresh_reader ?w = ''abc'' @ ''OOPS'' @ nl # []"
    by (simp_all add: client_reader rx_text_def ln_def)
  have a: "answer (signed_char ?w) ''OOPS''" by (simp add: answer_def text_char_def nl_def NUL_def BUFSIZ_def)
  show ?thesis using refused_block_leaks [OF r a, of stored_zlib "''f''" 20] by fastforce
qed

section \<open>Requests that fail\<close>

text \<open>
  C21. A request of the transmission thread that is answered with an error, or not at all
  because the server has closed the connection, ends the thread at once: with status -1, on
  which the main thread ends the program, or with -2, on which it starts a new thread. The
  request and the word \<open>CLOSE\<close> have been sent and no file has changed.
\<close>

theorem failed_request_ends_thread:
  fixes w :: "'x client_world_scheme"
  assumes "log_ok w" "tx_clean sk w" "reader_ok sk b w" "length rec = BUFSIZ + 1"
    and "pending sk b w = [] \<and> status = - 2 \<or>
      pending sk b w = line @ nl # rest \<and> list_all (text_char (signed_char w)) line \<and> take 5 line = ''ERROR'' \<and>
      length line \<le> BUFSIZ \<and> status = - 1"
  shows "\<exists>w'. TcpSendReceiveTT sk b cmd rec w = (Thread_Exit, w') \<and> t_status (td w') = status \<and> fs w' = fs w \<and>
    s_tx (socks w' sk) = s_tx (socks w sk) @ cmd @ ln ''CLOSE''"
proof -
  let ?w = "sent sk cmd w"
  have r0: "reader_ok sk b ?w" "pending sk b ?w = pending sk b w" using assms(3) by simp_all
  have finish: ?thesis
    if o: "only_rx sk ?w w1" and m: "TcpSendReceiveTT sk b cmd rec w =
        mbind (ExitTransmissionThread sk status :: ('x, unit) cl) k (logged f as w1)" for w1 f as k
  proof -
    have t1: "talk sk (fs w) ?w w1" using talk_only_rx [OF o] by simp
    have w1: "log_ok w1" "tx_clean sk w1" "fs w1 = fs w" "s_tx (socks w1 sk) = s_tx (socks w sk) @ cmd"
      using talk_ok [OF t1] talk_fields [OF t1] assms(1,2) by simp_all
    obtain l where "(ExitTransmissionThread sk status :: ('x, unit) cl) (logged f as w1) =
        (Thread_Exit, (sent sk (ln ''CLOSE'') (logged f as w1))\<lparr>log := l, td := (td w1)\<lparr>t_status := status\<rparr>\<rparr>)"
      using ExitTransmissionThread_run [of "logged f as w1" sk status] w1(1,2) by auto
    then show ?thesis using m w1(3,4) by (simp add: mbind_def sent_def upd_sock_def logged_def)
  qed
  show ?thesis
  proof (cases "pending sk b w = []")
    case True
    then have st: "status = - 2" using assms(5) by auto
    obtain b1 a1 w1 where line: "tcp_readline client_error_handler sk b rec ?w = (Ret (0, b1, a1), w1)" and o: "only_rx sk ?w w1"
      using closed_readline [OF r0(1), of rec client_error_handler] True r0(2) assms(4) by auto
    have ok: "log_ok w1" using o assms(1) by (auto simp: only_rx_def log_ok_def upd_sock_def sent_def)
    show ?thesis
      by (rule finish [OF o]) (use assms(2) line ok st in \<open>simp add: TcpSendReceiveTT_def tcp_send_clean mbind_Ret EOF_def
        mseq_def PrintLog_seq [unfolded mseq_def] mbind_assoc\<close>)
  next
    case False
    then have st: "status = - 1" and p: "pending sk b ?w = line @ nl # rest" and
      t: "list_all (text_char (signed_char ?w)) line" "take 5 line = ''ERROR''" "length line < length rec"
      using assms(4,5) by auto
    have nf: "nul_free line" "line \<noteq> []" using t(1,2) by (auto intro: text_nul_free)
    obtain b1 w1 where read: "tcp_readline client_error_handler sk b rec ?w =
        (Ret (int (length line), b1, line @ NUL # drop (length line + 1) rec), w1)" and o: "only_rx sk ?w w1"
      using tcp_readline_run [OF r0(1) p t(1,3), of client_error_handler] by blast
    have ok: "log_ok w1" using o assms(1) by (auto simp: only_rx_def log_ok_def upd_sock_def sent_def)
    have c: "cstr_of (line @ NUL # x) = Some line" for x using cstr_of_terminated [OF nf(1)] by simp
    have "strncmp line ''ERROR'' 5 = 0" using strncmp_0_iff [of line "''ERROR''" 5] nf(1) t(2) by (auto simp: nul_free_def NUL_def)
    then show ?thesis
      by (intro finish [OF o]) (use assms(2) read ok st nf(2) in \<open>simp add: TcpSendReceiveTT_def tcp_send_clean mbind_Ret EOF_def
        mseq_def PrintLog_seq [unfolded mseq_def] read_cstr_run c mbind_assoc\<close>)
  qed
qed


theorem failed_request_ends_thread_witness:
  "\<exists>w'. TcpSendReceiveTT 4 fresh_reader (ln ''SEND_NEXT'') (replicate (BUFSIZ + 1) NUL)
     (client_with_rx [Data (ln ''ERROR X'')]) = (Thread_Exit, w') \<and> t_status (td w') = - 1"
proof -
  let ?w = "client_with_rx [Data (ln ''ERROR X'')]"
  have r: "reader_ok 4 fresh_reader ?w" by (simp add: client_reader ln_def)
  have "pending 4 fresh_reader ?w = ''ERROR X'' @ nl # [] \<and> list_all (text_char (signed_char ?w)) ''ERROR X'' \<and>
      take 5 ''ERROR X'' = ''ERROR'' \<and> length ''ERROR X'' \<le> BUFSIZ \<and> - 1 = (- 1 :: int)"
    by (simp add: client_reader rx_text_def ln_def BUFSIZ_def) (simp add: text_char_def nl_def NUL_def)
  then show ?thesis
    using failed_request_ends_thread [OF _ _ r length_replicate disjI2] by fastforce
qed

section \<open>Local directories\<close>

text \<open>
  C20. \<open>CreateTransmissionDir\<close> creates the directories of a recording: afterwards every
  directory on the six paths exists, nothing else has changed, and no array overflows for a
  name of up to 180 characters.
\<close>

theorem CreateTransmissionDir_exact:
  assumes "nul_free dir" "length dir \<le> 180" "int32 l" "permissive w"
    and "\<And>p. p \<in> set (recording_names dir l) \<Longrightarrow> dirs_free (fs w) (pcomps p)"
  shows "\<exists>w'. CreateTransmissionDir dir l w = (Ret 0, w') \<and>
    (\<forall>q. node_at (fs w') q = (if (\<exists>p \<in> set (recording_names dir l). prefix q (pcomps p)) \<and> node_at (fs w) q = None
       then Some Dir else node_at (fs w) q))"
  using CreateTransmissionDir_run [OF assms(1,2) int_name_int32 [OF assms(3)] assms(4,5)]
  by (fastforce simp: recording_dirs_def node_at_recording)

theorem CreateTransmissionDir_exact_witness:
  "\<exists>w'. CreateTransmissionDir ''a'' 0 small_client = (Ret 0, w') \<and>
     node_at (fs w') [''a'', ''voxl-logger'', ''log0000'', ''run'', ''mpa'', ''tof''] = Some Dir"
proof -
  have free: "dirs_free (fs small_client) q" for q by (simp add: dirs_free_def node_at_def)
  obtain w' where run: "CreateTransmissionDir ''a'' 0 small_client = (Ret 0, w')"
    and st: "\<And>q. node_at (fs w') q = (if (\<exists>p \<in> set (recording_names ''a'' 0). prefix q (pcomps p)) \<and>
       node_at (fs small_client) q = None then Some Dir else node_at (fs small_client) q)"
    using CreateTransmissionDir_exact [of "''a''" 0 small_client] free
    by (auto simp: nul_free_def NUL_def int32_def permissive_def)
  have "fmt_04d 0 = ''0000''" by (simp add: fmt_04d_def Let_def digs_small digit_char_table numeral_eq_Suc)
  then have "pcomps (local_name ''a'' 0 ''run/mpa/tof'') = [''a'', ''voxl-logger'', ''log0000'', ''run'', ''mpa'', ''tof'']"
    by (simp add: pcomps_local) (simp add: pcomps_def)
  moreover have "local_name ''a'' 0 ''run/mpa/tof'' \<in> set (recording_names ''a'' 0)" by (simp add: recording_names_def)
  ultimately have "\<exists>p \<in> set (recording_names ''a'' 0).
      prefix [''a'', ''voxl-logger'', ''log0000'', ''run'', ''mpa'', ''tof''] (pcomps p)" by (metis prefix_order.refl)
  moreover have "node_at (fs small_client) [''a'', ''voxl-logger'', ''log0000'', ''run'', ''mpa'', ''tof''] = None"
    by (simp add: node_at_def)
  ultimately have "node_at (fs w') [''a'', ''voxl-logger'', ''log0000'', ''run'', ''mpa'', ''tof''] = Some Dir"
    unfolding st by simp
  with run show ?thesis by blast
qed

section \<open>The end of a recording that was never received\<close>

text \<open>
  C28. When the first answer a thread gets is \<open>EMPTY\<close> (the oldest recording of the server holds
  no point cloud any more, as after a transfer that broke off between the last \<open>REMOVE_FILE\<close>
  and \<open>REMOVE_DIR\<close>), the thread asks for the remaining files with the name of the recording in
  the shared record, which nothing has initialised: the string is read past its array unless a
  zero byte happens to be in it.
\<close>

theorem empty_first_reads_uninitialised:
  assumes "log_ok w" "tx_clean sk w" "reader_ok sk (tt_b v) w" "length (tt_rec v) = BUFSIZ + 1"
    and "pending sk (tt_b v) w = empty_line ts l @ nl # rest" "rec_name ts" "int32 l"
    and "NUL \<notin> set (nd_first (tr_d (t_tr (td w))))"
  shows "outcome_of (tt_round z (Suc k) sk v) w = Undef Str_Overread"
proof -
  let ?h = "empty_line ts l" and ?w1 = "logged (ln ''TT - Requesting the next file'') [] w"
  have ah: "answer sg ?h" for sg by (rule answer_empty [OF assms(6,7)])
  obtain b rec w2 where rq: "tt_request sk (ln ''SEND_NEXT'') v ?w1 = (Ret (v\<lparr>tt_b := b, tt_rec := rec\<rparr>), w2)"
    and r2: "holds_line rec ?h" "talk sk (fs w) (sent sk (ln ''SEND_NEXT'') ?w1) w2"
    using tt_request_run [of ?w1 sk v ?h rest "ln ''SEND_NEXT''"] assms(1-5) ah by auto
  let ?v = "v\<lparr>tt_b := b, tt_rec := rec\<rparr>" and ?w3 = "logged (ln ''TT - Finished sending files (EMPTY)'') [] w2"
  have nf: "nul_free ?h" using ah [of True] by (auto simp: answer_def intro: text_nul_free)
  have t2: "talk sk (fs w) (sent sk (ln ''SEND_NEXT'') w) w2" using talk_trans [OF talk_sent [OF talk_logged] r2(2)] .
  have w2: "log_ok w2" "td w2 = td w" using talk_ok [OF t2] talk_fields(2) [OF t2] assms(1) by simp_all
  have wait: "tt_wait (Suc k) sk ?v w2 = (Ret ?v, w2)"
    using r2(1) nf by (intro tt_wait_done [where line = ?h]) (simp_all, simp add: empty_line_def take_Cons')
  have c: "strncmp ?h ''SENDING'' 7 \<noteq> 0" "strncmp ?h ''EMPTY'' 5 = 0"
    using strncmp_0_iff [of ?h "''SENDING''" 7] strncmp_0_iff [of ?h "''EMPTY''" 5] nf
    by (auto simp: empty_line_def nul_free_def NUL_def)
  have "cstr_of (nd_first (tr_d (t_tr (td w)))) = None" using assms(8) by (simp add: cstr_of_def)
  then have ra: "RequestAllReaminingFiles z sk b' dir ?w3 = (Undef Str_Overread, ?w3)" for b' dir
    using w2 unfolding RequestAllReaminingFiles_def
    by (subst locked_read) (simp_all add: Let_def read_cstr_def mbind_Undef mstop_run)
  have ts: "word_ok ts" "length ts < TIMESTAMP_LEN" using assms(6) by (simp_all add: rec_name_def)
  have word: "scan_word TIMESTAMP_LEN (tt_folder v) [SvStr ts, SvInt l] 0 = mret (store_at (ts @ [NUL]) (tt_folder v))"
    using ts(2) by (simp add: scan_word_def)
  have "tt_empty z sk ?v w2 = (Undef Str_Overread, ?w3)"
    using r2(1) w2(1)
    by (simp add: tt_empty_def holds_line_def mbind_Ret read_cstr_run sscanf_empty [OF ts(1) assms(7)] Let_def word
      PrintLog_seq ra mbind_Undef)
  then have "tt_round z (Suc k) sk v w = (Undef Str_Overread, ?w3)"
    using rq wait c r2(1) assms(1)
    by (simp add: tt_round_def PrintLog_seq mbind_Ret read_cstr_run holds_line_def mret_run)
  then show ?thesis by simp
qed

theorem empty_first_reads_uninitialised_witness:
  "outcome_of (tt_round stored_zlib 1 4 ((tt_uninit small_client)\<lparr>tt_b := fresh_reader\<rparr>))
     ((client_with_rx [Data (ln (empty_line ''20230102-083000'' 0))])\<lparr>td := (td small_client)\<lparr>t_tr := (t_tr (td small_client))
        \<lparr>tr_d := (tr_d (t_tr (td small_client)))\<lparr>nd_first := replicate 16 CHR ''x''\<rparr>\<rparr>\<rparr>\<rparr>) = Undef Str_Overread"
proof -
  let ?c = "client_with_rx [Data (ln (empty_line ''20230102-083000'' 0))]"
  let ?t = "(td small_client)\<lparr>t_tr := (t_tr (td small_client))
        \<lparr>tr_d := (tr_d (t_tr (td small_client)))\<lparr>nd_first := replicate 16 CHR ''x''\<rparr>\<rparr>\<rparr>"
  have r: "reader_ok 4 fresh_reader ?c" "pending 4 fresh_reader ?c = empty_line ''20230102-083000'' 0 @ nl # []"
    by (simp_all add: client_reader rx_text_def ln_def)
  have "log_ok ?c" "tx_clean 4 ?c" by simp_all
  then have w: "log_ok (?c\<lparr>td := ?t\<rparr>)" "tx_clean 4 (?c\<lparr>td := ?t\<rparr>)"
      "reader_ok 4 (tt_b ((tt_uninit small_client)\<lparr>tt_b := fresh_reader\<rparr>)) (?c\<lparr>td := ?t\<rparr>)"
      "pending 4 (tt_b ((tt_uninit small_client)\<lparr>tt_b := fresh_reader\<rparr>)) (?c\<lparr>td := ?t\<rparr>) =
        empty_line ''20230102-083000'' 0 @ nl # []"
      "length (tt_rec ((tt_uninit small_client)\<lparr>tt_b := fresh_reader\<rparr>)) = BUFSIZ + 1"
    using r by (simp_all add: log_ok_def tx_clean_def reader_ok_def pending_def tt_uninit_def)
  have n: "rec_name ''20230102-083000''" using rec_name_timestamp [OF demo_printable] by (simp add: demo_texts)
  have j: "NUL \<notin> set (nd_first (tr_d (t_tr (td (?c\<lparr>td := ?t\<rparr>)))))" by (simp add: NUL_def)
  have l: "int32 0" by (simp add: int32_def)
  show ?thesis
    using empty_first_reads_uninitialised [OF w(1,2,3,5,4) n l j, of stored_zlib 0] by simp
qed

end
