(* ===== verification/Main_Props.thy ===== *)
theory Main_Props
  imports Client_Props
begin

text \<open>
  The properties of the main thread of the client: its requests and commands, the restart of
  the transmission thread, and the ends of the program.
\<close>

section \<open>Requests of the main thread\<close>

lemma TcpSendReceiveMT_run:
  assumes "log_ok w" "tx_clean sk w" "reader_ok sk b w" "pending sk b w = line @ nl # rest"
    and "answer (signed_char w) line" "length rec = BUFSIZ + 1"
  shows "\<exists>b' rec' w'. TcpSendReceiveMT sk b cmd rec w = (Ret (0, b', rec'), w') \<and> holds_line rec' line \<and>
    reader_ok sk b' w' \<and> pending sk b' w' = rest \<and> talk sk (fs w) (sent sk cmd w) w'"
proof -
  let ?w = "sent sk cmd w"
  obtain b' rec' w' where read: "tcp_readline client_error_handler sk b rec ?w = (Ret (int (length line), b', rec'), w')"
    and r: "holds_line rec' line" "reader_ok sk b' w'" "pending sk b' w' = rest" "talk sk (fs w) ?w w'"
    using read_line_run [of sk b ?w line rest rec] assms(3-6) by auto
  have ok: "log_ok w'" using talk_ok(1) [OF r(4)] assms(1) by simp
  have ne: "line \<noteq> []" using assms(5) by (simp add: answer_def)
  let ?v = "if strncmp line ''STATUS'' 6 \<noteq> 0 then logged (ln ''R - %s'') [FStr line] w' else w'"
  have "TcpSendReceiveMT sk b cmd rec w = (Ret (0, b', rec'), ?v)"
    using assms(2) read r(1) ok ne answer_no_error [OF assms(5)]
    by (simp add: TcpSendReceiveMT_def tcp_send_clean mbind_Ret holds_line_def read_cstr_run EOF_def mseq_run mret_run
        PrintLog_seq [unfolded mseq_def] mbind_assoc)
  moreover have "talk sk (fs w) ?w (logged (ln ''R - %s'') [FStr line] w')"
    using talk_trans [OF r(4) talk_logged] talk_fields(1) [OF r(4)] by metis
  ultimately show ?thesis using r by auto
qed

lemma m_request_run:
  assumes "log_ok w" "tx_clean sk w" "reader_ok sk (m_b v) w" "pending sk (m_b v) w = line @ nl # rest"
    and "answer (signed_char w) line" "length (m_rec v) = BUFSIZ + 1"
  shows "\<exists>b' rec' w'. m_request sk cmd v w = (Ret (v\<lparr>m_b := b', m_rec := rec', m_active := True\<rparr>), w') \<and>
    holds_line rec' line \<and> reader_ok sk b' w' \<and> pending sk b' w' = rest \<and> talk sk (fs w) (sent sk cmd w) w'"
proof -
  obtain b' rec' w' where "TcpSendReceiveMT sk (m_b v) cmd (m_rec v) w = (Ret (0, b', rec'), w')"
    and r: "holds_line rec' line" "reader_ok sk b' w'" "pending sk b' w' = rest" "talk sk (fs w) (sent sk cmd w) w'"
    using TcpSendReceiveMT_run [OF assms] by blast
  then have "m_request sk cmd v w = (Ret (v\<lparr>m_b := b', m_rec := rec', m_active := True\<rparr>), w')"
    by (simp add: m_request_def mbind_Ret mret_run)
  with r show ?thesis by blast
qed

section \<open>The command to start the logger\<close>

lemma TimestampString_run:
  assumes "printable_tm (clock w)"
  shows "\<exists>a. TimestampString TIMESTAMP_LEN ''%Y%m%d-%H%M%S'' uninit w = (Ret a, w) \<and> cstr_of a = Some (strftime_ts (clock w))"
proof -
  let ?s = "strftime_ts (clock w)"
  have "nul_free ?s" using rec_name_nul_free [OF rec_name_timestamp [OF assms]] .
  then have "cstr_of (store_at (?s @ [NUL]) uninit) = Some ?s"
    using cstr_of_terminated [of ?s] by (simp add: store_at_def)
  moreover have "TimestampString TIMESTAMP_LEN ''%Y%m%d-%H%M%S'' uninit w = (Ret (store_at (?s @ [NUL]) uninit), w)"
    unfolding TimestampString_def mbind_mget Let_def strftime_timestamp [OF assms]
    by (simp add: mret_run TIMESTAMP_LEN_def)
  ultimately show ?thesis by blast
qed

definition start_request :: "tm \<Rightarrow> string" where
  "start_request t = ''START '' @ strftime_ts t"

lemma vformat_start: "vformat (ln ''START %s'') [FStr s] = ln (''START '' @ s)"
  by (simp add: format_simps ln_def nl_def)

lemma start_key_run:
  fixes w :: "'x client_world_scheme"
  assumes "log_ok w" "tx_clean sk w" "reader_ok sk (m_b v) w" "pending sk (m_b v) w = line @ nl # rest"
    and "answer (signed_char w) line" "length (m_rec v) = BUFSIZ + 1"
  shows "\<exists>v' w'. client_key sk 49 v w = (Ret v', w') \<and> m_active v' \<and> holds_line (m_rec v') line \<and>
    pending sk (m_b v') w' = rest \<and> s_tx (socks w' sk) = s_tx (socks w sk) @ ln (start_request (clock w))"
proof -
  let ?w = "logged (ln ''Sending START command'') [] w" and ?t = "strftime_ts (clock w)"
  have c: "clock ?w = clock w" by (simp add: logged_def)
  have pt: "printable_tm (clock ?w)" using assms(1) c by (simp add: log_ok_def)
  obtain a where a: "TimestampString TIMESTAMP_LEN ''%Y%m%d-%H%M%S'' (uninit_array TIMESTAMP_LEN ''main.timestamp'' ?w) ?w = (Ret a, ?w)"
    "cstr_of a = Some ?t"
    using TimestampString_run [OF pt, of "uninit_array TIMESTAMP_LEN ''main.timestamp'' ?w"] c by auto
  have cmd: "snprintf MAXCMDLEN (ln ''START %s'') [FStr ?t] = ln (start_request (clock w))"
    by (subst snprintf_fits; unfold vformat_start start_request_def) (simp_all add: MAXCMDLEN_def ln_def)
  obtain b' rec' w' where run: "m_request sk (ln (start_request (clock w))) v ?w =
      (Ret (v\<lparr>m_b := b', m_rec := rec', m_active := True\<rparr>), w')"
    and r: "holds_line rec' line" "pending sk b' w' = rest" "talk sk (fs ?w) (sent sk (ln (start_request (clock w))) ?w) w'"
    using m_request_run [of ?w sk v line rest "ln (start_request (clock w))"] assms by auto
  have "client_key sk 49 v w = (Ret (v\<lparr>m_b := b', m_rec := rec', m_active := True\<rparr>), w')"
    using assms(1) a run
    by (simp add: client_key_def PrintLog_seq mbind_mget mbind_Ret read_cstr_run cmd)
  then show ?thesis using r talk_fields(15) [OF r(3), of sk] by simp
qed


text \<open>
  C6. The key for \<open>START\<close> reaches the logger of the drone: the client sends one line that
  carries its clock as \<open>yyyymmdd-hhmmss\<close>, the server that reads the line runs the start script
  with exactly this word when no logger runs and does nothing otherwise, and the line it
  answers is the one the client takes as the answer to its request, and stays connected.
\<close>

theorem start_command_reaches_logger:
  fixes cw :: "'x client_world_scheme" and sw :: "'y world_scheme"
  assumes "log_ok cw" "tx_clean csk cw" "reader_ok csk (m_b v) cw" "length (m_rec v) = BUFSIZ + 1"
    and "pending csk (m_b v) cw = reply @ nl # rest"
    and "proc_lines sw LOGGER_NAME ls" "tx_clean ssk sw"
    and "reply = (if ls = [] then ''Logging system STARTED'' else ''The logging system is already running'')"
  shows "\<exists>v' cw' sw'. client_key csk 49 v cw = (Ret v', cw') \<and> m_active v' \<and> cstr_of (m_rec v') = Some reply \<and>
    pending csk (m_b v') cw' = rest \<and> s_tx (socks cw' csk) = s_tx (socks cw csk) @ ln (start_request (clock cw)) \<and>
    server_command z ssk (start_request (clock cw)) sw = (Ret True, sw') \<and>
    s_tx (socks sw' ssk) = s_tx (socks sw ssk) @ ln reply \<and>
    procs sw' = (if ls = [] then shell_cmd sw (PATH_START @ '' '' @ strftime_ts (clock cw)) (procs sw) else procs sw) \<and>
    fs sw' = (if ls = [] then shell_fs sw (PATH_START @ '' '' @ strftime_ts (clock cw)) (fs sw) else fs sw)"
proof -
  let ?t = "strftime_ts (clock cw)" and ?w = "sw\<lparr>out := out sw @ ln (''TCP receive: '' @ start_request (clock cw))\<rparr>"
  have "answer (signed_char cw) reply"
    using assms(8) by (simp add: answer_def text_char_def nl_def NUL_def BUFSIZ_def)
  then obtain v' cw' where cl: "client_key csk 49 v cw = (Ret v', cw')" "m_active v'" "holds_line (m_rec v') reply"
    "pending csk (m_b v') cw' = rest" "s_tx (socks cw' csk) = s_tx (socks cw csk) @ ln (start_request (clock cw))"
    using start_key_run [OF assms(1,2,3,5) _ assms(4)] by blast
  have rn: "rec_name ?t" using rec_name_timestamp assms(1) by (simp add: log_ok_def)
  have w: "word_ok ''START''" "word_ok ?t" "nul_free ?t" "length ?t < 16" "length PATH_START + length ?t < 127"
    using rn rec_name_nul_free [OF rn] by (simp_all add: rec_name_def word_ok_def isspace_def PATH_START_def)
  have req: "start_request (clock cw) = ''START'' @ CHR '' '' # ?t" by (simp add: start_request_def)
  have nf: "nul_free (start_request (clock cw))" using w(3) by (auto simp: req nul_free_def NUL_def)
  have pl: "proc_lines ?w LOGGER_NAME ls" "tx_clean ssk ?w" using assms(6,7) by (simp_all add: proc_lines_def tx_clean_def)
  have say: "os_print (ln ''TCP receive: %s'') [FStr s] sw = (Ret (), sw\<lparr>out := out sw @ ln (''TCP receive: '' @ s)\<rparr>)" for s
    by (simp add: os_print_def mmod_def format_simps ln_def nl_def)
  have "strcmp (start_request (clock cw)) ''STATUS'' \<noteq> 0" "strncmp (start_request (clock cw)) ''START'' 5 = 0"
    using strncmp_0_iff [of "start_request (clock cw)" "''START''" 5] nf
    by (auto simp: strcmp_0_iff req nul_free_def NUL_def)
  then have "server_command z ssk (start_request (clock cw)) sw =
      mseq (Start ssk (start_request (clock cw)) PATH_START LOGGER_NAME) (mret True) ?w"
    by (simp add: server_command_def mseq_def mbind_Ret say)
  with Start_run [OF w pl] obtain sw' where sv: "server_command z ssk (start_request (clock cw)) sw = (Ret True, sw')"
    and "sw' = (if ls = [] then (sent ssk (ln ''Logging system STARTED'')
      (?w\<lparr>procs := shell_cmd sw (PATH_START @ '' '' @ ?t) (procs sw), fs := shell_fs sw (PATH_START @ '' '' @ ?t) (fs sw)\<rparr>))
      \<lparr>out := out ?w @ ln ''Starting the logging system''\<rparr>
    else (sent ssk (ln ''The logging system is already running'') ?w)
      \<lparr>out := out ?w @ ln ''Logging system is already active''\<rparr>)"
    by (simp add: req mseq_def mbind_Ret mret_run)
  then have "s_tx (socks sw' ssk) = s_tx (socks sw ssk) @ ln reply \<and>
    procs sw' = (if ls = [] then shell_cmd sw (PATH_START @ '' '' @ ?t) (procs sw) else procs sw) \<and>
    fs sw' = (if ls = [] then shell_fs sw (PATH_START @ '' '' @ ?t) (fs sw) else fs sw)"
    using assms(8) by (simp add: sent_def upd_sock_def)
  with cl sv show ?thesis unfolding holds_line_def by blast
qed


definition small_main :: main_vars where
  "small_main = \<lparr>m_b = fresh_reader, m_rec = replicate (BUFSIZ + 1) NUL,
     m_active = True, m_end = False, m_logger_status = 0\<rparr>"

lemma small_main_fields [simp]:
  "m_b small_main = fresh_reader" "length (m_rec small_main) = BUFSIZ + 1"
  "m_end small_main = False"
  by (simp_all add: small_main_def)

theorem start_command_reaches_logger_witness:
  "\<exists>v' cw' sw'. client_key 4 49 small_main (client_with_rx [Data (ln ''Logging system STARTED'')]) = (Ret v', cw') \<and>
     server_command stored_zlib 4 (start_request (clock plain_world)) demo_world = (Ret True, sw') \<and>
     s_tx (socks sw' 4) = s_tx (socks demo_world 4) @ ln ''Logging system STARTED''"
proof -
  let ?w = "client_with_rx [Data (ln ''Logging system STARTED'')]"
  have r: "reader_ok 4 (m_b small_main) ?w" "pending 4 (m_b small_main) ?w = ''Logging system STARTED'' @ nl # []"
    by (simp_all add: client_reader ln_def rx_text_def)
  have p: "proc_lines demo_world LOGGER_NAME []" "tx_clean 4 demo_world" using demo_facts by (simp_all add: LOGGER_NAME_def)
  have "log_ok ?w" "tx_clean 4 ?w" by simp_all
  from start_command_reaches_logger [OF this r(1) small_main_fields(2) r(2) p] show ?thesis by fastforce
qed

section \<open>A turn of the main loop\<close>

definition status_line :: "int \<Rightarrow> string" where
  "status_line n = ''STATUS: '' @ fmt_d n"

lemma sscanf_status:
  assumes "int32 n"
  shows "sscanf (status_line n) ''%*s %d'' = [SvInt n]"
proof -
  have c: "word_ok ''STATUS:''" by (simp add: word_ok_def isspace_def)
  have f: "sformat ''%*s %d'' = [SWord False, SSpace, SInt 32]" by (simp add: sformat_simps)
  have "scan (sformat ''%*s %d'') (c @ '' '' @ fmt_d n) = [SvInt n]" if "word_ok c" for c
    using that assms by (simp add: f scan_word_simps fmt_d_word wrap_int_32 del: scan.simps(2-6))
  from this [OF c] show ?thesis by (simp add: sscanf_def status_line_def)
qed

lemma read_status_run: "env_status w = [] \<Longrightarrow> read_status w = (Ret (t_status (td w)), w)"
  by (simp add: read_status_def)

text \<open>The screen shows a transmission only when its name can be read.\<close>

definition showable :: "'x client_world_scheme \<Rightarrow> bool" where
  "showable w \<longleftrightarrow> (t_status (td w) = 1 \<longrightarrow> cstr_of (nd_first (tr_d (t_tr (td w)))) \<noteq> None)"

lemma PrintInfo_run:
  assumes "s = 1 \<Longrightarrow> cstr_of (nd_first (tr_d tr)) \<noteq> None"
  shows "\<exists>cs. PrintInfo l s tr w = (Ret (), w\<lparr>screen := screen w @ cs\<rparr>)"
proof (cases "s = 1")
  case True
  then obtain t where "cstr_of (nd_first (tr_d tr)) = Some t" using assms by auto
  with True show ?thesis by (simp add: PrintInfo_def mseq_def mbind_def curs_run read_cstr_run) blast
next
  case False
  then show ?thesis by (simp add: PrintInfo_def mseq_def mbind_def curs_run) blast
qed

lemma relock: "log_ok w \<Longrightarrow> w\<lparr>td := (td w)\<lparr>t_lock := Mx_Free\<rparr>\<rparr> = w"
  by (cases w; cases "td w") (simp add: log_ok_def)

lemma client_report_run:
  assumes "log_ok w" "env_status w = []" "t_status (td w) \<noteq> - 1" "showable w"
  shows "\<exists>cs. client_report sk v w = (Ret v, w\<lparr>screen := screen w @ cs, slept := slept w + 100000000\<rparr>)"
proof -
  let ?l = "w\<lparr>td := (td w)\<lparr>t_lock := Mx_Locked\<rparr>\<rparr>"
  have lock: "mutex_lock w = (Ret (), ?l)" using assms(1) by (simp add: mutex_lock_def log_ok_def)
  have unlock: "mutex_unlock ?l = (Ret (), w)" by (simp add: mutex_unlock_def mmod_def relock [OF assms(1)])
  have st: "read_status ?l = (Ret (t_status (td w)), ?l)" using read_status_run [of ?l] assms(2) by simp
  have sl: "Common_Lib.sleepms MS_DELAY u = (Ret (), u\<lparr>slept := slept u + 100000000\<rparr>)" for u :: "'b world_scheme"
    by (simp add: Common_Lib.sleepms_def MS_DELAY_def int32_def os_nanosleep_def)
  obtain cs where "PrintInfo (m_logger_status v) (t_status (td w)) (t_tr (td w)) w = (Ret (), w\<lparr>screen := screen w @ cs\<rparr>)"
    using PrintInfo_run [of "t_status (td w)" "t_tr (td w)"] assms(4) by (auto simp: showable_def)
  then have "client_report sk v w = (Ret v, w\<lparr>screen := screen w @ cs, slept := slept w + 100000000\<rparr>)"
    using assms(3) read_status_run [OF assms(2)]
    by (simp add: client_report_def mseq_def mbind_Ret lock unlock st mbind_mget sl mret_run)
  then show ?thesis by blast
qed

text \<open>A new thread.\<close>

lemma start_thread_run:
  assumes "log_ok w" "create_ok w = []"
  shows "\<exists>l. start_thread sk w =
    (Ret (), w\<lparr>td := (td w)\<lparr>t_running := 1\<rparr>, log := l, tid_set := True, threads := Suc (threads w)\<rparr>)"
proof -
  let ?w1 = "logged (ln ''Starting the transmission thread'') [] (w\<lparr>td := (td w)\<lparr>t_running := 1\<rparr>\<rparr>)"
  let ?w2 = "?w1\<lparr>tid_set := True, threads := Suc (threads w)\<rparr>"
  let ?w3 = "logged (ln ''Transmission thread started'') [] ?w2"
  have ok: "log_ok (w\<lparr>td := (td w)\<lparr>t_running := 1\<rparr>\<rparr>)" "log_ok ?w2" using assms(1) by (simp_all add: log_ok_def logged_def)
  have create: "thread_create ?w1 = (Ret True, ?w2)" using assms(2) by (simp add: thread_create_def logged_def)
  have "start_thread sk w = (Ret (), ?w3)"
    using ok create
    by (simp add: start_thread_def CreateTransmissionThread_def mseq_run set_running_def mmod_run mbind_Ret
      PrintLog_seq [unfolded mseq_def] mret_run mbind_assoc)
  moreover have "?w3 = w\<lparr>td := (td w)\<lparr>t_running := 1\<rparr>, log := log ?w3, tid_set := True, threads := Suc (threads w)\<rparr>"
    by (simp add: logged_def)
  ultimately show ?thesis by metis
qed


lemma start_request_plain: "answer sg (status_line n)" if "int32 n"
  using length_fmt_int32 [OF that] text_fmt_d [of sg n]
  by (simp add: answer_def status_line_def BUFSIZ_def) (simp add: text_char_def nl_def NUL_def)

text \<open>
  C14. A turn of the main loop without a key: the client asks for the status of the logger,
  keeps the number the server answers, and starts a new transmission thread exactly when the
  last one has ended with status -2 (a broken connection); it stays in the session, changes no
  file, and sleeps a tenth of a second.
\<close>

theorem turn_restarts_broken_thread:
  fixes w :: "'x client_world_scheme"
  assumes "log_ok w" "tx_clean sk w" "reader_ok sk (m_b v) w" "length (m_rec v) = BUFSIZ + 1"
    and "pending sk (m_b v) w = status_line n @ nl # rest" "int32 n" "keys w = []" "signed_char w"
    and "env_status w = []" "create_ok w = []" "t_status (td w) \<noteq> - 1" "showable w"
  shows "\<exists>v' w'. client_turn sk v w = (Ret v', w') \<and> m_active v' \<and> m_end v' = m_end v \<and> m_logger_status v' = n \<and>
    pending sk (m_b v') w' = rest \<and> s_tx (socks w' sk) = s_tx (socks w sk) @ ln ''STATUS'' \<and>
    threads w' = (if t_status (td w) = - 2 then threads w + 1 else threads w) \<and>
    t_running (td w') = (if t_status (td w) = - 2 then 1 else t_running (td w)) \<and>
    fs w' = fs w \<and> slept w' = slept w + 100000000"
proof -
  obtain b1 a1 w1 where rq: "m_request sk (ln ''STATUS'') v w = (Ret (v\<lparr>m_b := b1, m_rec := a1, m_active := True\<rparr>), w1)"
    and r: "holds_line a1 (status_line n)" "pending sk b1 w1 = rest" "talk sk (fs w) (sent sk (ln ''STATUS'') w) w1"
    using m_request_run [OF assms(1-3,5) start_request_plain [OF assms(6)] assms(4)] by blast
  have e: "env_status (sent sk x w) = env_status w" for x by (simp add: sent_def upd_sock_def)
  have k: "keys w1 = []" "create_ok w1 = []" "threads w1 = threads w" "slept w1 = slept w"
    using r(3) assms(7,10) by (auto simp: talk_def sent_def upd_sock_def)
  have f: "log_ok w1" "td w1 = td w" "env_status w1 = []" "signed_char w1" "fs w1 = fs w"
    "s_tx (socks w1 sk) = s_tx (socks w sk) @ ln ''STATUS''"
    using talk_ok(1) [OF r(3)] talk_fields [OF r(3)] assms(1,8,9) by (simp_all add: e)
  let ?v = "v\<lparr>m_b := b1, m_rec := a1, m_active := True, m_logger_status := n\<rparr>"
  have "\<exists>w2. (if t_status (td w1) = - 2 then start_thread sk else mret ()) w1 = (Ret (), w2) \<and> log_ok w2 \<and>
      td w2 = (if t_status (td w) = - 2 then (td w)\<lparr>t_running := 1\<rparr> else td w) \<and> env_status w2 = [] \<and> keys w2 = [] \<and>
      signed_char w2 \<and> fs w2 = fs w \<and> socks w2 = socks w1 \<and> slept w2 = slept w \<and>
      threads w2 = (if t_status (td w) = - 2 then threads w + 1 else threads w)"
  proof (cases "t_status (td w) = - 2")
    case True
    with start_thread_run [OF f(1) k(2), of sk] f k show ?thesis by (auto simp: log_ok_def)
  next
    case False
    with f k show ?thesis by (simp add: mret_run)
  qed
  then obtain w2 where th: "(if t_status (td w1) = - 2 then start_thread sk else mret ()) w1 = (Ret (), w2)"
    and g: "log_ok w2" "td w2 = (if t_status (td w) = - 2 then (td w)\<lparr>t_running := 1\<rparr> else td w)" "env_status w2 = []"
      "keys w2 = []" "signed_char w2" "fs w2 = fs w" "socks w2 = socks w1" "slept w2 = slept w"
      "threads w2 = (if t_status (td w) = - 2 then threads w + 1 else threads w)" by blast
  have key: "GetUserInput w2 = (Ret EOF, w2)" using GetUserInput_none [OF g(4)] g(5) by simp
  have "t_status (td w2) \<noteq> - 1" "showable w2" using assms(11,12) by (simp_all add: g(2) showable_def)
  then obtain cs where rep: "client_report sk ?v w2 = (Ret ?v, w2\<lparr>screen := screen w2 @ cs, slept := slept w2 + 100000000\<rparr>)"
    using client_report_run [OF g(1,3)] by blast
  have "client_turn sk v w = (Ret ?v, w2\<lparr>screen := screen w2 @ cs, slept := slept w2 + 100000000\<rparr>)"
    using r(1) th rep
    by (simp add: client_turn_def mbind_Ret rq read_cstr_run holds_line_def sscanf_status [OF assms(6)] Let_def
      read_status_run [OF f(3)] mseq_def key sint_at_def mret_run)
  moreover have "pending sk b1 w2 = rest" using r(2) g(7) by (simp add: pending_def)
  ultimately show ?thesis using f(6) g by (simp add: pending_def)
qed

theorem turn_restarts_broken_thread_witness:
  "\<exists>v' w'. client_turn 4 small_main ((client_with_rx [Data (ln (status_line 1))])\<lparr>td := (td small_client)\<lparr>t_status := - 2\<rparr>\<rparr>)
     = (Ret v', w') \<and> m_logger_status v' = 1 \<and> threads w' = 1"
proof -
  let ?w = "(client_with_rx [Data (ln (status_line 1))])\<lparr>td := (td small_client)\<lparr>t_status := - 2\<rparr>\<rparr>"
  have "log_ok (client_with_rx [Data (ln (status_line 1))])" "tx_clean 4 (client_with_rx [Data (ln (status_line 1))])" by simp_all
  then have w: "log_ok ?w" "tx_clean 4 ?w" by (simp_all add: log_ok_def tx_clean_def)
  have "reader_ok 4 fresh_reader (client_with_rx [Data (ln (status_line 1))])"
    "pending 4 fresh_reader (client_with_rx [Data (ln (status_line 1))]) = status_line 1 @ nl # []"
    by (simp_all add: client_reader rx_text_def ln_def)
  then have r: "reader_ok 4 (m_b small_main) ?w" "pending 4 (m_b small_main) ?w = status_line 1 @ nl # []"
    by (simp_all add: reader_ok_def pending_def)
  have c: "create_ok ?w = []" by (simp add: client_with_rx_def small_client_def world.extend_def client_world.fields_def upd_sock_def)
  from turn_restarts_broken_thread [OF w r(1) small_main_fields(2) r(2) _ _ _ _ c] show ?thesis
    by (fastforce simp: int32_def showable_def)
qed


section \<open>The ends of the program\<close>

text \<open>The two parts of the end of the main thread.\<close>

definition join_thread :: "('x, unit) cl" where
  "join_thread =
     mseq (PrintLog (ln ''Transmission thread is running, trying to join...'') [])
     (mseq (set_running 0)
     (mbind thread_join (\<lambda>ok.
      if \<not> ok then
        mseq (PrintLog (ln ''Failed to join transmission thread'') [])
        (mseq EndIO (mseq close_log (mstop (Exit EXIT_FAILURE))))
      else mseq (PrintLog (ln ''Transmission thread joined'') []) (mret ()))))"

definition leave_main :: "int \<Rightarrow> int \<Rightarrow> ('x, 'a) cl" where
  "leave_main sk exit_code =
     mseq EndIO
     (mseq mutex_destroy
     (mseq (os_print (ln ''Closing client...'') [])
     (mseq (tcp_send client_error_handler sk (ln ''CLOSE''))
     (mseq (PrintLog (ln ''CLIENT CLOSED'') [])
     (mseq close_log (mstop (Exit exit_code)))))))"

lemma ExitMainThread_parts:
  assumes "log_ok w" "env_status w = []"
  shows "ExitMainThread sk c w =
    mseq (if t_status (td w) = 1 \<or> t_running (td w) = 1 then join_thread
          else mseq (PrintLog (ln ''Transmission thread is not running, nothing to join...'') []) (mret ()))
      (leave_main sk c) (logged (ln ''CLOSING MAIN THREAD'') [] w)"
proof -
  have "read_status (logged (ln ''CLOSING MAIN THREAD'') [] w) =
      (Ret (t_status (td w)), logged (ln ''CLOSING MAIN THREAD'') [] w)"
    using read_status_run [of "logged (ln ''CLOSING MAIN THREAD'') [] w"] assms(2) by (simp add: logged_def)
  then show ?thesis
    using assms(1)
    by (simp add: ExitMainThread_def PrintLog_seq mbind_Ret mbind_mget join_thread_def leave_main_def cong: if_cong)
qed

lemma join_thread_run:
  assumes "log_ok w" "tid_set w" "join_ok w"
  shows "\<exists>l. join_thread w = (Ret (), w\<lparr>td := (td w)\<lparr>t_running := 0\<rparr>, log := l\<rparr>)"
proof -
  let ?a = "logged (ln ''Transmission thread is running, trying to join...'') [] w"
  let ?b = "?a\<lparr>td := (td w)\<lparr>t_running := 0\<rparr>\<rparr>"
  have ok: "log_ok ?b" using assms(1) by (simp add: log_ok_def logged_def)
  have set: "set_running 0 ?a = (Ret (), ?b)" by (simp add: set_running_def mmod_run)
  have j: "thread_join ?b = (Ret True, ?b)" using assms(2,3) by (simp add: thread_join_def logged_def)
  have "join_thread w = mseq (set_running 0) (mbind thread_join (\<lambda>ok.
      if \<not> ok then
        mseq (PrintLog (ln ''Failed to join transmission thread'') [])
        (mseq EndIO (mseq close_log (mstop (Exit EXIT_FAILURE))))
      else mseq (PrintLog (ln ''Transmission thread joined'') []) (mret ()))) ?a"
    unfolding join_thread_def by (rule PrintLog_seq [OF assms(1)])
  also have "\<dots> = (Ret (), logged (ln ''Transmission thread joined'') [] ?b)"
    unfolding mseq_def [of "set_running 0"] mbind_Ret [where m = "set_running 0", OF set]
    by (simp add: mbind_Ret [where m = thread_join, OF j] PrintLog_seq [OF ok] mret_run)
  finally show ?thesis by (auto simp: logged_def)
qed

lemma leave_main_run:
  assumes "printable_tm (clock w)" "tx_clean sk w"
  shows "leave_main sk c w = (Undef Bad_Mutex, sent sk (ln ''CLOSE'')
    (w\<lparr>screen := screen w @ [Endwin], td := (td w)\<lparr>t_lock := Mx_Destroyed\<rparr>, out := out w @ ln ''Closing client...''\<rparr>))"
proof -
  have say: "os_print (ln ''Closing client...'') [] u = (Ret (), u\<lparr>out := out u @ ln ''Closing client...''\<rparr>)"
    for u :: "'z world_scheme"
    by (simp add: os_print_def mmod_def format_simps ln_def nl_def)
  let ?u = "w\<lparr>screen := screen w @ [Endwin], td := (td w)\<lparr>t_lock := Mx_Destroyed\<rparr>, out := out w @ ln ''Closing client...''\<rparr>"
  have tx: "tx_clean sk ?u" using assms(2) by (simp add: tx_clean_def)
  have bad: "PrintLog (ln ''CLIENT CLOSED'') [] (sent sk (ln ''CLOSE'') ?u) = (Undef Bad_Mutex, sent sk (ln ''CLOSE'') ?u)"
    using assms(1) by (intro PrintLog_bad_mutex) simp_all
  have eq: "w\<lparr>screen := screen w @ [Endwin], td := (td w)\<lparr>t_lock := Mx_Destroyed\<rparr>\<rparr>
      \<lparr>out := out (w\<lparr>screen := screen w @ [Endwin], td := (td w)\<lparr>t_lock := Mx_Destroyed\<rparr>\<rparr>) @ ln ''Closing client...''\<rparr> = ?u"
    by simp
  show ?thesis
    unfolding leave_main_def mseq_def
    by (simp add: EndIO_def curs_run mutex_destroy_def mmod_run mbind_Ret say tcp_send_clean [OF tx] mbind_Undef bad)
qed

text \<open>
  C30. The end of the main thread is undefined behaviour on every orderly way out: it stops the
  transmission thread, joins it, restores the terminal, destroys the mutex and sends \<open>CLOSE\<close>,
  and then writes to the log once more, for which it locks the destroyed mutex. The log is
  never closed and \<open>exit\<close> not reached.
\<close>

theorem ExitMainThread_locks_destroyed_mutex:
  fixes w :: "'x client_world_scheme"
  assumes "log_ok w" "tx_clean sk w" "env_status w = []"
    and "t_status (td w) = 1 \<or> t_running (td w) = 1 \<Longrightarrow> tid_set w \<and> join_ok w"
  shows "\<exists>w'. (ExitMainThread sk c :: ('x, 'a) cl) w = (Undef Bad_Mutex, w') \<and> t_lock (td w') = Mx_Destroyed \<and> log_open w' \<and>
    s_tx (socks w' sk) = s_tx (socks w sk) @ ln ''CLOSE'' \<and> last (screen w') = Endwin \<and>
    (t_status (td w) = 1 \<or> t_running (td w) = 1 \<longrightarrow> t_running (td w') = 0)"
proof -
  let ?w1 = "logged (ln ''CLOSING MAIN THREAD'') [] w" and ?b = "t_status (td w) = 1 \<or> t_running (td w) = 1"
  let ?m = "if ?b then join_thread
    else mseq (PrintLog (ln ''Transmission thread is not running, nothing to join...'') []) (mret ())"
  have "\<exists>w2. ?m ?w1 = (Ret (), w2) \<and> log_ok w2 \<and> socks w2 = socks w \<and> (?b \<longrightarrow> t_running (td w2) = 0)"
  proof (cases ?b)
    case True
    with join_thread_run [of ?w1] assms(1,4) show ?thesis by (auto simp: log_ok_def logged_def)
  next
    case False
    with assms(1) show ?thesis by (auto simp: PrintLog_seq mret_run)
  qed
  then obtain w2 where j: "?m ?w1 = (Ret (), w2)" and w2: "log_ok w2" "socks w2 = socks w" "?b \<longrightarrow> t_running (td w2) = 0"
    by blast
  have h: "printable_tm (clock w2)" "tx_clean sk w2" "log_open w2"
    using w2(1,2) assms(2) by (simp_all add: log_ok_def tx_clean_def)
  have "(ExitMainThread sk c :: ('x, 'a) cl) w = leave_main sk c w2"
    unfolding ExitMainThread_parts [OF assms(1,3)] mseq_def [of ?m] by (rule mbind_Ret [where m = ?m, OF j])
  with leave_main_run [OF h(1,2), of c] have run: "(ExitMainThread sk c :: ('x, 'a) cl) w = (Undef Bad_Mutex, sent sk (ln ''CLOSE'')
    (w2\<lparr>screen := screen w2 @ [Endwin], td := (td w2)\<lparr>t_lock := Mx_Destroyed\<rparr>, out := out w2 @ ln ''Closing client...''\<rparr>))"
    by simp
  show ?thesis
    by (rule exI, rule conjI, rule run) (use w2 h(3) in \<open>simp add: sent_def upd_sock_def\<close>)
qed

theorem ExitMainThread_locks_destroyed_mutex_witness:
  "outcome_of (ExitMainThread 4 0 :: (unit, unit) cl) (client_with_rx []) = Undef Bad_Mutex"
  using ExitMainThread_locks_destroyed_mutex [of "client_with_rx []" 4 0, where 'a = unit] by fastforce

text \<open>
  C31. When the transmission thread cannot be created the client ends by joining it all the
  same: \<open>running\<close> is 1 already, so that the end of the main thread passes the identifier that
  the failed \<open>pthread_create\<close> left undefined to \<open>pthread_join\<close>.
\<close>

theorem failed_creation_joins_undefined_thread:
  assumes "log_ok w" "create_ok w = False # oks" "env_status w = []"
  shows "outcome_of (start_thread sk) w = Undef Bad_Thread"
proof -
  let ?w0 = "w\<lparr>td := (td w)\<lparr>t_running := 1\<rparr>\<rparr>"
  let ?w1 = "logged (ln ''Starting the transmission thread'') [] ?w0"
  let ?w2 = "?w1\<lparr>tid_set := False, create_ok := oks\<rparr>"
  let ?w3 = "logged (ln ''ERROR - Failed to create transmission thread'') [] ?w2"
  let ?w4 = "logged (ln ''CLOSING MAIN THREAD'') [] ?w3"
  let ?w5 = "logged (ln ''Transmission thread is running, trying to join...'') [] ?w4"
  have ok: "log_ok ?w0" "log_ok ?w2" "log_ok ?w3" "log_ok ?w4" using assms(1) by (simp_all add: log_ok_def logged_def)
  have create: "thread_create ?w1 = (Ret False, ?w2)"
    using assms(2) by (cases w) (simp add: thread_create_def logged_def)
  have set: "set_running 1 w = (Ret (), ?w0)" by (simp add: set_running_def mmod_run)
  have run: "CreateTransmissionThread w = (Ret (- 1), ?w3)"
    unfolding CreateTransmissionThread_def mseq_def [of "set_running 1"] mbind_Ret [where m = "set_running 1", OF set]
      PrintLog_seq [OF ok(1)] mbind_Ret [where m = thread_create, OF create]
    by (simp add: PrintLog_seq [OF ok(2)] mret_run)
  have es: "env_status ?w3 = []" "t_running (td ?w3) = 1" "\<not> tid_set ?w5" using assms(3) by (simp_all add: logged_def)
  have join: "join_thread ?w4 = (Undef Bad_Thread, ?w5\<lparr>td := (td ?w5)\<lparr>t_running := 0\<rparr>\<rparr>)"
    unfolding join_thread_def PrintLog_seq [OF ok(4)]
    using es(3) by (simp add: mseq_run set_running_def mmod_run mbind_Ret mbind_Undef thread_join_def)
  have "start_thread sk w = ExitMainThread sk EXIT_FAILURE ?w3"
    by (simp add: start_thread_def mbind_Ret [where m = CreateTransmissionThread, OF run])
  also have "\<dots> = (Undef Bad_Thread, ?w5\<lparr>td := (td ?w5)\<lparr>t_running := 0\<rparr>\<rparr>)"
    unfolding ExitMainThread_parts [OF ok(3) es(1)] es(2) by (simp add: mseq_run mbind_Undef [where m = join_thread, OF join])
  finally show ?thesis by simp
qed

theorem failed_creation_joins_undefined_thread_witness:
  "outcome_of (start_thread 4) ((client_with_rx [])\<lparr>create_ok := [False]\<rparr>) = Undef Bad_Thread"
proof -
  have "log_ok (client_with_rx [])" by simp
  then have "log_ok ((client_with_rx [])\<lparr>create_ok := [False]\<rparr>)" by (simp add: log_ok_def)
  then show ?thesis by (rule failed_creation_joins_undefined_thread [where oks = "[]"]) simp_all
qed

text \<open>
  C32. The number of arguments is checked too late: without an address, or without a port, the
  program copies or converts a null pointer before it prints its usage; an address of 64
  characters and more overflows the array it is copied to; only too many arguments end with the
  message and the exit code 1.
\<close>

theorem client_main_arguments:
  fixes w :: "'x client_world_scheme"
  assumes "room (fs w) (pcomps LOG_FILE)" "permissive w" "\<not> setup_fails w ''pthread_mutex_init''"
    and "length argv \<noteq> 3 \<or> 64 \<le> length (argv ! 1)"
  shows "outcome_of (client_main n argv) w =
    (if length argv < 2 then Undef Null_Deref else if 64 \<le> length (argv ! 1) then Undef Buf_Overflow
     else if length argv < 3 then Undef Null_Deref else Exit 1)"
proof -
  let ?w1 = "w\<lparr>sigpipe_ign := True, fs := put_node (pcomps LOG_FILE) (File []) (fs w), streams := streams w + 1\<rparr>"
  have "os_fopen_write LOG_FILE (w\<lparr>sigpipe_ign := True\<rparr>) =
      (Ret True, w\<lparr>sigpipe_ign := True, fs := put_node (pcomps LOG_FILE) (File []) (fs w), streams := streams w + 1\<rparr>)"
    using assms(1,2) by (simp add: os_fopen_write_def room_def permissive_def denied_def)
  then have opened: "os_fopen_write LOG_FILE (w\<lparr>sigpipe_ign := True\<rparr>) = (Ret True, ?w1)" .
  have stop: "outcome_of (client_main n argv) w = Undef u" if ra: "(read_args argv :: ('x, string \<times> int) cl) = mstop (Undef u)" for u
    unfolding client_main_def ra
    by (simp add: mseq_run mmod_run mbind_Ret opened mbind_Undef [where m = "mstop (Undef u)"] mstop_run)
  show ?thesis
  proof (cases "length argv < 2 \<or> 64 \<le> length (argv ! 1) \<or> length argv < 3")
    case True
    then have "(read_args argv :: ('x, string \<times> int) cl) = mstop (Undef (if length argv < 2 then Null_Deref
        else if 64 \<le> length (argv ! 1) then Buf_Overflow else Null_Deref))"
      by (auto simp: read_args_def IPLEN_def)
    from stop [OF this] True show ?thesis by auto
  next
    case False
    then have ra: "(read_args argv :: ('x, string \<times> int) cl) = mret (argv ! 1, atoi (argv ! 2))" and n: "length argv \<noteq> 3"
      using assms(4) by (auto simp: read_args_def IPLEN_def)
    have f: "\<not> setup_fails (?w1\<lparr>log_open := True, log := [], td := (td ?w1)\<lparr>t_running := 0, t_status := 0\<rparr>\<rparr>) ''pthread_mutex_init''"
      using assms(3) by simp
    have "outcome_of (client_main n argv) w = Exit 1"
      unfolding client_main_def ra
      using n assms(3)
      by (simp add: mseq_run mmod_run mbind_Ret opened mbind_mget os_eprint_def mbind_Exit mstop_run EXIT_FAILURE_def del: client_loop.simps)
    with False show ?thesis by auto
  qed
qed

theorem client_main_arguments_witness:
  "outcome_of (client_main 1 [''client'', ''drone'']) small_client = Undef Null_Deref"
proof -
  have "pcomps LOG_FILE = [LOG_FILE]" by (simp add: pcomps_def LOG_FILE_def)
  then have "room (fs small_client) (pcomps LOG_FILE)" by (simp add: room_def node_at_def)
  moreover have "permissive small_client" "\<not> setup_fails small_client ''pthread_mutex_init''"
    by (simp_all add: permissive_def) (simp add: small_client_def world.extend_def client_world.fields_def plain_world_def)
  ultimately show ?thesis using client_main_arguments [of small_client "[''client'', ''drone'']" 1] by simp
qed

end
