(* ===== verification/Logger.thy ===== *)
theory Logger
  imports Make_Path Common_Lib
begin

text \<open>
  The simulator of the logger, \<open>data_generation/voxl-logger.c\<close> and \<open>voxl-logger_lib.c\<close>: it
  copies the reference point clouds one after the other into a new recording until a signal
  arrives, then the other files. The directory a point cloud goes to is chosen by
  \<open>rand\<close>, a field of the world; the signals are a script with one entry per check of the
  variable \<open>running\<close>.
\<close>

section \<open>State and constants\<close>

record logger_world = world +
  running :: int
  signals :: "bool list"     \<comment> \<open>whether a signal arrives before the next checks of \<open>running\<close>\<close>
  rand_val :: int

type_synonym ('x, 'a) lg = "('x logger_world_scheme, 'a) prog"

definition SOURCE_DIR :: string where "SOURCE_DIR = ''reference_data''"

definition OUT_DIR :: string where "OUT_DIR = ''generated_data''"

definition MAX_LINE_LEN :: nat where "MAX_LINE_LEN = 512"

definition MAX_PATH_LEN :: nat where "MAX_PATH_LEN = 512"

definition TIMESTAMP_LEN :: nat where "TIMESTAMP_LEN = 26"

definition DELAY_MS :: int where "DELAY_MS = 55"

section \<open>Paths and files\<close>

definition sleepms :: "int \<Rightarrow> ('x, unit) os" where
  "sleepms ms =
     (if int32 (ms * 1000000) then os_nanosleep 0 (ms * 1000000) else mstop (Undef Int_Overflow))"

definition MakePath :: "string \<Rightarrow> ('x, int) os" where
  "MakePath path = make_path_loop MAX_PATH_LEN [] path"

text \<open>
  The loop of \<open>fgets\<close> and \<open>fputs\<close> on the bytes that are left of the input: \<open>fputs\<close> writes the
  array up to its first terminator.
\<close>

function copy_loop :: "string \<Rightarrow> string \<Rightarrow> ('x, unit) os" where
  "copy_loop outp rest =
     (if rest = [] then mret ()
      else
        (let buffer = fgets_piece (MAX_LINE_LEN - 1) rest
         in mseq (os_fputs outp (takeWhile (\<lambda>c. c \<noteq> NUL) buffer))
            (copy_loop outp (drop (length buffer) rest))))"
  by pat_completeness auto
termination
  by (relation "measure (\<lambda>(outp, rest). length rest)") (auto simp: fgets_piece_def Let_def MAX_LINE_LEN_def)

declare copy_loop.simps [simp del]

definition CopyFile :: "string \<Rightarrow> string \<Rightarrow> ('x, int) os" where
  "CopyFile inp outp =
     mbind (os_fopen_read inp) (\<lambda>f_in. case f_in of
       None \<Rightarrow> mret (- 1)
     | Some _ \<Rightarrow>
         mbind (os_fopen_write outp) (\<lambda>f_out.
         if \<not> f_out then mret (- 2)
         else
           mbind (mget (stream_bytes inp)) (\<lambda>s.
           mseq (copy_loop outp s) (mseq os_fclose (mseq os_fclose (mret 0))))))"

definition CopyOtherFiles :: "string \<Rightarrow> int \<Rightarrow> ('x, int) os" where
  "CopyOtherFiles timestamp logger_n =
     (let other_n = (if logger_n = 0 then 1 else 0 :: int);
          inp = (\<lambda>f. snprintf MAX_PATH_LEN f [FStr SOURCE_DIR]);
          outp = (\<lambda>f n. snprintf MAX_PATH_LEN f [FStr OUT_DIR, FStr timestamp, FInt n])
      in mbind (CopyFile (inp ''%s/pcd_data/data.csv'') (outp ''%s/%s/voxl-logger/log%04d/run/mpa/tof/data.csv'' logger_n))
           (\<lambda>r. if r < 0 then mret (- 1) else
         mbind (CopyFile (inp ''%s/pcd_data/info.json'') (outp ''%s/%s/voxl-logger/log%04d/info.json'' logger_n))
           (\<lambda>r. if r < 0 then mret (- 1) else
         mbind (CopyFile (inp ''%s/other_data/data.csv'')
             (outp ''%s/%s/voxl-logger/log%04d/run/mpa/vvpx4_body_wrt_local/data.csv'' other_n))
           (\<lambda>r. if r < 0 then mret (- 1) else
         mbind (CopyFile (inp ''%s/other_data/info.json'') (outp ''%s/%s/voxl-logger/log%04d/info.json'' other_n))
           (\<lambda>r. if r < 0 then mret (- 1) else mret 0)))))"

section \<open>Options\<close>

text \<open>
  \<open>getopt\<close> with the option string \<open>d:\<close>: the options in the order of the arguments, and how
  many arguments they take up. Other arguments are moved behind them.
\<close>

datatype getopt_result = Opt_d string | Opt_bad string

fun opt_cluster :: "string \<Rightarrow> string list \<Rightarrow> getopt_result list \<times> string list" where
  "opt_cluster [] as = ([], as)"
| "opt_cluster (c # cs) as =
     (if c = CHR ''d'' then
        (if cs \<noteq> [] then ([Opt_d cs], as)
         else case as of
             [] \<Rightarrow> ([Opt_bad '': option requires an argument -- d''], [])
           | a # as' \<Rightarrow> ([Opt_d a], as'))
      else (let (es, r) = opt_cluster cs as in (Opt_bad ('': invalid option -- '' @ [c]) # es, r)))"

lemma opt_cluster_shorter: "length (snd (opt_cluster cs as)) \<le> length as"
  by (induction cs as rule: opt_cluster.induct) (auto split: list.split prod.split)

function getopt_scan :: "string list \<Rightarrow> getopt_result list \<times> nat" where
  "getopt_scan [] = ([], 0)"
| "getopt_scan (a # as) =
     (if a = ''--'' then ([], 1)
      else if take 1 a = ''-'' \<and> 1 < length a then
        (let (es, r) = opt_cluster (tl a) as; (es', n) = getopt_scan (snd (opt_cluster (tl a) as))
         in (es @ es', 1 + (length as - length r) + n))
      else getopt_scan as)"
  by pat_completeness auto
termination
  by (relation "measure length") (auto simp: opt_cluster_shorter le_imp_less_Suc)

declare getopt_scan.simps [simp del]

definition usage :: string where
  "usage = ln ''Must provide the -d option with a timestamp (es: 20230102-083000)''"

text \<open>The loop over the options: the array \<open>timestamp\<close>, or \<open>None\<close> when \<open>main\<close> returns 1.\<close>

fun read_opts :: "string \<Rightarrow> getopt_result list \<Rightarrow> string \<Rightarrow> ('x, string option) os" where
  "read_opts prg [] ts = mret (Some ts)"
| "read_opts prg (Opt_d a # es) ts = read_opts prg es (store_at (snprintf TIMESTAMP_LEN ''%s'' [FStr a] @ [NUL]) ts)"
| "read_opts prg (Opt_bad m # es) ts =
     mseq (os_eprint (ln ''%s%s'') [FStr prg, FStr m]) (mseq (os_print usage []) (mret None))"

section \<open>The main program\<close>

definition SigHandler :: "('x, unit) lg" where
  "SigHandler = mmod (\<lambda>w. w\<lparr>running := 0\<rparr>)"

definition check_running :: "('x, int) lg" where
  "check_running =
     mbind (mget signals) (\<lambda>ss.
     mseq (mmod (\<lambda>w. w\<lparr>signals := drop 1 ss\<rparr>))
     (mseq (if take 1 ss = [True] then SigHandler else mret ()) (mget running)))"

definition os_access :: "string \<Rightarrow> ('x, int) os" where
  "os_access path = (\<lambda>w. if node_at (fs w) (pcomps path) \<noteq> None then (Ret 0, w)
     else fail_with (missing_errno (fs w) (pcomps path)) (- 1) w)"

text \<open>The loop of the generation: the number of files written, \<open>None\<close> when \<open>main\<close> returns 1.\<close>

fun generate :: "nat \<Rightarrow> string \<Rightarrow> int \<Rightarrow> int \<Rightarrow> ('x, int option) lg" where
  "generate 0 timestamp pcd_data_n cnt = mstop Still_Running"
| "generate (Suc n) timestamp pcd_data_n cnt =
     mbind check_running (\<lambda>r.
     if r = 0 then mret (Some cnt)
     else
       (let in_path = snprintf MAX_PATH_LEN ''%s/pcd_data/data_%d.pcd'' [FStr SOURCE_DIR, FInt cnt];
            out_path = snprintf MAX_PATH_LEN ''%s/%s/voxl-logger/log%04d/run/mpa/tof/data_%d.pcd''
              [FStr OUT_DIR, FStr timestamp, FInt pcd_data_n, FInt cnt]
        in mbind (os_access in_path) (\<lambda>a.
           if a \<noteq> 0 then mseq (os_nanosleep 1 0) (generate n timestamp pcd_data_n cnt)
           else
             mbind (CopyFile in_path out_path) (\<lambda>c.
             if c < 0 then mseq (os_eprint (ln ''Unable to copy the file %s'') [FStr in_path]) (mret None)
             else mseq (sleepms DELAY_MS) (generate n timestamp pcd_data_n (cnt + 1))))))"

definition logger_main :: "nat \<Rightarrow> string list \<Rightarrow> ('x, int) lg" where
  "logger_main n argv =
     mbind (mget (uninit_array TIMESTAMP_LEN ''main.timestamp'')) (\<lambda>uninit.
     let (es, consumed) = getopt_scan (tl argv) in
     mbind (read_opts (hd argv) es uninit) (\<lambda>opt. case opt of
       None \<Rightarrow> mret 1
     | Some ts \<Rightarrow>
         if consumed = 0 then mseq (os_print usage []) (mret 1)
         else
           mbind (mget (\<lambda>w. rand_val w mod 100)) (\<lambda>r.
           let pcd_data_n = (if r > 50 then 1 else 0); other_data_n = (if r > 50 then 0 else 1) in
           mbind (read_cstr ts) (\<lambda>timestamp.
           mbind (MakePath (snprintf MAX_PATH_LEN ''%s/%s/voxl-logger/log%04d/run/mpa/tof''
              [FStr OUT_DIR, FStr timestamp, FInt pcd_data_n])) (\<lambda>m.
           if m \<noteq> 0 then mseq (os_eprint (ln ''Error creating path'') []) (mret 1) else
           mbind (MakePath (snprintf MAX_PATH_LEN ''%s/%s/voxl-logger/log%04d/run/mpa/vvpx4_body_wrt_local''
              [FStr OUT_DIR, FStr timestamp, FInt other_data_n])) (\<lambda>m.
           if m \<noteq> 0 then mseq (os_eprint (ln ''Error creating path'') []) (mret 1) else
           mbind (generate n timestamp pcd_data_n 0) (\<lambda>g. case g of
             None \<Rightarrow> mret 1
           | Some cnt \<Rightarrow>
               mseq (os_print (ln ''Finished'') [])
               (mbind (CopyOtherFiles timestamp pcd_data_n) (\<lambda>c.
                if c < 0 then mseq (os_eprint (ln ''Failed to copy other files'') []) (mret 1)
                else mseq (os_print (nl # ln ''CLOSING, written %d files'') [FInt cnt]) (mret 0))))))))))"

end
