(* ===== verification/Logger_Props.thy ===== *)
theory Logger_Props
  imports Logger Client_Finish
begin

text \<open>
  What the simulator of the logger writes: the copy of one file, the loop that generates point
  clouds until the signal arrives, and a whole run of its \<open>main\<close>.
\<close>

section \<open>The copy of a file\<close>

text \<open>
  What a copy keeps, byte by byte and without the pieces of \<open>fgets\<close>: a piece ends with a newline
  or after 510 bytes, \<open>m\<close> counts the bytes it may still take, and from its first zero byte on
  (\<open>lost\<close>) the rest of the piece is lost.
\<close>

fun kept :: "nat \<Rightarrow> bool \<Rightarrow> string \<Rightarrow> string" where
  "kept m lost [] = []"
| "kept m lost (c # s) =
     (let lost' = lost \<or> c = NUL in
      (if lost' then [] else [c]) @ (if c = nl \<or> m \<le> 1 then kept 510 False s else kept (m - 1) lost' s))"

definition copied :: "string \<Rightarrow> string" where
  "copied s = kept 510 False s"

lemma copied_Nil [simp]: "copied [] = []"
  by (simp add: copied_def)

lemma kept_nul_free: "nul_free s \<Longrightarrow> kept m False s = s"
  by (induction s arbitrary: m) (auto simp: nul_free_def)

lemma copied_nul_free: "nul_free s \<Longrightarrow> copied s = s"
  by (simp add: copied_def kept_nul_free)

lemma kept_loses: "length (kept m lost s) \<le> length s" "NUL \<in> set s \<Longrightarrow> length (kept m lost s) < length s"
  "nul_free (kept m lost s)"
proof -
  show le: "length (kept m lost s) \<le> length s" for m lost
    by (induction s arbitrary: m lost) (auto simp: Let_def le_SucI)
  show "NUL \<in> set s \<Longrightarrow> length (kept m lost s) < length s"
  proof (induction s arbitrary: m lost)
    case (Cons c s)
    have "length (kept k b s) < Suc (length s)" for k b
      by (rule le_imp_less_Suc) (induction s arbitrary: k b, auto simp: Let_def le_SucI)
    with Cons show ?case by (auto simp: Let_def less_SucI)
  qed simp
  show "nul_free (kept m lost s)"
    by (induction s arbitrary: m lost) (auto simp: nul_free_def Let_def)
qed

text \<open>The bytes of one piece, and of the pieces after it.\<close>

lemma fgets_piece_Cons:
  "fgets_piece (Suc (Suc m)) (c # s) = (if c = nl then [nl] else c # fgets_piece (Suc m) s)"
  "fgets_piece (Suc 0) s = []"
  by (simp_all add: fgets_piece_def Let_def)

lemma kept_piece:
  "1 \<le> m \<Longrightarrow> kept m lost s =
    (if lost then [] else takeWhile (\<lambda>c. c \<noteq> NUL) (fgets_piece (Suc m) s)) @
      kept 510 False (drop (length (fgets_piece (Suc m) s)) s)"
proof (induction s arbitrary: m lost)
  case (Cons c s)
  have nl: "nl \<noteq> NUL" by (simp add: nl_def NUL_def)
  obtain k where m: "m = Suc k" using Cons.prems by (cases m) auto
  show ?case
  proof (cases "c = nl \<or> k = 0")
    case True
    with nl show ?thesis by (auto simp: m fgets_piece_Cons Let_def)
  next
    case False
    then have IH: "kept k b s = (if b then [] else takeWhile (\<lambda>c. c \<noteq> NUL) (fgets_piece (Suc k) s)) @
        kept 510 False (drop (length (fgets_piece (Suc k) s)) s)" for b
      by (intro Cons.IH) simp
    with False IH show ?thesis by (auto simp: m fgets_piece_Cons Let_def)
  qed
qed (simp add: fgets_piece_def)

lemma copied_piece:
  "copied s = takeWhile (\<lambda>c. c \<noteq> NUL) (fgets_piece (MAX_LINE_LEN - 1) s) @ copied (drop (length (fgets_piece (MAX_LINE_LEN - 1) s)) s)"
  using kept_piece [of 510 False s] by (auto simp: copied_def MAX_LINE_LEN_def fgets_piece_def)

text \<open>The loop appends what is kept of the rest.\<close>

lemma copy_loop_run:
  assumes "permissive w" "node_at (fs w) (pcomps p) = Some (File t)" "pcomps p \<noteq> []"
  shows "copy_loop p s w = (Ret (), if s = [] then w else with_file p (t @ copied s) w)"
  using assms
proof (induction p s arbitrary: t w rule: copy_loop.induct)
  case (1 p s)
  let ?b = "fgets_piece (MAX_LINE_LEN - 1) s"
  let ?t = "t @ takeWhile (\<lambda>c. c \<noteq> NUL) ?b" and ?s = "drop (length ?b) s"
  show ?case
  proof (cases "s = []")
    case True
    then show ?thesis by (subst copy_loop.simps) (simp add: mret_def)
  next
    case False
    have "os_fputs p (takeWhile (\<lambda>c. c \<noteq> NUL) ?b) w = (Ret (), with_file p ?t w)"
      using "1.prems" by (simp add: os_fputs_def permissive_def denied_def with_file_def)
    moreover have "copy_loop p ?s (with_file p ?t w) =
        (Ret (), if ?s = [] then with_file p ?t w else with_file p (?t @ copied ?s) (with_file p ?t w))"
      using "1.prems" by (intro "1.IH" [OF False refl]) (simp_all add: with_file_def permissive_def node_at_put)
    ultimately show ?thesis
      using False by (subst copy_loop.simps, subst copied_piece)
        (auto simp: Let_def mseq_def mbind_def with_file_def put_node_twice)
  qed
qed

lemma CopyFile_run:
  assumes "permissive w" "node_at (fs w) (pcomps i) = Some (File s)" "room (fs w) (pcomps p)" "pcomps i \<noteq> pcomps p"
  shows "CopyFile i p w = (Ret 0, with_file p (copied s) w)"
proof -
  have ne: "pcomps p \<noteq> []" using assms(3) by (simp add: room_def)
  let ?w = "w\<lparr>fs := put_node (pcomps p) (File []) (fs w), streams := 2 + streams w\<rparr>"
  have s: "stream_bytes i ?w = s"
    using assms(1,2,4) ne by (simp add: stream_bytes_def fread_fails_def node_at_put permissive_def denied_def)
  have "CopyFile i p w = mbind (mget (stream_bytes i)) (\<lambda>s. mseq (copy_loop p s) (mseq os_fclose (mseq os_fclose (mret 0)))) ?w"
    using assms
    by (simp add: CopyFile_def os_fopen_read_def os_fopen_write_def mbind_def permissive_def denied_def room_def)
  moreover have "copy_loop p s ?w = (Ret (), if s = [] then ?w else with_file p ([] @ copied s) ?w)"
    using assms(1) ne by (intro copy_loop_run) (simp_all add: permissive_def node_at_put)
  ultimately show ?thesis
    using s by (simp add: mbind_def mget_def mret_def mseq_def os_fclose_def mmod_def with_file_def put_node_twice)
qed

section \<open>The loop of the generation\<close>

definition recording_root :: "string \<Rightarrow> string" where
  "recording_root ts = OUT_DIR @ ''/'' @ ts"

definition source_cloud :: "nat \<Rightarrow> string" where
  "source_cloud i = SOURCE_DIR @ ''/pcd_data/data_'' @ fmt_d (int i) @ ''.pcd''"

definition target_cloud :: "string \<Rightarrow> int \<Rightarrow> nat \<Rightarrow> string" where
  "target_cloud ts l i = cloud_text (recording_root ts) l (int i)"

lemma logger_formats:
  "vformat ''%s/pcd_data/data_%d.pcd'' [FStr SOURCE_DIR, FInt (int i)] = source_cloud i"
  "vformat ''%s/%s/voxl-logger/log%04d/run/mpa/tof/data_%d.pcd'' [FStr OUT_DIR, FStr ts, FInt l, FInt (int i)] =
     target_cloud ts l i"
  "vformat ''%s/%s/voxl-logger/log%04d/run/mpa/tof'' [FStr OUT_DIR, FStr ts, FInt l] =
     local_name (recording_root ts) l ''run/mpa/tof''"
  "vformat ''%s/%s/voxl-logger/log%04d/run/mpa/vvpx4_body_wrt_local'' [FStr OUT_DIR, FStr ts, FInt l] =
     local_name (recording_root ts) l ''run/mpa/vvpx4_body_wrt_local''"
  "vformat ''%s/%s/voxl-logger/log%04d/run/mpa/tof/data.csv'' [FStr OUT_DIR, FStr ts, FInt l] =
     local_name (recording_root ts) l ''run/mpa/tof/data.csv''"
  "vformat ''%s/%s/voxl-logger/log%04d/info.json'' [FStr OUT_DIR, FStr ts, FInt l] =
     local_name (recording_root ts) l ''info.json''"
  "vformat ''%s/%s/voxl-logger/log%04d/run/mpa/vvpx4_body_wrt_local/data.csv'' [FStr OUT_DIR, FStr ts, FInt l] =
     local_name (recording_root ts) l ''run/mpa/vvpx4_body_wrt_local/data.csv''"
  by (simp_all add: format_simps local_name_def cloud_text_def source_cloud_def target_cloud_def recording_root_def
    numeral_eq_Suc)

lemma pcomps_source: "pcomps (source_cloud i) = [SOURCE_DIR, ''pcd_data'', ''data_'' @ fmt_d (int i) @ ''.pcd'']"
proof -
  have n: "name_ok (''data_'' @ fmt_d (int i) @ ''.pcd'')" by (simp add: name_ok_def)
  have "pcomps (SOURCE_DIR @ ''/pcd_data'') = [SOURCE_DIR, ''pcd_data'']" by (simp add: pcomps_def SOURCE_DIR_def)
  then show ?thesis using pcomps_append_name [OF n, of "SOURCE_DIR @ ''/pcd_data''"] by (simp add: source_cloud_def)
qed

lemma pcomps_root: "pcomps (recording_root ts) = OUT_DIR # pcomps ts"
proof -
  have "pcomps OUT_DIR = [OUT_DIR]" by (simp add: pcomps_def OUT_DIR_def)
  then show ?thesis using pcomps_append [of OUT_DIR ts] by (simp add: recording_root_def)
qed

lemma out_not_source: "OUT_DIR \<noteq> SOURCE_DIR"
  by (simp add: OUT_DIR_def SOURCE_DIR_def)

lemma source_not_local: "SOURCE_DIR # p \<noteq> pcomps (local_name (recording_root ts) l s)"
  using out_not_source by (simp add: pcomps_local pcomps_root)

lemma source_not_target: "SOURCE_DIR # p \<noteq> pcomps (target_cloud ts l i)"
  using out_not_source by (simp add: target_cloud_def pcomps_cloud_text pcomps_local pcomps_root)

lemma target_inj: "pcomps (target_cloud ts l i) = pcomps (target_cloud ts l j) \<longleftrightarrow> i = j"
  using cloud_text_inj [of "recording_root ts" l "int i" "int j"] by (simp add: target_cloud_def)

text \<open>The store after the clouds \<open>is\<close> have been copied.\<close>

definition with_clouds :: "string \<Rightarrow> int \<Rightarrow> (nat \<Rightarrow> string) \<Rightarrow> nat list \<Rightarrow> store \<Rightarrow> store" where
  "with_clouds ts l src is st = fold (\<lambda>i. put_node (pcomps (target_cloud ts l i)) (File (copied (src i)))) is st"

lemma target_not_Nil: "pcomps (target_cloud ts l i) \<noteq> []"
  by (simp add: target_cloud_def pcomps_cloud_text)

lemma with_clouds_at:
  "i \<in> set is \<Longrightarrow> node_at (with_clouds ts l src is st) (pcomps (target_cloud ts l i)) = Some (File (copied (src i)))"
  unfolding with_clouds_def
  by (rule node_at_put_files(1)) (simp_all add: target_not_Nil inj_on_def target_inj)

lemma with_clouds_other:
  "q \<notin> (\<lambda>i. pcomps (target_cloud ts l i)) ` set is \<Longrightarrow> node_at (with_clouds ts l src is st) q = node_at st q"
  unfolding with_clouds_def by (rule node_at_put_files(2)) (simp_all add: target_not_Nil)

lemma room_put_files:
  "(\<And>r. r \<in> set rels \<Longrightarrow> room st (f r)) \<Longrightarrow> room st q \<Longrightarrow> room (fold (\<lambda>r. put_node (f r) (File (c r))) rels st) q"
proof (induction rels arbitrary: st)
  case (Cons r rels)
  have "room st (f r)" by (simp add: Cons.prems(1))
  with Cons show ?case by (simp add: room_put)
qed simp

text \<open>The names fit their arrays.\<close>

lemma length_root: "length ts < 26 \<Longrightarrow> length (recording_root ts) < 41"
  by (simp add: recording_root_def OUT_DIR_def)

lemma logger_paths:
  assumes "length ts < 26" "int_name l" "int32 (int i)"
  shows "snprintf Logger.MAX_PATH_LEN ''%s/pcd_data/data_%d.pcd'' [FStr SOURCE_DIR, FInt (int i)] = source_cloud i"
    "snprintf Logger.MAX_PATH_LEN ''%s/%s/voxl-logger/log%04d/run/mpa/tof/data_%d.pcd''
       [FStr OUT_DIR, FStr ts, FInt l, FInt (int i)] = target_cloud ts l i"
proof -
  have "length (source_cloud i) < 512"
    using length_fmt_int32 [OF assms(3)] by (simp add: source_cloud_def SOURCE_DIR_def)
  moreover have "length (target_cloud ts l i) < 512"
    using length_cloud_text [OF assms(2,3), of "recording_root ts"] length_root [OF assms(1)] by (simp add: target_cloud_def)
  ultimately show "snprintf Logger.MAX_PATH_LEN ''%s/pcd_data/data_%d.pcd'' [FStr SOURCE_DIR, FInt (int i)] = source_cloud i"
    "snprintf Logger.MAX_PATH_LEN ''%s/%s/voxl-logger/log%04d/run/mpa/tof/data_%d.pcd''
       [FStr OUT_DIR, FStr ts, FInt l, FInt (int i)] = target_cloud ts l i"
    by (simp_all add: snprintf_fits logger_formats Logger.MAX_PATH_LEN_def)
qed

text \<open>The clouds \<open>0\<close> to \<open>m - 1\<close> can be copied and the cloud \<open>m\<close> is missing.\<close>

definition sources :: "store \<Rightarrow> (nat \<Rightarrow> string) \<Rightarrow> nat \<Rightarrow> bool" where
  "sources st src m \<longleftrightarrow> (\<forall>i < m. node_at st (pcomps (source_cloud i)) = Some (File (src i))) \<and>
     node_at st (pcomps (source_cloud m)) = None \<and> int32 (int m)"

definition targets :: "store \<Rightarrow> string \<Rightarrow> int \<Rightarrow> nat \<Rightarrow> bool" where
  "targets st ts l m \<longleftrightarrow> (\<forall>i < m. room st (pcomps (target_cloud ts l i)))"

text \<open>The worlds that a run of the loop may end in, apart from its files.\<close>

definition ran_to :: "store \<Rightarrow> bool list \<Rightarrow> 'x logger_world_scheme \<Rightarrow> 'x logger_world_scheme \<Rightarrow> bool" where
  "ran_to st ss v w \<longleftrightarrow> (\<exists>e n. w = v\<lparr>fs := st, signals := ss, running := 0, errno_val := e, slept := n\<rparr>)"

lemma ran_to_step:
  assumes "ran_to st ss (v\<lparr>fs := st', signals := ss', errno_val := e', slept := n'\<rparr>) w"
  shows "ran_to st ss v w"
  using assms by (auto simp: ran_to_def)

lemma check_running_go: "signals w = False # ss \<Longrightarrow> check_running w = (Ret (running w), w\<lparr>signals := ss\<rparr>)"
  by (simp add: check_running_def mbind_def mseq_def mget_def mmod_def mret_def)

lemma check_running_stop: "signals w = True # ss \<Longrightarrow> check_running w = (Ret 0, w\<lparr>signals := ss, running := 0\<rparr>)"
  by (simp add: check_running_def mbind_def mseq_def mget_def mmod_def mret_def SigHandler_def)

lemma signals_first:
  "w\<lparr>signals := ss, fs := st, slept := n\<rparr> = w\<lparr>fs := st, signals := ss, slept := n\<rparr>"
  by (cases w) simp

lemma generate_missing:
  assumes "running w \<noteq> 0" "signals w = False # ss" "node_at (fs w) (pcomps (source_cloud c)) = None"
    and "length ts < 26" "int_name l" "int32 (int c)"
  shows "\<exists>e. generate (Suc n) ts l (int c) w =
    generate n ts l (int c) (w\<lparr>signals := ss, errno_val := e, slept := slept w + 1000000000\<rparr>)"
proof -
  let ?w = "w\<lparr>signals := ss\<rparr>"
  obtain e where acc: "os_access (source_cloud c) ?w = (Ret (- 1), ?w\<lparr>errno_val := e\<rparr>)"
    using assms(3) by (simp add: os_access_def fail_with_run)
  have sl: "os_nanosleep 1 0 v = (Ret (), v\<lparr>slept := slept v + 1000000000\<rparr>)" for v :: "'b world_scheme"
    by (simp add: os_nanosleep_def)
  show ?thesis
    using assms(1)
    by (simp add: logger_paths [OF assms(4,5,6)] Let_def mbind_Ret check_running_go [OF assms(2)] acc
      mseq_def sl) blast
qed

lemma generate_copies:
  assumes "running w \<noteq> 0" "signals w = False # ss" "permissive w" "length ts < 26" "int_name l" "int32 (int c)"
    and "node_at (fs w) (pcomps (source_cloud c)) = Some (File s)" "room (fs w) (pcomps (target_cloud ts l c))"
  shows "generate (Suc n) ts l (int c) w = generate n ts l (int (Suc c))
    (w\<lparr>fs := put_node (pcomps (target_cloud ts l c)) (File (copied s)) (fs w), signals := ss,
       slept := slept w + 55000000\<rparr>)"
proof -
  let ?w = "w\<lparr>signals := ss\<rparr>"
  have ne: "pcomps (source_cloud c) \<noteq> pcomps (target_cloud ts l c)" by (simp add: pcomps_source source_not_target)
  have copy: "CopyFile (source_cloud c) (target_cloud ts l c) ?w =
      (Ret 0, with_file (target_cloud ts l c) (copied s) ?w)"
    using assms ne by (intro CopyFile_run) (simp_all add: permissive_def)
  have acc: "os_access (source_cloud c) ?w = (Ret 0, ?w)" using assms(7) by (simp add: os_access_def)
  have sl: "Logger.sleepms DELAY_MS v = (Ret (), v\<lparr>slept := slept v + 55000000\<rparr>)" for v :: "'b world_scheme"
    by (simp add: Logger.sleepms_def DELAY_MS_def int32_def os_nanosleep_def)
  show ?thesis
    using assms(1,2)
    by (simp add: logger_paths [OF assms(4,5,6)] Let_def mbind_Ret check_running_go [OF assms(2)] acc
      copy mseq_def sl with_file_def add.commute signals_first)
qed

lemma generate_run:
  assumes "running w \<noteq> 0" "signals w = replicate k False @ True # ss" "permissive w" "length ts < 26" "int_name l"
    and "sources (fs w) src m" "targets (fs w) ts l m" "c \<le> m"
  shows "\<exists>w'. generate (Suc k) ts l (int c) w = (Ret (Some (int (min m (c + k)))), w') \<and>
    ran_to (with_clouds ts l src [c..<min m (c + k)] (fs w)) ss w w'"
  using assms
proof (induction k arbitrary: c w)
  case 0
  have "generate (Suc 0) ts l (int c) w = (Ret (Some (int c)), w\<lparr>signals := ss, running := 0\<rparr>)"
    using 0 by (simp add: mbind_Ret [where m = check_running, OF check_running_stop] mret_def)
  moreover have "ran_to (fs w) ss w (w\<lparr>signals := ss, running := 0\<rparr>)"
    unfolding ran_to_def by (intro exI [of _ "errno_val w"] exI [of _ "slept w"]) (cases w; simp)
  ultimately show ?case using 0 by (auto simp: with_clouds_def min_absorb2)
next
  case (Suc k)
  have sig: "signals w = False # (replicate k False @ True # ss)" using Suc.prems(2) by simp
  have c32: "int32 (int c)" using Suc.prems(6,8) by (simp add: sources_def int32_def)
  show ?case
  proof (cases "c = m")
    case True
    then have mis: "node_at (fs w) (pcomps (source_cloud c)) = None" using Suc.prems(6) by (simp add: sources_def)
    obtain e where step: "generate (Suc (Suc k)) ts l (int c) w = generate (Suc k) ts l (int c)
        (w\<lparr>signals := replicate k False @ True # ss, errno_val := e, slept := slept w + 1000000000\<rparr>)" (is "_ = generate _ _ _ _ ?v")
      using generate_missing [OF Suc.prems(1) sig mis Suc.prems(4,5) c32] by blast
    have "\<exists>w'. generate (Suc k) ts l (int c) ?v = (Ret (Some (int (min m (c + k)))), w') \<and>
        ran_to (with_clouds ts l src [c..<min m (c + k)] (fs ?v)) ss ?v w'"
      using Suc.prems by (intro Suc.IH) (simp_all add: permissive_def)
    then obtain w' where run: "generate (Suc k) ts l (int c) ?v = (Ret (Some (int (min m (c + k)))), w')"
      and r: "ran_to (with_clouds ts l src [c..<min m (c + k)] (fs ?v)) ss ?v w'" by blast
    have eq: "?v = w\<lparr>fs := fs w, signals := replicate k False @ True # ss, errno_val := e, slept := slept w + 1000000000\<rparr>"
      by (cases w) simp
    have "ran_to (with_clouds ts l src [c..<min m (c + k)] (fs w)) ss w w'"
      using ran_to_step [OF r [unfolded eq]] by simp
    with run step True show ?thesis by (simp add: min_def)
  next
    case False
    then have lt: "c < m" using Suc.prems(8) by simp
    let ?st = "put_node (pcomps (target_cloud ts l c)) (File (copied (src c))) (fs w)"
    let ?v = "w\<lparr>fs := ?st, signals := replicate k False @ True # ss, slept := slept w + 55000000\<rparr>"
    have room: "room (fs w) (pcomps (target_cloud ts l c))" using Suc.prems(7) lt by (simp add: targets_def)
    then have step: "generate (Suc (Suc k)) ts l (int c) w = generate (Suc k) ts l (int (Suc c)) ?v"
      using Suc.prems lt by (intro generate_copies [OF Suc.prems(1) sig Suc.prems(3-5) c32]) (simp_all add: sources_def)
    have ne: "pcomps (target_cloud ts l c) \<noteq> []" using room by (simp add: room_def)
    have src: "sources ?st src m" using Suc.prems(6) ne
      by (auto simp: sources_def node_at_put pcomps_source source_not_target)
    have tg: "targets ?st ts l m" using Suc.prems(7) room by (auto simp: targets_def room_put)
    have "\<exists>w'. generate (Suc k) ts l (int (Suc c)) ?v = (Ret (Some (int (min m (Suc c + k)))), w') \<and>
        ran_to (with_clouds ts l src [Suc c..<min m (Suc c + k)] (fs ?v)) ss ?v w'"
      using Suc.prems lt src tg by (intro Suc.IH) (simp_all add: permissive_def)
    then obtain w' where run: "generate (Suc k) ts l (int (Suc c)) ?v = (Ret (Some (int (min m (Suc c + k)))), w')"
      and r: "ran_to (with_clouds ts l src [Suc c..<min m (Suc c + k)] (fs ?v)) ss ?v w'" by blast
    have eq: "?v = w\<lparr>fs := ?st, signals := replicate k False @ True # ss, errno_val := errno_val w, slept := slept w + 55000000\<rparr>"
      by (cases w) simp
    have "[c..<min m (Suc c + k)] = c # [Suc c..<min m (Suc c + k)]" using lt by (simp add: upt_conv_Cons)
    then have st: "with_clouds ts l src [c..<min m (c + Suc k)] (fs w) = with_clouds ts l src [Suc c..<min m (Suc c + k)] ?st"
      by (simp add: with_clouds_def)
    have "ran_to (with_clouds ts l src [Suc c..<min m (Suc c + k)] ?st) ss w w'"
      using ran_to_step [OF r [unfolded eq]] by simp
    with run step st show ?thesis by simp
  qed
qed


section \<open>The other files\<close>

definition other_copies :: "string \<Rightarrow> int \<Rightarrow> (string \<times> string) list" where
  "other_copies ts l =
     (let k = (if l = 0 then 1 else 0); to = local_name (recording_root ts)
      in [(SOURCE_DIR @ ''/pcd_data/data.csv'', to l ''run/mpa/tof/data.csv''),
          (SOURCE_DIR @ ''/pcd_data/info.json'', to l ''info.json''),
          (SOURCE_DIR @ ''/other_data/data.csv'', to k ''run/mpa/vvpx4_body_wrt_local/data.csv''),
          (SOURCE_DIR @ ''/other_data/info.json'', to k ''info.json'')])"

fun copy_all :: "(string \<times> string) list \<Rightarrow> ('x, int) os" where
  "copy_all [] = mret 0"
| "copy_all (c # cs) = mbind (CopyFile (fst c) (snd c)) (\<lambda>r. if r < 0 then mret (- 1) else copy_all cs)"

definition with_copies :: "(string \<Rightarrow> string) \<Rightarrow> (string \<times> string) list \<Rightarrow> store \<Rightarrow> store" where
  "with_copies src cs st = fold (\<lambda>c. put_node (pcomps (snd c)) (File (copied (src (fst c))))) cs st"

lemma copy_all_run:
  assumes "permissive w" "\<And>c d. c \<in> set cs \<Longrightarrow> d \<in> set cs \<Longrightarrow> pcomps (fst c) \<noteq> pcomps (snd d)"
    and "\<And>c. c \<in> set cs \<Longrightarrow> node_at (fs w) (pcomps (fst c)) = Some (File (src (fst c))) \<and> room (fs w) (pcomps (snd c))"
  shows "copy_all cs w = (Ret 0, w\<lparr>fs := with_copies src cs (fs w)\<rparr>)"
  using assms
proof (induction cs arbitrary: w)
  case (Cons c cs)
  have c: "node_at (fs w) (pcomps (fst c)) = Some (File (src (fst c)))" "room (fs w) (pcomps (snd c))"
    "pcomps (fst c) \<noteq> pcomps (snd c)" "pcomps (snd c) \<noteq> []"
    using Cons.prems(3) [of c] Cons.prems(2) [of c c] by (simp_all add: room_def)
  let ?w = "w\<lparr>fs := put_node (pcomps (snd c)) (File (copied (src (fst c)))) (fs w)\<rparr>"
  have "copy_all cs ?w = (Ret 0, ?w\<lparr>fs := with_copies src cs (fs ?w)\<rparr>)"
  proof (rule Cons.IH)
    show "pcomps (fst a) \<noteq> pcomps (snd d)" if "a \<in> set cs" "d \<in> set cs" for a d using Cons.prems(2) that by simp
    show "node_at (fs ?w) (pcomps (fst d)) = Some (File (src (fst d))) \<and> room (fs ?w) (pcomps (snd d))"
      if "d \<in> set cs" for d
      using that Cons.prems(2) [of d c] Cons.prems(3) [of d] c(2,4) by (simp add: node_at_put room_put)
  qed (use Cons.prems(1) in \<open>simp add: permissive_def\<close>)
  with CopyFile_run [OF Cons.prems(1) c(1,2,3)] show ?case
    by (simp add: mbind_Ret with_file_def with_copies_def)
qed (simp add: mret_def with_copies_def)

lemma CopyOtherFiles_copy_all:
  assumes "length ts < 26" "l \<in> {0, 1}"
  shows "CopyOtherFiles ts l = copy_all (other_copies ts l)"
proof -
  define k :: int where "k = (if l = 0 then 1 else 0)"
  have n: "int_name l" "int_name k" using assms(2) by (auto simp: k_def int_name_def)
  have fit: "snprintf Logger.MAX_PATH_LEN f [FStr OUT_DIR, FStr ts, FInt m] = local_name (recording_root ts) m s"
    if "vformat f [FStr OUT_DIR, FStr ts, FInt m] = local_name (recording_root ts) m s" "length s \<le> 50" "int_name m"
    for f m s
    using that length_local_name [OF that(3), of "recording_root ts" s] length_root [OF assms(1)]
    by (subst snprintf_fits) (simp_all add: Logger.MAX_PATH_LEN_def)
  have src: "snprintf Logger.MAX_PATH_LEN ''%s/pcd_data/data.csv'' [FStr SOURCE_DIR] = SOURCE_DIR @ ''/pcd_data/data.csv''"
    "snprintf Logger.MAX_PATH_LEN ''%s/pcd_data/info.json'' [FStr SOURCE_DIR] = SOURCE_DIR @ ''/pcd_data/info.json''"
    "snprintf Logger.MAX_PATH_LEN ''%s/other_data/data.csv'' [FStr SOURCE_DIR] = SOURCE_DIR @ ''/other_data/data.csv''"
    "snprintf Logger.MAX_PATH_LEN ''%s/other_data/info.json'' [FStr SOURCE_DIR] = SOURCE_DIR @ ''/other_data/info.json''"
    by (subst snprintf_fits; simp add: format_simps Logger.MAX_PATH_LEN_def SOURCE_DIR_def)+
  show ?thesis
    unfolding CopyOtherFiles_def other_copies_def Let_def src
    by (fold k_def) (simp add: fit [OF logger_formats(5) _ n(1)] fit [OF logger_formats(6) _ n(1)]
      fit [OF logger_formats(7) _ n(2)] fit [OF logger_formats(6) _ n(2)] cong: if_cong)
qed


section \<open>A whole run\<close>

text \<open>A recording that does not exist yet, with a name that fits its array.\<close>

definition new_recording :: "store \<Rightarrow> string \<Rightarrow> bool" where
  "new_recording st ts \<longleftrightarrow> store_wf st \<and> name_ok ts \<and> nul_free ts \<and> length ts < 26 \<and>
     node_at st [OUT_DIR] \<in> {None, Some Dir} \<and> node_at st (pcomps (recording_root ts)) = None"

definition other_logger :: "int \<Rightarrow> int" where
  "other_logger l = (if l = 0 then 1 else 0)"

definition new_dirs :: "string \<Rightarrow> int \<Rightarrow> string list" where
  "new_dirs ts l = [local_name (recording_root ts) l ''run/mpa/tof'',
     local_name (recording_root ts) (other_logger l) ''run/mpa/vvpx4_body_wrt_local'']"

definition with_dirs :: "string \<Rightarrow> int \<Rightarrow> store \<Rightarrow> store" where
  "with_dirs ts l st = fold (\<lambda>p. ensure_dirs (pcomps p)) (new_dirs ts l) st"

lemma pcomps_new_root: "name_ok ts \<Longrightarrow> pcomps (recording_root ts) = [OUT_DIR, ts]"
  by (simp add: pcomps_root pcomps_name)

lemma new_below:
  assumes "new_recording st ts"
  shows "node_at st (OUT_DIR # ts # us) = None"
  using st.look_below_None [of st "[OUT_DIR, ts]" us] assms
  by (cases us) (auto simp: new_recording_def pcomps_new_root)

lemma new_dirs_free: "new_recording st ts \<Longrightarrow> dirs_free st (pcomps (local_name (recording_root ts) l s))"
proof -
  assume n: "new_recording st ts"
  then have p: "pcomps (recording_root ts) = [OUT_DIR, ts]" by (simp add: new_recording_def pcomps_new_root)
  have "node_at st q \<in> {None, Some Dir}" if q: "prefix q ([OUT_DIR, ts] @ r)" for q r
  proof -
    consider "q = []" | "q = [OUT_DIR]" | us where "q = OUT_DIR # ts # us" using q by (auto simp: prefix_Cons)
    then show ?thesis
      using n new_below [OF n] by cases (auto simp: node_at_def [of _ "[]"] new_recording_def)
  qed
  then show ?thesis unfolding dirs_free_def pcomps_local p by blast
qed

text \<open>The two directories and the four other files as paths.\<close>

definition logger_dir :: "string \<Rightarrow> int \<Rightarrow> path" where
  "logger_dir ts l = [OUT_DIR, ts, ''voxl-logger'', ''log'' @ fmt_04d l]"

definition tof_dir :: "string \<Rightarrow> int \<Rightarrow> path" where
  "tof_dir ts l = logger_dir ts l @ [''run'', ''mpa'', ''tof'']"

definition vv_dir :: "string \<Rightarrow> int \<Rightarrow> path" where
  "vv_dir ts l = logger_dir ts (other_logger l) @ [''run'', ''mpa'', ''vvpx4_body_wrt_local'']"

lemmas logger_path_defs = logger_dir_def tof_dir_def vv_dir_def

lemma rec_paths:
  assumes "name_ok ts"
  shows "pcomps ` set (new_dirs ts l) = {tof_dir ts l, vv_dir ts l}"
    and "pcomps (target_cloud ts l i) = tof_dir ts l @ [''data_'' @ fmt_d (int i) @ ''.pcd'']"
    and "map (\<lambda>c. pcomps (snd c)) (other_copies ts l) = [tof_dir ts l @ [''data.csv''], logger_dir ts l @ [''info.json''],
      vv_dir ts l @ [''data.csv''], logger_dir ts (other_logger l) @ [''info.json'']]"
proof -
  have c: "pcomps ''run/mpa/tof'' = [''run'', ''mpa'', ''tof'']" "pcomps ''info.json'' = [''info.json'']"
    "pcomps ''run/mpa/vvpx4_body_wrt_local'' = [''run'', ''mpa'', ''vvpx4_body_wrt_local'']"
    "pcomps ''run/mpa/tof/data.csv'' = [''run'', ''mpa'', ''tof'', ''data.csv'']"
    "pcomps ''run/mpa/vvpx4_body_wrt_local/data.csv'' = [''run'', ''mpa'', ''vvpx4_body_wrt_local'', ''data.csv'']"
    by (simp_all add: pcomps_def)
  note p = pcomps_local pcomps_new_root [OF assms] c logger_path_defs
  show "pcomps ` set (new_dirs ts l) = {tof_dir ts l, vv_dir ts l}" by (simp add: new_dirs_def p)
  show "pcomps (target_cloud ts l i) = tof_dir ts l @ [''data_'' @ fmt_d (int i) @ ''.pcd'']"
    by (simp add: target_cloud_def pcomps_cloud_text p)
  show "map (\<lambda>c. pcomps (snd c)) (other_copies ts l) = [tof_dir ts l @ [''data.csv''], logger_dir ts l @ [''info.json''],
      vv_dir ts l @ [''data.csv''], logger_dir ts (other_logger l) @ [''info.json'']]"
    by (simp add: other_copies_def Let_def other_logger_def p)
qed

lemma node_at_with_dirs:
  assumes "name_ok ts"
  shows "node_at (with_dirs ts l st) q =
    (if (prefix q (tof_dir ts l) \<or> prefix q (vv_dir ts l)) \<and> node_at st q = None then Some Dir else node_at st q)"
proof -
  have "(\<exists>p \<in> set (new_dirs ts l). prefix q (pcomps p)) \<longleftrightarrow> (\<exists>p \<in> pcomps ` set (new_dirs ts l). prefix q p)" by simp
  then show ?thesis unfolding with_dirs_def node_at_recording by (simp add: rec_paths(1) [OF assms])
qed

lemma with_dirs_outside:
  "name_ok ts \<Longrightarrow> \<not> prefix [OUT_DIR, ts] q \<Longrightarrow> q \<noteq> [OUT_DIR] \<Longrightarrow> node_at (with_dirs ts l st) q = node_at st q"
  by (auto simp: node_at_with_dirs logger_path_defs prefix_Cons node_at_def [of _ "[]"])

text \<open>There is room for every file of the recording.\<close>

lemma room_with_dirs:
  assumes n: "new_recording st ts" and p: "p = OUT_DIR # ts # us @ [f]" "\<not> prefix p (tof_dir ts l)" "\<not> prefix p (vv_dir ts l)"
    and d: "prefix (OUT_DIR # ts # us) (tof_dir ts l) \<or> prefix (OUT_DIR # ts # us) (vv_dir ts l)"
  shows "room (with_dirs ts l st) p"
proof -
  have ts: "name_ok ts" using n by (simp add: new_recording_def)
  have b: "butlast p = OUT_DIR # ts # us" by (simp add: p(1) butlast_append)
  show ?thesis
    unfolding room_def node_at_with_dirs [OF ts] b
    using new_below [OF n, of us] new_below [OF n, of "us @ [f]"] p d by simp
qed

lemma target_room: "new_recording st ts \<Longrightarrow> room (with_dirs ts l st) (pcomps (target_cloud ts l i))"
proof -
  assume n: "new_recording st ts"
  then have ts: "name_ok ts" by (simp add: new_recording_def)
  show ?thesis
    by (rule room_with_dirs [OF n, where us = "drop 2 (tof_dir ts l)" and f = "''data_'' @ fmt_d (int i) @ ''.pcd''"])
      (simp_all add: rec_paths(2) [OF ts] logger_path_defs)
qed

lemma other_rooms: "new_recording st ts \<Longrightarrow> c \<in> set (other_copies ts l) \<Longrightarrow> room (with_dirs ts l st) (pcomps (snd c))"
proof -
  assume n: "new_recording st ts" and c: "c \<in> set (other_copies ts l)"
  then have ts: "name_ok ts" by (simp add: new_recording_def)
  have "pcomps (snd c) \<in> set (map (\<lambda>c. pcomps (snd c)) (other_copies ts l))" using c by auto
  then consider "pcomps (snd c) = tof_dir ts l @ [''data.csv'']" | "pcomps (snd c) = logger_dir ts l @ [''info.json'']"
    | "pcomps (snd c) = vv_dir ts l @ [''data.csv'']" | "pcomps (snd c) = logger_dir ts (other_logger l) @ [''info.json'']"
    unfolding rec_paths(3) [OF ts] by auto
  then show ?thesis
  proof cases
    case 1
    then show ?thesis by (intro room_with_dirs [OF n, where us = "drop 2 (tof_dir ts l)"]) (simp_all add: logger_path_defs)
  next
    case 2
    then show ?thesis by (intro room_with_dirs [OF n, where us = "drop 2 (logger_dir ts l)"]) (simp_all add: logger_path_defs)
  next
    case 3
    then show ?thesis by (intro room_with_dirs [OF n, where us = "drop 2 (vv_dir ts l)"]) (simp_all add: logger_path_defs)
  next
    case 4
    then show ?thesis
      by (intro room_with_dirs [OF n, where us = "drop 2 (logger_dir ts (other_logger l))"]) (simp_all add: logger_path_defs)
  qed
qed


lemma other_sources: "c \<in> set (other_copies ts l) \<Longrightarrow> \<exists>p. pcomps (fst c) = SOURCE_DIR # p"
  by (auto simp: other_copies_def Let_def pcomps_def SOURCE_DIR_def)

lemma source_outside: "\<not> prefix [OUT_DIR, ts] (SOURCE_DIR # p)" "SOURCE_DIR # p \<noteq> [OUT_DIR]"
  using out_not_source by auto

lemma source_kept:
  assumes "name_ok ts"
  shows "node_at (with_dirs ts l st) (SOURCE_DIR # p) = node_at st (SOURCE_DIR # p)"
    and "node_at (with_clouds ts l src is st) (SOURCE_DIR # p) = node_at st (SOURCE_DIR # p)"
proof -
  show "node_at (with_dirs ts l st) (SOURCE_DIR # p) = node_at st (SOURCE_DIR # p)"
    by (rule with_dirs_outside [OF assms source_outside])
  show "node_at (with_clouds ts l src is st) (SOURCE_DIR # p) = node_at st (SOURCE_DIR # p)"
    by (rule with_clouds_other) (auto simp: source_not_target)
qed

lemma Logger_MakePath_run:
  assumes "nul_free p" "length p < 511" "permissive w" "dirs_free (fs w) (pcomps p)"
  shows "\<exists>e. Logger.MakePath p w = (Ret 0, w\<lparr>fs := ensure_dirs (pcomps p) (fs w), errno_val := e\<rparr>)"
  using make_path_loop_run [of w "[]" "fs w" p Logger.MAX_PATH_LEN] assms
  by (simp add: Logger.MakePath_def dir_text_def Logger.MAX_PATH_LEN_def permissive_denied dirs_free_def)

lemma make_dirs_run:
  assumes n: "new_recording (fs w) ts" and w: "permissive w" and l: "l \<in> {0, 1}"
  shows "\<exists>e1 e2. Logger.MakePath (snprintf Logger.MAX_PATH_LEN ''%s/%s/voxl-logger/log%04d/run/mpa/tof''
        [FStr OUT_DIR, FStr ts, FInt l]) w =
      (Ret 0, w\<lparr>fs := ensure_dirs (pcomps (hd (new_dirs ts l))) (fs w), errno_val := e1\<rparr>) \<and>
    Logger.MakePath (snprintf Logger.MAX_PATH_LEN ''%s/%s/voxl-logger/log%04d/run/mpa/vvpx4_body_wrt_local''
        [FStr OUT_DIR, FStr ts, FInt (other_logger l)])
        (w\<lparr>fs := ensure_dirs (pcomps (hd (new_dirs ts l))) (fs w), errno_val := e1\<rparr>) =
      (Ret 0, w\<lparr>fs := with_dirs ts l (fs w), errno_val := e2\<rparr>)"
proof -
  have k: "int_name l" "int_name (other_logger l)" using l by (auto simp: other_logger_def int_name_def)
  have root: "nul_free (recording_root ts)" "length (recording_root ts) < 41"
    using n length_root [of ts] by (auto simp: new_recording_def recording_root_def OUT_DIR_def nul_free_def NUL_def)
  have fit: "snprintf Logger.MAX_PATH_LEN f [FStr OUT_DIR, FStr ts, FInt m] = local_name (recording_root ts) m s \<and>
      length (local_name (recording_root ts) m s) < 511 \<and> nul_free (local_name (recording_root ts) m s)"
    if "vformat f [FStr OUT_DIR, FStr ts, FInt m] = local_name (recording_root ts) m s" "length s \<le> 50" "nul_free s" "int_name m"
    for f m s
    using that length_local_name [OF that(4), of "recording_root ts" s] root nul_free_local_name [OF root(1) that(3)]
    by (subst snprintf_fits) (simp_all add: Logger.MAX_PATH_LEN_def)
  have nf: "nul_free ''run/mpa/tof''" "nul_free ''run/mpa/vvpx4_body_wrt_local''" by (simp_all add: nul_free_def NUL_def)
  let ?p = "local_name (recording_root ts) l ''run/mpa/tof''"
    and ?q = "local_name (recording_root ts) (other_logger l) ''run/mpa/vvpx4_body_wrt_local''"
  have p: "snprintf Logger.MAX_PATH_LEN ''%s/%s/voxl-logger/log%04d/run/mpa/tof'' [FStr OUT_DIR, FStr ts, FInt l] = ?p"
      "length ?p < 511" "nul_free ?p"
    using fit [OF logger_formats(3) _ nf(1) k(1)] by simp_all
  have q: "snprintf Logger.MAX_PATH_LEN ''%s/%s/voxl-logger/log%04d/run/mpa/vvpx4_body_wrt_local''
      [FStr OUT_DIR, FStr ts, FInt (other_logger l)] = ?q" "length ?q < 511" "nul_free ?q"
    using fit [OF logger_formats(4) _ nf(2) k(2)] by simp_all
  obtain e1 where r1: "Logger.MakePath ?p w = (Ret 0, w\<lparr>fs := ensure_dirs (pcomps ?p) (fs w), errno_val := e1\<rparr>)"
    using Logger_MakePath_run [OF p(3,2) w new_dirs_free [OF n]] by blast
  let ?w = "w\<lparr>fs := ensure_dirs (pcomps ?p) (fs w), errno_val := e1\<rparr>"
  have w1: "permissive ?w" "dirs_free (fs ?w) (pcomps ?q)" using w new_dirs_free [OF n] by (simp_all add: dirs_free_ensure)
  obtain e2 where r2: "Logger.MakePath ?q ?w = (Ret 0, ?w\<lparr>fs := ensure_dirs (pcomps ?q) (fs ?w), errno_val := e2\<rparr>)"
    using Logger_MakePath_run [OF q(3,2) w1] by blast
  from r1 r2 show ?thesis
    unfolding p(1) q(1) new_dirs_def list.sel with_dirs_def by (intro exI [of _ e1] exI [of _ e2]) simp
qed

definition recorded :: "string \<Rightarrow> int \<Rightarrow> (nat \<Rightarrow> string) \<Rightarrow> nat \<Rightarrow> (string \<Rightarrow> string) \<Rightarrow> store \<Rightarrow> store" where
  "recorded ts l src n osrc st =
     with_copies osrc (other_copies ts l) (with_clouds ts l src [0..<n] (with_dirs ts l st))"

lemma logger_main_run:
  assumes w: "running w \<noteq> 0" "signals w = replicate k False @ True # ss" "permissive w"
    and n: "new_recording (fs w) ts" and src: "sources (fs w) src m"
    and osrc: "\<And>c. c \<in> set (other_copies ts l) \<Longrightarrow> node_at (fs w) (pcomps (fst c)) = Some (File (osrc (fst c)))"
    and l: "l = (if 50 < rand_val w mod 100 then 1 else 0)"
  shows "\<exists>w'. logger_main (Suc k) [prg, ''-d'', ts] w = (Ret 0, w') \<and> fs w' = recorded ts l src (min m k) osrc (fs w) \<and>
    out w' = out w @ ln ''Finished'' @ nl # ln (''CLOSING, written '' @ fmt_d (int (min m k)) @ '' files'')"
proof -
  have ts: "name_ok ts" "nul_free ts" "length ts < 26" using n by (simp_all add: new_recording_def)
  have l01: "l \<in> {0, 1}" "int_name l" using l by (simp_all add: int_name_def)
  have opts: "getopt_scan [''-d'', ts] = ([Opt_d ts], 2)" by (subst getopt_scan.simps) (simp add: getopt_scan.simps)
  obtain e1 e2 where dirs: "Logger.MakePath (snprintf Logger.MAX_PATH_LEN ''%s/%s/voxl-logger/log%04d/run/mpa/tof''
        [FStr OUT_DIR, FStr ts, FInt l]) w =
      (Ret 0, w\<lparr>fs := ensure_dirs (pcomps (hd (new_dirs ts l))) (fs w), errno_val := e1\<rparr>)"
      "Logger.MakePath (snprintf Logger.MAX_PATH_LEN ''%s/%s/voxl-logger/log%04d/run/mpa/vvpx4_body_wrt_local''
        [FStr OUT_DIR, FStr ts, FInt (other_logger l)])
        (w\<lparr>fs := ensure_dirs (pcomps (hd (new_dirs ts l))) (fs w), errno_val := e1\<rparr>) =
      (Ret 0, w\<lparr>fs := with_dirs ts l (fs w), errno_val := e2\<rparr>)"
    using make_dirs_run [OF n w(3) l01(1)] by blast
  let ?w = "w\<lparr>fs := with_dirs ts l (fs w), errno_val := e2\<rparr>"
  have w1: "running ?w \<noteq> 0" "signals ?w = replicate k False @ True # ss" "permissive ?w" using w by simp_all
  have s1: "sources (fs ?w) src m" using src by (simp add: sources_def pcomps_source source_kept(1) [OF ts(1)])
  have t1: "targets (fs ?w) ts l m" using target_room [OF n] by (simp add: targets_def)
  obtain w2 where gen: "generate (Suc k) ts l 0 ?w = (Ret (Some (int (min m k))), w2)"
    and r: "ran_to (with_clouds ts l src [0..<min m k] (with_dirs ts l (fs w))) ss ?w w2"
    using generate_run [OF w1 ts(3) l01(2) s1 t1, of 0] by auto
  then have w2: "fs w2 = with_clouds ts l src [0..<min m k] (with_dirs ts l (fs w))" "permissive w2" "out w2 = out w"
    using w(3) by (auto simp: ran_to_def permissive_def)
  let ?v = "w2\<lparr>out := out w @ ln ''Finished''\<rparr>"
  have "copy_all (other_copies ts l) ?v = (Ret 0, ?v\<lparr>fs := with_copies osrc (other_copies ts l) (fs ?v)\<rparr>)"
  proof (rule copy_all_run)
    show "permissive ?v" using w2(2) by (simp add: permissive_def)
    show "pcomps (fst c) \<noteq> pcomps (snd d)" if c: "c \<in> set (other_copies ts l)" and d: "d \<in> set (other_copies ts l)" for c d
    proof -
      obtain p where "pcomps (fst c) = SOURCE_DIR # p" using other_sources [OF c] by blast
      moreover obtain i s where "snd d = local_name (recording_root ts) i s"
        using d by (auto simp: other_copies_def Let_def)
      ultimately show ?thesis by (simp add: source_not_local)
    qed
    show "node_at (fs ?v) (pcomps (fst c)) = Some (File (osrc (fst c))) \<and> room (fs ?v) (pcomps (snd c))"
      if c: "c \<in> set (other_copies ts l)" for c
    proof -
      obtain p where p: "pcomps (fst c) = SOURCE_DIR # p" using other_sources [OF c] by blast
      have "room (with_clouds ts l src [0..<min m k] (with_dirs ts l (fs w))) (pcomps (snd c))"
        unfolding with_clouds_def by (rule room_put_files) (simp_all add: target_room [OF n] other_rooms [OF n c])
      with osrc [OF c] show ?thesis by (simp add: w2(1) p source_kept [OF ts(1)])
    qed
  qed
  then have copies: "CopyOtherFiles ts l ?v = (Ret 0, ?v\<lparr>fs := recorded ts l src (min m k) osrc (fs w)\<rparr>)"
    by (simp add: CopyOtherFiles_copy_all [OF ts(3) l01(1)] recorded_def w2(1))
  have arr: "cstr_of (store_at (snprintf Logger.TIMESTAMP_LEN ''%s'' [FStr ts] @ [NUL]) a) = Some ts" for a
    using ts(2,3) cstr_of_terminated [OF ts(2)]
    by (subst snprintf_fits) (simp_all add: format_simps Logger.TIMESTAMP_LEN_def store_at_def)
  have say: "os_print (ln ''Finished'') [] w2 = (Ret (), ?v)" using w2(3) by (simp add: os_print_def mmod_def format_simps ln_def nl_def)
  have bye: "os_print (nl # ln ''CLOSING, written %d files'') [FInt c] v =
      (Ret (), v\<lparr>out := out v @ nl # ln (''CLOSING, written '' @ fmt_d c @ '' files'')\<rparr>)" for c and v :: "'a logger_world_scheme"
    by (simp add: os_print_def mmod_def format_simps ln_def nl_def)
  have n_l: "(if rand_val w mod 100 > 50 then 1 else 0 :: int) = l" "(if rand_val w mod 100 > 50 then 0 else 1 :: int) = other_logger l"
    using l by (simp_all add: other_logger_def)
  have "logger_main (Suc k) [prg, ''-d'', ts] w =
      (Ret 0, ?v\<lparr>fs := recorded ts l src (min m k) osrc (fs w),
        out := out w @ ln ''Finished'' @ nl # ln (''CLOSING, written '' @ fmt_d (int (min m k)) @ '' files'')\<rparr>)"
    by (simp add: logger_main_def opts mbind_mget mbind_Ret mret_run Let_def read_cstr_run arr n_l dirs gen say copies
      mseq_run bye del: generate.simps)
  then show ?thesis by auto
qed


text \<open>What the store of a run holds.\<close>

lemma other_targets:
  assumes "name_ok ts" "l \<in> {0, 1}"
  shows "inj_on (\<lambda>c. pcomps (snd c)) (set (other_copies ts l))"
    and "c \<in> set (other_copies ts l) \<Longrightarrow> pcomps (snd c) \<noteq> pcomps (target_cloud ts l i)"
    and "c \<in> set (other_copies ts l) \<Longrightarrow> prefix [OUT_DIR, ts] (pcomps (snd c))"
proof -
  have lk: "fmt_04d l \<noteq> fmt_04d (other_logger l)"
  proof -
    have "fmt_04d 0 = ''0000''" "fmt_04d 1 = ''0001''"
      by (simp_all add: fmt_04d_def Let_def digs_small digit_char_table numeral_eq_Suc)
    then show ?thesis using assms(2) by (auto simp: other_logger_def)
  qed
  have "distinct (map (\<lambda>c. pcomps (snd c)) (other_copies ts l))"
    using lk by (simp add: rec_paths(3) [OF assms(1)] logger_path_defs)
  then show "inj_on (\<lambda>c. pcomps (snd c)) (set (other_copies ts l))" by (simp only: distinct_map)
  have each: "pcomps (snd c) \<in> set (map (\<lambda>c. pcomps (snd c)) (other_copies ts l))" if "c \<in> set (other_copies ts l)"
    using that by auto
  show "pcomps (snd c) \<noteq> pcomps (target_cloud ts l i)" if "c \<in> set (other_copies ts l)"
    using each [OF that] lk unfolding rec_paths(2,3) [OF assms(1)] by (auto simp: logger_path_defs)
  show "prefix [OUT_DIR, ts] (pcomps (snd c))" if "c \<in> set (other_copies ts l)"
    using each [OF that] unfolding rec_paths(3) [OF assms(1)] by (auto simp: logger_path_defs)
qed

lemma recorded_nodes:
  assumes n: "new_recording st ts" and l: "l \<in> {0, 1}"
  shows "i < k \<Longrightarrow> node_at (recorded ts l src k osrc st) (pcomps (target_cloud ts l i)) = Some (File (copied (src i)))"
    and "k \<le> i \<Longrightarrow> node_at (recorded ts l src k osrc st) (pcomps (target_cloud ts l i)) = None"
    and "c \<in> set (other_copies ts l) \<Longrightarrow>
      node_at (recorded ts l src k osrc st) (pcomps (snd c)) = Some (File (copied (osrc (fst c))))"
    and "\<not> prefix [OUT_DIR, ts] q \<Longrightarrow> q \<noteq> [OUT_DIR] \<Longrightarrow> node_at (recorded ts l src k osrc st) q = node_at st q"
proof -
  have ts: "name_ok ts" using n by (simp add: new_recording_def)
  note o = other_targets [OF ts l]
  have ne: "pcomps (snd c) \<noteq> []" if "c \<in> set (other_copies ts l)" for c
    using o(3) [OF that] by auto
  have q: "node_at (recorded ts l src k osrc st) q = node_at (with_clouds ts l src [0..<k] (with_dirs ts l st)) q"
    if "q \<notin> (\<lambda>c. pcomps (snd c)) ` set (other_copies ts l)" for q
    unfolding recorded_def with_copies_def by (rule node_at_put_files(2) [OF ne that])
  have tq: "pcomps (target_cloud ts l i) \<notin> (\<lambda>c. pcomps (snd c)) ` set (other_copies ts l)" for i
    using o(2) by (metis imageE)
  show "i < k \<Longrightarrow> node_at (recorded ts l src k osrc st) (pcomps (target_cloud ts l i)) = Some (File (copied (src i)))"
    unfolding q [OF tq] by (rule with_clouds_at) simp
  have "node_at (with_dirs ts l st) (pcomps (target_cloud ts l i)) = None"
    using new_below [OF n, of "drop 2 (pcomps (target_cloud ts l i))"]
    by (simp add: node_at_with_dirs [OF ts] rec_paths(2) [OF ts] logger_path_defs)
  then show "k \<le> i \<Longrightarrow> node_at (recorded ts l src k osrc st) (pcomps (target_cloud ts l i)) = None"
    unfolding q [OF tq] by (subst with_clouds_other) (auto simp: target_inj)
  show "c \<in> set (other_copies ts l) \<Longrightarrow>
      node_at (recorded ts l src k osrc st) (pcomps (snd c)) = Some (File (copied (osrc (fst c))))"
    unfolding recorded_def with_copies_def by (rule node_at_put_files(1) [OF ne o(1)])
  assume a: "\<not> prefix [OUT_DIR, ts] q" "q \<noteq> [OUT_DIR]"
  then have "q \<notin> (\<lambda>c. pcomps (snd c)) ` set (other_copies ts l)" using o(3) by blast
  moreover have "q \<notin> (\<lambda>i. pcomps (target_cloud ts l i)) ` set [0..<k]"
    using a by (auto simp: rec_paths(2) [OF ts] logger_path_defs)
  ultimately show "node_at (recorded ts l src k osrc st) q = node_at st q"
    using with_dirs_outside [OF ts a] by (simp add: q with_clouds_other)
qed

section \<open>A small world\<close>

definition logger_store :: store where
  "logger_store =
     [([''reference_data''], Dir), ([''reference_data'', ''pcd_data''], Dir), ([''reference_data'', ''other_data''], Dir),
      ([''reference_data'', ''pcd_data'', ''data_0.pcd''], File ''ab''),
      ([''reference_data'', ''pcd_data'', ''data_1.pcd''], File [CHR ''c'', NUL, CHR ''d'', nl, CHR ''e'']),
      ([''reference_data'', ''pcd_data'', ''data.csv''], File ''k''), ([''reference_data'', ''pcd_data'', ''info.json''], File ''k''),
      ([''reference_data'', ''other_data'', ''data.csv''], File ''k''),
      ([''reference_data'', ''other_data'', ''info.json''], File ''k''), ([''generated_data''], Dir)]"

definition small_logger :: logger_world where
  "small_logger = world.extend (plain_world\<lparr>fs := logger_store\<rparr>)
     (logger_world.fields 1 [False, False, False, True] 60)"

lemma small_logger_fields [simp]:
  "fs small_logger = logger_store" "running small_logger = 1" "signals small_logger = [False, False, False, True]"
  "rand_val small_logger = 60" "permissive small_logger" "out small_logger = []" "streams small_logger = 0"
  by (simp_all add: small_logger_def world.extend_def logger_world.fields_def plain_world_def permissive_def)

lemma small_logger_ready:
  "new_recording logger_store ''20230102-083000''"
  "sources logger_store (\<lambda>i. if i = 0 then ''ab'' else [CHR ''c'', NUL, CHR ''d'', nl, CHR ''e'']) 2"
  "c \<in> set (other_copies ts l) \<Longrightarrow> node_at logger_store (pcomps (fst c)) = Some (File ''k'')"
proof -
  have "store_wf logger_store" by (simp add: store_wf_def logger_store_def node_at_def)
  moreover have "name_ok ''20230102-083000''" "nul_free ''20230102-083000''" by (simp_all add: name_ok_def nul_free_def NUL_def)
  ultimately show "new_recording logger_store ''20230102-083000''"
    by (simp add: new_recording_def pcomps_new_root) (simp add: logger_store_def node_at_def OUT_DIR_def)
  have "fmt_d 0 = ''0''" "fmt_d 1 = ''1''" "fmt_d 2 = ''2''" by (simp_all add: fmt_d_def digs_small digit_char_table)
  then show "sources logger_store (\<lambda>i. if i = 0 then ''ab'' else [CHR ''c'', NUL, CHR ''d'', nl, CHR ''e'']) 2"
    by (simp add: sources_def less_2_cases_iff pcomps_source int32_def) (auto simp: logger_store_def node_at_def SOURCE_DIR_def)
  show "c \<in> set (other_copies ts l) \<Longrightarrow> node_at logger_store (pcomps (fst c)) = Some (File ''k'')"
    by (auto simp: other_copies_def Let_def pcomps_def SOURCE_DIR_def logger_store_def node_at_def)
qed

lemma copied_zero_byte: "copied [CHR ''c'', NUL, CHR ''d'', nl, CHR ''e''] = ''ce''"
  by (simp add: copied_def nl_def NUL_def)

section \<open>The properties\<close>

text \<open>
  C7. The simulator records until it is told to stop: started with \<open>-d ts\<close> for a recording
  that does not exist, with the reference clouds \<open>0\<close> to \<open>m - 1\<close> there, it makes the
  directories, copies one cloud for each turn before the signal and at most \<open>m\<close>, then the
  four other files, and returns 0. Each copy holds what \<open>copied\<close> leaves of its source, which
  is the whole source when it has no zero byte, and nothing outside the recording changes.
\<close>

theorem logger_records_until_signal:
  assumes "running w \<noteq> 0" "signals w = replicate k False @ True # ss" "permissive w"
    and "new_recording (fs w) ts" "sources (fs w) src m"
    and "\<And>c. c \<in> set (other_copies ts l) \<Longrightarrow> node_at (fs w) (pcomps (fst c)) = Some (File (osrc (fst c)))"
    and "l = (if 50 < rand_val w mod 100 then 1 else 0)"
  shows "\<exists>w'. logger_main (Suc k) [prg, ''-d'', ts] w = (Ret 0, w') \<and>
    (\<forall>i < min m k. node_at (fs w') (pcomps (target_cloud ts l i)) = Some (File (copied (src i)))) \<and>
    (\<forall>i \<ge> min m k. node_at (fs w') (pcomps (target_cloud ts l i)) = None) \<and>
    (\<forall>c \<in> set (other_copies ts l). node_at (fs w') (pcomps (snd c)) = Some (File (copied (osrc (fst c))))) \<and>
    (\<forall>q. \<not> prefix [OUT_DIR, ts] q \<and> q \<noteq> [OUT_DIR] \<longrightarrow> node_at (fs w') q = node_at (fs w) q) \<and>
    (\<forall>s. nul_free s \<longrightarrow> copied s = s)"
proof -
  have l: "l \<in> {0, 1}" using assms(7) by simp
  obtain w' where run: "logger_main (Suc k) [prg, ''-d'', ts] w = (Ret 0, w')"
    and st: "fs w' = recorded ts l src (min m k) osrc (fs w)"
    using logger_main_run [OF assms] by blast
  show ?thesis
    using run recorded_nodes [OF assms(4) l] copied_nul_free by (intro exI [of _ w']) (simp add: st)
qed

theorem logger_records_until_signal_witness:
  "\<exists>w'. logger_main 4 [''voxl-logger'', ''-d'', ''20230102-083000''] small_logger = (Ret 0, w') \<and>
     node_at (fs w') (pcomps (target_cloud ''20230102-083000'' 1 0)) = Some (File ''ab'') \<and>
     node_at (fs w') (pcomps (target_cloud ''20230102-083000'' 1 1)) = Some (File ''ce'') \<and>
     node_at (fs w') (pcomps (target_cloud ''20230102-083000'' 1 2)) = None"
proof -
  let ?src = "\<lambda>i :: nat. if i = 0 then ''ab'' else [CHR ''c'', NUL, CHR ''d'', nl, CHR ''e'']"
  have s: "signals small_logger = replicate 3 False @ True # []" by (simp add: numeral_eq_Suc)
  obtain w' where run: "logger_main (Suc 3) [''voxl-logger'', ''-d'', ''20230102-083000''] small_logger = (Ret 0, w')"
    and t: "\<And>i. i < min 2 3 \<Longrightarrow> node_at (fs w') (pcomps (target_cloud ''20230102-083000'' 1 i)) = Some (File (copied (?src i)))"
      "\<And>i. min 2 3 \<le> i \<Longrightarrow> node_at (fs w') (pcomps (target_cloud ''20230102-083000'' 1 i)) = None"
    using logger_records_until_signal [OF _ s, of "''20230102-083000''" ?src 2 1 "\<lambda>_. ''k''" "''voxl-logger''"]
      small_logger_ready by (auto simp del: logger_main_def)
  have "copied ''ab'' = ''ab''" by (rule copied_nul_free) (simp add: nul_free_def NUL_def)
  with t(1) [of 0] t(1) [of 1] t(2) [of 2] run show ?thesis
    by (intro exI [of _ w']) (simp add: copied_zero_byte)
qed

text \<open>
  C26. The copy of a file: the target holds the bytes that \<open>copied\<close> keeps of the source, all of
  them in order, however many pieces the loop reads; the streams are closed, and no other file
  changes. The copy is the source exactly when the source has no zero byte. Otherwise bytes are
  lost: from a zero byte on, the rest of its line (or of its piece of 510 bytes).
\<close>

theorem CopyFile_exact:
  assumes "permissive w" "node_at (fs w) (pcomps i) = Some (File s)" "room (fs w) (pcomps p)" "pcomps i \<noteq> pcomps p"
  shows "\<exists>w'. CopyFile i p w = (Ret 0, w') \<and> streams w' = streams w \<and>
    (\<forall>q. node_at (fs w') q = (if q = pcomps p then Some (File (copied s)) else node_at (fs w) q)) \<and>
    (if nul_free s then copied s = s else length (copied s) < length s \<and> nul_free (copied s))"
  using CopyFile_run [OF assms] assms(3) copied_nul_free [of s] kept_loses(2) [where s = s and m = 510 and lost = False] kept_loses(3) [where s = s and m = 510 and lost = False]
  by (auto simp: with_file_def node_at_put room_def copied_def nul_free_def)

theorem CopyFile_exact_witness:
  "\<exists>w'. CopyFile ''reference_data/pcd_data/data_1.pcd'' ''generated_data/a'' small_logger = (Ret 0, w') \<and>
     node_at (fs w') [''generated_data'', ''a''] = Some (File ''ce'')"
proof -
  have p: "pcomps ''reference_data/pcd_data/data_1.pcd'' = [''reference_data'', ''pcd_data'', ''data_1.pcd'']"
    "pcomps ''generated_data/a'' = [''generated_data'', ''a'']" by (simp_all add: pcomps_def)
  have "node_at logger_store [''reference_data'', ''pcd_data'', ''data_1.pcd''] =
      Some (File [CHR ''c'', NUL, CHR ''d'', nl, CHR ''e''])" "room logger_store [''generated_data'', ''a'']"
    by (simp_all add: logger_store_def node_at_def room_def)
  then show ?thesis
    using CopyFile_exact [of small_logger "''reference_data/pcd_data/data_1.pcd''" _ "''generated_data/a''"]
    by (fastforce simp: p copied_zero_byte)
qed

text \<open>
  When the target cannot be opened \<open>CopyFile\<close> reports -2, leaves the files alone, and
  never closes the source: each such call leaves one more stream open.
\<close>

lemma CopyFile_leaks_stream:
  assumes "permissive w" "node_at (fs w) (pcomps i) = Some (File s)" "node_at (fs w) (butlast (pcomps p)) \<noteq> Some Dir"
    and "node_at (fs w) (pcomps p) \<noteq> Some Dir"
  shows "\<exists>e. CopyFile i p w = (Ret (- 2), w\<lparr>streams := streams w + 1, errno_val := e\<rparr>)"
  using assms
  by (auto simp: CopyFile_def os_fopen_read_def os_fopen_write_def mbind_def permissive_def denied_def Let_def
      fail_with_run mret_def)

end
