(* ===== verification/Site_Props.thy ===== *)
theory Site_Props
  imports Logger_Props Transfer_Props
begin

text \<open>
  The three programs together. The logger simulator and the server run on the same machine:
  the simulator writes below \<open>generated_data\<close>, which the server finds under
  \<open>../../data_generation/generated_data\<close>. What the simulator leaves there is a recording
  for the server, and the exchanges with the client bring it to the client.
\<close>

section \<open>The files of a recording\<close>

lemma target_cloud_path: "name_ok ts \<Longrightarrow> pcomps (target_cloud ts l i) = tof_dir ts l @ [data_name (int i)]"
  by (simp add: rec_paths(2) data_name_eq)

lemma recorded_other:
  assumes "name_ok ts" "l \<in> {0, 1}" "q \<notin> (\<lambda>i. tof_dir ts l @ [data_name (int i)]) ` {..<k}"
    and "q \<notin> (\<lambda>c. pcomps (snd c)) ` set (other_copies ts l)"
  shows "node_at (recorded ts l src k osrc st) q = node_at (with_dirs ts l st) q"
proof -
  have ne: "pcomps (snd c) \<noteq> []" if "c \<in> set (other_copies ts l)" for c
    using other_targets(3) [OF assms(1,2) that] by auto
  have "node_at (recorded ts l src k osrc st) q = node_at (with_clouds ts l src [0..<k] (with_dirs ts l st)) q"
    unfolding recorded_def with_copies_def by (rule node_at_put_files(2) [OF ne assms(4)])
  also have "\<dots> = node_at (with_dirs ts l st) q"
    using assms(3) by (intro with_clouds_other) (simp add: target_cloud_path [OF assms(1)] atLeast0LessThan)
  finally show ?thesis .
qed

lemma other_copy_paths:
  "name_ok ts \<Longrightarrow> (\<lambda>c. pcomps (snd c)) ` set (other_copies ts l) =
     {tof_dir ts l @ [''data.csv''], logger_dir ts l @ [''info.json''], vv_dir ts l @ [''data.csv''],
      logger_dir ts (other_logger l) @ [''info.json'']}"
proof -
  assume "name_ok ts"
  from arg_cong [where f = set, OF rec_paths(3) [OF this, of l]] show ?thesis by auto
qed

lemma loggers_differ: "l \<in> {0, 1} \<Longrightarrow> fmt_04d l \<noteq> fmt_04d (other_logger l)"
proof -
  assume l: "l \<in> {0, 1}"
  have "fmt_04d 0 = ''0000''" "fmt_04d 1 = ''0001''"
    by (simp_all add: fmt_04d_def Let_def digs_small digit_char_table numeral_eq_Suc)
  then show ?thesis using l by (auto simp: other_logger_def)
qed

lemma recorded_dirs:
  assumes n: "new_recording st ts" and l: "l \<in> {0, 1}"
  shows "node_at (recorded ts l src k osrc st) (tof_dir ts l) = Some Dir"
    and "node_at (recorded ts l src k osrc st) [OUT_DIR, ts] = Some Dir"
    and "node_at (recorded ts l src k osrc st) [OUT_DIR] = Some Dir"
    and "node_at (recorded ts l src k osrc st) (tof_dir ts (other_logger l)) = None"
    and "{c. node_at (recorded ts l src k osrc st) (tof_dir ts l @ [c]) \<noteq> None} =
      insert ''data.csv'' (data_name ` int ` {..<k})"
proof -
  have ts: "name_ok ts" using n by (simp add: new_recording_def)
  note lk = loggers_differ [OF l]
  note o = recorded_other [OF ts l, unfolded other_copy_paths [OF ts], of _ k src osrc st]
  have old: "node_at st (OUT_DIR # ts # us) = None" for us by (rule new_below [OF n])
  have root: "node_at st [OUT_DIR] \<in> {None, Some Dir}" using n by (simp add: new_recording_def)
  have d: "node_at (with_dirs ts l st) p = Some Dir" if "prefix p (tof_dir ts l)" "node_at st p \<in> {None, Some Dir}" for p
    using that by (auto simp: node_at_with_dirs [OF ts])
  have "node_at (with_dirs ts l st) (tof_dir ts l) = Some Dir"
    by (rule d) (simp_all add: logger_path_defs old)
  then show "node_at (recorded ts l src k osrc st) (tof_dir ts l) = Some Dir"
    by (subst o) (auto simp: logger_path_defs)
  have "node_at (with_dirs ts l st) [OUT_DIR, ts] = Some Dir"
    by (rule d) (simp_all add: logger_path_defs old)
  then show "node_at (recorded ts l src k osrc st) [OUT_DIR, ts] = Some Dir"
    by (subst o) (auto simp: logger_path_defs)
  have "node_at (with_dirs ts l st) [OUT_DIR] = Some Dir"
    by (rule d [OF _ root]) (simp add: logger_path_defs)
  then show "node_at (recorded ts l src k osrc st) [OUT_DIR] = Some Dir"
    by (subst o) (auto simp: logger_path_defs)
  have "node_at (with_dirs ts l st) (tof_dir ts (other_logger l)) = None"
    using lk by (simp add: node_at_with_dirs [OF ts] logger_path_defs old)
  then show "node_at (recorded ts l src k osrc st) (tof_dir ts (other_logger l)) = None"
    by (subst o) (use lk in \<open>auto simp: logger_path_defs\<close>)
  have "tof_dir ts l @ [''data.csv''] \<in> (\<lambda>c. pcomps (snd c)) ` set (other_copies ts l)"
    unfolding other_copy_paths [OF ts] by simp
  then obtain c where "c \<in> set (other_copies ts l)" "tof_dir ts l @ [''data.csv''] = pcomps (snd c)" by (rule imageE)
  then have csv: "node_at (recorded ts l src k osrc st) (tof_dir ts l @ [''data.csv'']) \<noteq> None"
    using recorded_nodes(3) [OF n l, of c src k osrc] by simp
  have cloud: "node_at (recorded ts l src k osrc st) (tof_dir ts l @ [data_name (int i)]) \<noteq> None" if "i < k" for i
    using recorded_nodes(1) [OF n l that, of src osrc] by (simp add: target_cloud_path [OF ts])
  have none: "node_at (recorded ts l src k osrc st) (tof_dir ts l @ [c]) = None"
    if "c \<notin> insert ''data.csv'' (data_name ` int ` {..<k})" for c
  proof -
    have "node_at (with_dirs ts l st) (tof_dir ts l @ [c]) = None"
      using lk by (simp add: node_at_with_dirs [OF ts] logger_path_defs old)
    then show ?thesis by (subst o) (use that lk in \<open>auto simp: logger_path_defs\<close>)
  qed
  have "node_at (recorded ts l src k osrc st) (tof_dir ts l @ [c]) \<noteq> None \<longleftrightarrow>
      c \<in> insert ''data.csv'' (data_name ` int ` {..<k})" for c
  proof (cases "c \<in> insert ''data.csv'' (data_name ` int ` {..<k})")
    case True
    then consider "c = ''data.csv''" | i where "c = data_name (int i)" "i < k" by blast
    then show ?thesis
    proof cases
      case 1
      with csv True show ?thesis by simp
    next
      case 2
      with cloud True show ?thesis by simp
    qed
  next
    case False
    with none show ?thesis by simp
  qed
  then show "{c. node_at (recorded ts l src k osrc st) (tof_dir ts l @ [c]) \<noteq> None} =
      insert ''data.csv'' (data_name ` int ` {..<k})" by (intro set_eqI) simp
qed

section \<open>The server finds the recording\<close>

text \<open>\<open>w\<close> sees, below its data directory, what the store \<open>st\<close> of the logger holds below its own.\<close>

definition shares :: "store \<Rightarrow> 'x world_scheme \<Rightarrow> bool" where
  "shares st w \<longleftrightarrow> fs_ok w \<and>
     (\<forall>q. node_at (fs w) (pcomps Server_Cmds.DATA_DIR @ q) = node_at st (OUT_DIR # q))"

lemma shares_tof: "shares st w \<Longrightarrow> node_at (fs w) (tof_path Server_Cmds.DATA_DIR ts l @ u) = node_at st (tof_dir ts l @ u)"
  by (simp add: shares_def tof_path_def logger_path_defs)

lemma names_of_image: "set xs \<subseteq> f ` A \<Longrightarrow> \<exists>ns. xs = map f ns \<and> set ns \<subseteq> A"
proof (induction xs)
  case (Cons x xs)
  then obtain a ns where "x = f a" "a \<in> A" "xs = map f ns" "set ns \<subseteq> A" by auto
  then show ?case by (intro exI [of _ "a # ns"]) simp
qed simp

lemma distinct_singleton: "distinct xs \<Longrightarrow> set xs = {a} \<Longrightarrow> xs = [a]"
  by (cases xs) (auto simp: subset_singleton_iff)

lemma recording_seen:
  assumes n: "new_recording st t" and l: "l \<in> {0, 1}" and sh: "shares (recorded t l src k osrc st) w"
    and w: "permissive w" and t: "t = strftime_ts d" "printable_tm d"
    and only: "\<And>c. node_at st [OUT_DIR, c] = None" and k: "int32 (int k)"
  shows "\<exists>ns. recordings w Server_Cmds.DATA_DIR [d] l ns \<and> distinct ns \<and> set ns = int ` {..<k}"
proof -
  let ?R = "recorded t l src k osrc st" and ?D = "pcomps Server_Cmds.DATA_DIR"
  have ts: "name_ok t" using n by (simp add: new_recording_def)
  note r = recorded_dirs [OF n l, of src k osrc]
  have wf: "store_wf (fs w)" using sh by (simp add: shares_def fs_ok_def)
  have D: "node_at (fs w) (?D @ q) = node_at ?R (OUT_DIR # q)" for q using sh by (simp add: shares_def)
  have top: "node_at ?R [OUT_DIR, c] \<noteq> None \<longleftrightarrow> c = t" for c
  proof (cases "c = t")
    case False
    then have "node_at ?R [OUT_DIR, c] = node_at st [OUT_DIR, c]" by (intro recorded_nodes(4) [OF n l]) auto
    with only False show ?thesis by simp
  qed (simp add: r(2))
  have "set (children (fs w) ?D) = {t}"
    unfolding st.kids_set [OF wf] D append_Cons append_Nil using top by blast
  then have dirs: "children (fs w) ?D = [t]" by (rule distinct_singleton [OF st.kids_distinct [OF wf]])
  let ?names = "children (fs w) (tof_path Server_Cmds.DATA_DIR t l)"
  have names: "set ?names = insert ''data.csv'' (data_name ` int ` {..<k})"
    unfolding st.kids_set [OF wf] shares_tof [OF sh] by (rule r(5))
  then have "set (filter file_entry ?names) = data_name ` int ` {..<k}" by (auto simp: file_entry_csv)
  moreover from this obtain ns where ns: "filter file_entry ?names = map data_name ns" "set ns \<subseteq> int ` {..<k}"
    using names_of_image [of "filter file_entry ?names" data_name "int ` {..<k}"] by auto
  ultimately have "data_name ` set ns = data_name ` int ` {..<k}" by simp
  moreover have "inj data_name" by (rule injI) (simp add: data_name_inj)
  ultimately have set: "set ns = int ` {..<k}" by (simp only: inj_image_eq_iff)
  have "distinct (map data_name ns)"
    using st.kids_distinct [OF wf, of "tof_path Server_Cmds.DATA_DIR t l"] unfolding ns(1) [symmetric] by simp
  then have dist: "distinct ns" by (simp add: distinct_map)
  have "recordings w Server_Cmds.DATA_DIR [d] l ns"
    unfolding recordings_def Let_def can_list_def
  proof (intro conjI)
    show "node_at (fs w) ?D = Some Dir" using D [of "[]"] r(3) by simp
    show "filter dir_entry (children (fs w) ?D) = map strftime_ts [d]"
      using dir_entry_strftime [OF t(2)] by (simp add: dirs t(1))
    show "mktime_mono w [d]" by (simp add: mktime_mono_def)
    show "list_all int32 ns" using k set by (auto simp: list_all_iff int32_def)
    have tof: "pcomps (tof_name Server_Cmds.DATA_DIR (strftime_ts (Min (set [d]))) m) = tof_path Server_Cmds.DATA_DIR t m" for m
      using pcomps_tof [OF ts] by (simp add: t(1))
    show "node_at (fs w) (pcomps (tof_name Server_Cmds.DATA_DIR (strftime_ts (Min (set [d]))) l)) = Some Dir"
      using shares_tof [OF sh, of t l "[]"] r(1) unfolding tof by simp
    show "filter file_entry (children (fs w) (pcomps (tof_name Server_Cmds.DATA_DIR (strftime_ts (Min (set [d]))) l))) =
        map data_name ns"
      unfolding tof by (rule ns(1))
    have "l = 1 \<Longrightarrow> other_logger l = 0" by (simp add: other_logger_def)
    then show "l = 0 \<or> l = 1 \<and> \<not> (node_at (fs w) (pcomps (tof_name Server_Cmds.DATA_DIR (strftime_ts (Min (set [d]))) 0)) =
        Some Dir \<and> \<not> denied ''opendir'' (pcomps (tof_name Server_Cmds.DATA_DIR (strftime_ts (Min (set [d]))) 0)) w)"
      using shares_tof [OF sh, of t 0 "[]"] r(4) l unfolding tof by auto
  qed (use w t server_length in \<open>simp_all add: permissive_denied\<close>)
  with dist set show ?thesis by blast
qed

section \<open>From the logger to the client\<close>

text \<open>The memory of the server is enough for a file of content \<open>s\<close>.\<close>

definition fits :: "zlib \<Rightarrow> 'x world_scheme \<Rightarrow> string \<Rightarrow> bool" where
  "fits z w s \<longleftrightarrow> int (length s) \<le> malloc_max w \<and> int (z_bound z (length s)) \<le> malloc_max w"

text \<open>
  A server without a running logger and a client at the start of a round, which has no copy of
  the recording \<open>t\<close>.
\<close>

definition site_ready ::
  "zlib \<Rightarrow> int \<Rightarrow> int \<Rightarrow> string \<Rightarrow> 'x world_scheme \<Rightarrow> tt_vars \<Rightarrow> 'y client_world_scheme \<Rightarrow> bool" where
  "site_ready z csk sk t sw v cw \<longleftrightarrow>
     permissive sw \<and> proc_lines sw LOGGER_NAME [] \<and> no_stale_error sw \<and> tx_clean csk sw \<and> zlib_ok z \<and> malloc_max sw < 2 ^ 31 \<and>
     client_ready sk v cw \<and> pending sk (tt_b v) cw = [] \<and> malloc_max sw \<le> malloc_max cw \<and> store_wf (fs cw) \<and>
     node_at (fs cw) [Client_Lib.DATA_DIR] \<in> {None, Some Dir} \<and>
     node_at (fs cw) (pcomps (active_name t)) = None \<and> node_at (fs cw) (pcomps (final_name t)) = None"

lemma storable_new:
  assumes "store_wf st" "node_at st [Client_Lib.DATA_DIR] \<in> {None, Some Dir}" "node_at st (pcomps (active_name t)) = None"
  shows "storable st t l i"
  using assms st.look_below_None [OF assms(1), of "pcomps (active_name t)" "drop (length (pcomps (active_name t))) (pcomps (cloud_text (active_name t) l i))"]
  by (simp add: storable_def pcomps_cloud_text pcomps_local)

lemma shares_readable:
  assumes "shares st w" "permissive w" "fits z w s" "node_at st (OUT_DIR # q) = Some (File s)"
    and "pcomps p = pcomps Server_Cmds.DATA_DIR @ q"
  shows "readable z w p s"
  using assms by (simp add: readable_def shares_def fits_def permissive_denied)

lemma other_copies_remaining:
  "map snd (other_copies t l) = map (\<lambda>rel. OUT_DIR @ ''/'' @ rel) (remaining_names t l)"
  by (simp add: other_copies_def remaining_names_def Let_def local_name_def recording_root_def)

lemma remaining_source:
  assumes "(p, rel) \<in> set (zip (map fst (other_copies t l)) (remaining_names t l))"
  shows "(p, OUT_DIR @ ''/'' @ rel) \<in> set (other_copies t l)"
proof -
  have "(p, OUT_DIR @ ''/'' @ rel) \<in> set (zip (map fst (other_copies t l)) (map (\<lambda>rel. OUT_DIR @ ''/'' @ rel) (remaining_names t l)))"
    using assms by (force simp: zip_map2)
  then show ?thesis by (simp only: zip_map_fst_snd flip: other_copies_remaining)
qed

lemma pcomps_out: "pcomps (OUT_DIR @ ''/'' @ rel) = OUT_DIR # pcomps rel"
proof -
  have "pcomps OUT_DIR = [OUT_DIR]" by (simp add: pcomps_def OUT_DIR_def)
  then show ?thesis using pcomps_append [of OUT_DIR rel] by simp
qed

lemma transfer_ready_recorded:
  assumes n: "new_recording st t" and l: "l \<in> {0, 1}" and sh: "shares (recorded t l src k osrc st) sw"
    and t: "t = strftime_ts d" "printable_tm d" and only: "\<And>c. node_at st [OUT_DIR, c] = None" and k: "int32 (int k)"
    and r: "site_ready z csk sk t sw v cw" and f: "\<And>i. i < k \<Longrightarrow> fits z sw (copied (src i))"
  shows "\<exists>ns. transfer_ready z csk sk 0 [d] l ns (\<lambda>i. copied (src (nat i))) sw v cw \<and> length ns = k \<and> set ns = int ` {..<k}"
proof -
  have w: "permissive sw" using r by (simp add: site_ready_def)
  have ts: "name_ok t" using n by (simp add: new_recording_def)
  obtain ns where ns: "recordings sw Server_Cmds.DATA_DIR [d] l ns" "distinct ns" "set ns = int ` {..<k}"
    using recording_seen [OF n l sh w t only k] by blast
  have len: "length ns = k" using distinct_card [OF ns(2)] by (simp add: ns(3) card_image)
  have "server_ready z csk 0 [d] l ns sw"
    using r ns(1) len k sh w by (auto simp: server_ready_def site_ready_def shares_def permissive_denied int32_def)
  moreover have "readable z sw (cloud_name Server_Cmds.DATA_DIR t l (int i)) (copied (src i))" if i: "i < k" for i
  proof (rule shares_readable [OF sh w f [OF i]])
    show "node_at (recorded t l src k osrc st) (OUT_DIR # drop 1 (tof_dir t l) @ [data_name (int i)]) = Some (File (copied (src i)))"
      using recorded_nodes(1) [OF n l i, of src osrc] by (simp add: target_cloud_path [OF ts] logger_path_defs)
  qed (simp add: pcomps_cloud [OF ts] tof_path_def logger_path_defs)
  moreover have "storable (fs cw) t l i" for i
    using r by (intro storable_new) (simp_all add: site_ready_def)
  ultimately have "transfer_ready z csk sk 0 [d] l ns (\<lambda>i. copied (src (nat i))) sw v cw"
    using r ns(2,3) by (simp add: transfer_ready_def site_ready_def t(1))
  with len ns(3) show ?thesis by blast
qed

text \<open>
  C2. From the flight to the ground: what a run of the logger simulator has recorded reaches the
  client. The simulator runs until its signal and returns 0; then, after one exchange for each
  point cloud and one more, the client holds under the final name of the recording each
  cloud and each of the four other files, with the content that \<open>copied\<close> leaves of the reference
  data, and the server has removed the recording and nothing else.
\<close>

theorem recording_reaches_client:
  assumes "running w \<noteq> 0" "signals w = replicate k False @ True # ss" "permissive w" "new_recording (fs w) t"
    and "sources (fs w) src m" "0 < min m k"
    and "\<And>c. c \<in> set (other_copies t l) \<Longrightarrow> node_at (fs w) (pcomps (fst c)) = Some (File (osrc (fst c)))"
    and "l = (if 50 < rand_val w mod 100 then 1 else 0)"
    and "t = strftime_ts d" "printable_tm d" "\<And>c. node_at (fs w) [OUT_DIR, c] = None"
    and "logger_main (Suc k) [prg, ''-d'', t] w = (r, w')"
    and "shares (fs w') sw" "site_ready z csk sk t sw v cw" "cuts segs"
    and "\<And>i. i < min m k \<Longrightarrow> fits z sw (copied (src i))"
    and "\<And>c. c \<in> set (other_copies t l) \<Longrightarrow> fits z sw (copied (osrc (fst c)))"
  shows "r = Ret 0 \<and> (\<exists>sw' v' cw'. (exchange z segs csk sk ^^ Suc (min m k)) (sw, v, cw) (sw', v', cw') \<and>
    (\<forall>i < min m k. node_at (fs cw') (pcomps (cloud_text (final_name t) l (int i))) = Some (File (copied (src i)))) \<and>
    (\<forall>(p, rel) \<in> set (zip (map fst (other_copies t l)) (remaining_names t l)).
       node_at (fs cw') (pcomps (dest (final_name t) rel)) = Some (File (copied (osrc p)))) \<and>
    (\<forall>p. node_at (fs sw') p = (if prefix (server_dir t) p then None else node_at (fs sw) p)))"
proof -
  let ?k = "min m k"
  have l: "l \<in> {0, 1}" using assms(8) by simp
  have k: "int32 (int ?k)" using assms(5) by (auto simp: sources_def int32_def)
  obtain w2 where "logger_main (Suc k) [prg, ''-d'', t] w = (Ret 0, w2)" "fs w2 = recorded t l src ?k osrc (fs w)"
    using logger_main_run [OF assms(1-5,7,8)] by blast
  then have ret: "r = Ret 0" and R: "fs w' = recorded t l src ?k osrc (fs w)" using assms(12) by simp_all
  note sh = assms(13) [unfolded R]
  obtain ns where ns: "transfer_ready z csk sk 0 [d] l ns (\<lambda>i. copied (src (nat i))) sw v cw" "length ns = ?k" "set ns = int ` {..<?k}"
    using transfer_ready_recorded [OF assms(4) l sh assms(9,10,11) k assms(14,16)] by blast
  define files where "files rel = (case node_at (fs w') (pcomps (OUT_DIR @ ''/'' @ rel)) of Some (File s) \<Rightarrow> s | _ \<Rightarrow> [])" for rel
  have node: "node_at (fs w') (pcomps (OUT_DIR @ ''/'' @ rel)) = Some (File (copied (osrc p)))" "files rel = copied (osrc p)"
    if "(p, rel) \<in> set (zip (map fst (other_copies t l)) (remaining_names t l))" for p rel
    using recorded_nodes(3) [OF assms(4) l remaining_source [OF that], of src ?k osrc] by (simp_all add: files_def R)
  have rem: "readable z sw (server_path rel) (files rel)" if rel: "rel \<in> set (remaining_names t l)" for rel
  proof -
    have "length (map fst (other_copies t l)) = length (remaining_names t l)" by (simp add: other_copies_def remaining_names_def Let_def)
    from in_set_impl_in_set_zip2 [OF this rel]
    obtain p where p: "(p, rel) \<in> set (zip (map fst (other_copies t l)) (remaining_names t l))" by blast
    show ?thesis
    proof (rule shares_readable [OF assms(13)])
      show "fits z sw (files rel)" using assms(17) [OF remaining_source [OF p]] by (simp add: node(2) [OF p])
      show "node_at (fs w') (OUT_DIR # pcomps rel) = Some (File (files rel))"
        using node [OF p] pcomps_out [of rel] by simp
      show "pcomps (server_path rel) = pcomps Server_Cmds.DATA_DIR @ pcomps rel"
        using pcomps_append [of Server_Cmds.DATA_DIR rel] by (simp add: server_path_def)
    qed (use assms(14) in \<open>simp add: site_ready_def\<close>)
  qed
  have ne: "ns \<noteq> []" using ns(2) assms(6) by auto
  have first: "t = strftime_ts (Min (set [d]))" by (simp add: assms(9))
  have new: "node_at (fs cw) (pcomps (active_name t)) = None" "node_at (fs cw) (pcomps (final_name t)) = None"
    using assms(14) by (simp_all add: site_ready_def)
  obtain sw' v' cw' where moved: "(exchange z segs csk sk ^^ Suc (length ns)) (sw, v, cw) (sw', v', cw')"
      "\<forall>p. node_at (fs sw') p = (if prefix (server_dir t) p then None else node_at (fs sw) p)"
      "\<forall>i \<in> set ns. node_at (fs cw') (pcomps (cloud_text (final_name t) l i)) = Some (File (copied (src (nat i))))"
      "\<forall>rel \<in> set (remaining_names t l). node_at (fs cw') (pcomps (dest (final_name t) rel)) = Some (File (files rel))"
    using recording_moved_run [OF ns(1) ne disjI1 [OF refl] assms(15) first rem new] by blast
  have "node_at (fs cw') (pcomps (dest (final_name t) rel)) = Some (File (copied (osrc p)))"
    if "(p, rel) \<in> set (zip (map fst (other_copies t l)) (remaining_names t l))" for p rel
    using moved(4) set_zip_rightD [OF that] by (simp add: node(2) [OF that])
  then show ?thesis
    using ret moved(1,2,3) ns(2,3) by (intro conjI exI [of _ sw'] exI [of _ v'] exI [of _ cw']) auto
qed

section \<open>The small logger and the small client\<close>

text \<open>The store of the logger as the server sees it.\<close>

definition mount_point :: path where
  "mount_point = [''..'', ''..'', ''data_generation'']"

definition mounted :: "store \<Rightarrow> store" where
  "mounted st = map (\<lambda>n. (take n mount_point, Dir)) [1, 2, 3] @ map (\<lambda>(p, n). (mount_point @ p, n)) st"

lemma map_of_prefixed: "map_of (map (\<lambda>(p, n). (b @ p, n)) st) (b @ q) = map_of st q"
  by (induction st) auto

lemma node_at_mounted: "q \<noteq> [] \<Longrightarrow> node_at (mounted st) (mount_point @ q) = node_at st q"
  by (simp add: node_at_def mounted_def mount_point_def map_of_prefixed [of "[''..'', ''..'', ''data_generation'']", simplified] map_add_def split: option.split)

lemma mounted_wf:
  assumes wf: "store_wf st"
  shows "store_wf (mounted st)"
proof -
  have d: "distinct (map fst st)" "[] \<notin> set (map fst st)" and up: "\<And>p. p \<in> set (map fst st) \<Longrightarrow> node_at st (butlast p) = Some Dir"
    using wf by (auto simp: store_wf_def list_all_iff)
  have keys: "map fst (mounted st) = [take 1 mount_point, take 2 mount_point, mount_point] @ map (\<lambda>p. mount_point @ p) (map fst st)"
    by (simp add: mounted_def mount_point_def split_def)
  have top: "node_at (mounted st) (take n mount_point) = Some Dir" if "n \<le> 3" for n
    using that by (auto simp: node_at_def mounted_def mount_point_def le_Suc_eq numeral_eq_Suc)
  have "node_at (mounted st) (butlast (mount_point @ p)) = Some Dir" if p: "p \<in> set (map fst st)" for p
  proof (cases "butlast p = []")
    case True
    moreover have "p \<noteq> []" using p d(2) by metis
    ultimately show ?thesis using top [of 3] by (simp add: butlast_append mount_point_def)
  next
    case False
    moreover have "p \<noteq> []" using p d(2) by metis
    ultimately show ?thesis using node_at_mounted [of "butlast p" st] up [OF p] by (simp add: butlast_append)
  qed
  moreover have "distinct (map fst (mounted st))" "[] \<notin> set (map fst (mounted st))"
    unfolding keys using d by (auto simp: distinct_map inj_on_def mount_point_def)
  moreover have "node_at (mounted st) (butlast p) = Some Dir" if "p \<in> {take 1 mount_point, take 2 mount_point, mount_point}" for p
    using that top [of 0] top [of 1] top [of 2] by (auto simp: mount_point_def node_at_def)
  ultimately show ?thesis unfolding store_wf_def list_all_iff by (auto simp: keys)
qed

lemma recorded_wf:
  assumes n: "new_recording st ts" and l: "l \<in> {0, 1}"
  shows "store_wf (recorded ts l src k osrc st)"
proof -
  have "store_wf st" using n by (simp add: new_recording_def)
  then have "store_wf (with_dirs ts l st)"
    using new_dirs_free [OF n] by (simp add: with_dirs_def new_dirs_def wf_ensure_dirs dirs_free_ensure)
  then have "store_wf (with_clouds ts l src [0..<k] (with_dirs ts l st))"
    unfolding with_clouds_def by (rule wf_put_files) (rule target_room [OF n])
  then show ?thesis
    unfolding recorded_def with_copies_def
  proof (rule wf_put_files)
    show "room (with_clouds ts l src [0..<k] (with_dirs ts l st)) (pcomps (snd c))" if "c \<in> set (other_copies ts l)" for c
      unfolding with_clouds_def by (rule room_put_files [OF target_room [OF n] other_rooms [OF n that]])
  qed
qed

lemma small_site_ready:
  assumes "fs sw = st" "sw = plain_world\<lparr>fs := st\<rparr>"
  shows "site_ready stored_zlib 4 4 ''20230102-083000'' sw (tt_uninit small_client) small_client"
proof -
  have "malloc_max sw = 1000000" "permissive sw" "no_stale_error sw" "tx_clean 4 sw" "proc_lines sw LOGGER_NAME []"
    by (simp_all add: assms(2) plain_world_defs permissive_def no_stale_error_def tx_clean_def proc_lines_def LOGGER_NAME_def)
  then show ?thesis
    using small_client_ready stored_zlib_ok by (simp add: site_ready_def site_names store_wf_def node_at_def)
qed

theorem recording_reaches_client_witness:
  "\<exists>w' sw' v' cw'. logger_main 4 [''voxl-logger'', ''-d'', ''20230102-083000''] small_logger = (Ret 0, w') \<and>
     (exchange stored_zlib (map (\<lambda>c. [c])) 4 4 ^^ 3) (plain_world\<lparr>fs := mounted (fs w')\<rparr>, tt_uninit small_client, small_client) (sw', v', cw') \<and>
     node_at (fs cw') (pcomps (cloud_text (final_name ''20230102-083000'') 1 0)) = Some (File ''ab'')"
proof -
  let ?t = "''20230102-083000''" and ?src = "\<lambda>i :: nat. if i = 0 then ''ab'' else [CHR ''c'', NUL, CHR ''d'', nl, CHR ''e'']"
  obtain r w' where run: "logger_main (Suc 3) [''voxl-logger'', ''-d'', ?t] small_logger = (r, w')" by (metis surj_pair)
  have s: "signals small_logger = replicate 3 False @ True # []" by (simp add: numeral_eq_Suc)
  note small = small_logger_ready(1,2) small_logger_ready(3) [of _ ?t 1]
  obtain w2 where "logger_main (Suc 3) [''voxl-logger'', ''-d'', ?t] small_logger = (Ret 0, w2)"
      "fs w2 = recorded ?t 1 ?src (min 2 3) (\<lambda>_. ''k'') logger_store"
    using logger_main_run [OF _ s, of ?t ?src 2 1 "\<lambda>_. ''k''" "''voxl-logger''"] small by auto
  then have st: "store_wf (fs w')" using run recorded_wf [OF small(1), of 1] by simp
  let ?sw = "plain_world\<lparr>fs := mounted (fs w')\<rparr>"
  have "pcomps Server_Cmds.DATA_DIR = mount_point @ [OUT_DIR]"
    by (simp add: Server_Cmds.DATA_DIR_def pcomps_def mount_point_def OUT_DIR_def)
  then have sh: "shares (fs w') ?sw"
    using mounted_wf [OF st] node_at_mounted [of "OUT_DIR # q" "fs w'" for q] by (simp add: shares_def fs_ok_def)
  have c: "copied ''ab'' = ''ab''" "copied ''k'' = ''k''" by (rule copied_nul_free, simp add: nul_free_def NUL_def)+
  have mm: "malloc_max ?sw = 1000000" by (simp add: plain_world_def)
  have t: "?t = strftime_ts demo_time" "printable_tm demo_time" using demo_printable by (simp_all add: demo_texts)
  have only: "node_at (fs small_logger) [OUT_DIR, c] = None" for c
    by (simp add: logger_store_def node_at_def OUT_DIR_def)
  have segs: "cuts (map (\<lambda>c. [c]))" by (auto simp: cuts_def)
  have fit: "fits stored_zlib ?sw (copied (?src i))" for i
    using mm by (simp add: fits_def c copied_zero_byte stored_zlib_def)
  have fit2: "fits stored_zlib ?sw (copied ''k'')" using mm by (simp add: fits_def c stored_zlib_def)
  have "r = Ret 0 \<and> (\<exists>sw' v' cw'. (exchange stored_zlib (map (\<lambda>c. [c])) 4 4 ^^ Suc (min 2 3))
        (?sw, tt_uninit small_client, small_client) (sw', v', cw') \<and>
      (\<forall>i < min 2 3. node_at (fs cw') (pcomps (cloud_text (final_name ?t) 1 (int i))) = Some (File (copied (?src i)))) \<and>
      (\<forall>(p, rel) \<in> set (zip (map fst (other_copies ?t 1)) (remaining_names ?t 1)).
         node_at (fs cw') (pcomps (dest (final_name ?t) rel)) = Some (File (copied ''k''))) \<and>
      (\<forall>p. node_at (fs sw') p = (if prefix (server_dir ?t) p then None else node_at (fs ?sw) p)))"
    by (rule recording_reaches_client [where ?osrc = "\<lambda>_. ''k''", OF _ s _ _ _ _ _ _ t only run sh small_site_ready segs fit fit2])
      (use small in simp_all)
  then obtain sw' v' cw' where "r = Ret 0" "(exchange stored_zlib (map (\<lambda>c. [c])) 4 4 ^^ Suc (min 2 3))
        (?sw, tt_uninit small_client, small_client) (sw', v', cw')"
      and cl: "\<forall>i < min 2 3. node_at (fs cw') (pcomps (cloud_text (final_name ?t) 1 (int i))) = Some (File (copied (?src i)))" by blast
  moreover have "node_at (fs cw') (pcomps (cloud_text (final_name ?t) 1 0)) = Some (File ''ab'')"
    using cl [rule_format, of 0] by (simp add: c(1))
  moreover have "Suc (min 2 3) = 3" "Suc 3 = 4" by simp_all
  ultimately show ?thesis using run by (intro exI [of _ w'] exI [of _ sw'] exI [of _ v'] exI [of _ cw']) (auto simp del: relpowp.simps)
qed

end
