(* ===== verification/Spec2Isabelle.thy ===== *)
theory Spec2Isabelle
  imports Main_Props Site_Props
begin

text \<open>
  A verification library for the remote control of a LIDAR on a drone, written in C.

  \<^bold>\<open>The program.\<close> Three programs and a few shell scripts work together.

    \<^item> The \<^emph>\<open>server\<close> (\<open>src/app/server\<close>) runs on the drone. \<open>server.c\<close> accepts connections and forks a
      child for each; the child reads command lines (\<open>STATUS\<close>, \<open>START\<close>, \<open>STOP\<close>, \<open>SEND_NEXT\<close>,
      \<open>SEND_FILE\<close>, \<open>REMOVE_FILE\<close>, \<open>REMOVE_DIR\<close>, \<open>CLOSE\<close>) and calls the function of \<open>server_lib.c\<close> for each.
    \<^item> The \<^emph>\<open>client\<close> (\<open>src/app/client\<close>) has two threads. The main thread (\<open>client.c\<close>) polls the status
      of the logger and sends what the user asks for with a key; \<open>transmission_thread\<close> of
      \<open>client_lib.c\<close> fetches the recordings, one point cloud per request, removes from the server
      what it has stored, and renames the local directory at the end. The threads share
      \<open>thread_data\<close>, its mutex and a log file. \<open>io_lib.c\<close> is the screen.
    \<^item> The \<^emph>\<open>logger\<close> writes the recordings the server sends. \<open>src/data_generation\<close> has a simulator of
      it, \<open>voxl-logger.c\<close> with \<open>voxl-logger_lib.c\<close>, which copies reference data into the directories
      of a new recording until a signal stops it.
    \<^item> They share \<open>src/app/common\<close>: \<open>common_lib.c\<close> (the buffered reader of a connection and
      \<open>tcp_readline\<close>), \<open>compression_lib.c\<close> (files through zlib) and \<open>tcpsocketlib.c\<close>, of which
      \<open>app/client\<close> and \<open>app/server\<close> hold identical copies.

  \<^bold>\<open>How a C function is modelled.\<close> A function that only computes is a HOL function on \<open>string\<close>
  (8-bit characters), \<open>int\<close> and records. Any other is a \<open>prog\<close> of \<open>C_Prelude\<close>: from a world to
  an \<open>outcome\<close> and a new world. The outcomes are a returned value, \<open>exit\<close>, \<open>pthread_exit\<close>, death by
  a signal, undefined behaviour of a named kind, \<open>Blocked\<close> (a thread waits for a mutex that it
  holds itself), and \<open>Still_Running\<close> (the fuel of a loop is used up). Arrays are strings of their
  declared size, with every write past the end an outcome \<open>Undef Buf_Overflow\<close>; an \<open>int\<close> read from
  text wraps to 32 bits (\<open>wrap_int\<close>). What the environment decides is a field of the world,
  over which the theorems quantify: the bytes and the errors of each \<open>read\<close> and \<open>write\<close>, the
  results of \<open>accept\<close>, \<open>fork\<close>, \<open>connect\<close> and \<open>pthread_create\<close>, denied file operations, what a shell
  command does to processes and files, memory, clock and time zone, the content of uninitialised objects, and whether \<open>char\<close> is signed.
\<close>

section \<open>The theories and the code they model\<close>

text \<open>
  The C environment. \<open>C_Prelude\<close>: outcomes, programs, the collections \<open>run_simps\<close> and
  \<open>frame_intros\<close>. \<open>C_Strings\<close>: \<open>strcmp\<close>, \<open>strncpy\<close>, \<open>snprintf\<close>, \<open>sscanf\<close>, \<open>atoi\<close>, \<open>fgets\<close>.
  \<open>Calendar\<close>: \<open>strptime\<close>, \<open>mktime\<close>, \<open>strftime\<close>, with \<open>tm\<close> as a linear order. \<open>File_System\<close> and
  \<open>File_Rename\<close>: paths, the store of files and directories, \<open>rename\<close>. \<open>Os_World\<close>: the record
  \<open>world\<close> and the system calls. \<open>Make_Path\<close>: the loop of \<open>MakePath\<close>, of which \<open>client_lib.c\<close> and
  \<open>voxl-logger_lib.c\<close> have a copy each.

  The shared libraries. \<open>Tcp_Socket\<close>: \<open>tcpsocketlib.c\<close>. \<open>Common_Lib\<close>: \<open>common_lib.c\<close> and the records
  of \<open>common_lib.h\<close>. \<open>Compression\<close>: \<open>compression_lib.c\<close>.

  The server. \<open>Server_Find\<close>: \<open>ExtractFileNumber\<close>, \<open>StringToTime\<close>, \<open>FindNextFile\<close>, \<open>FindFirstDir\<close>,
  \<open>DirExists\<close>, \<open>FindLidarDataInfo\<close>, \<open>FindNextTr\<close>. \<open>Server_Cmds\<close>: \<open>ProcNumber\<close>, \<open>Status\<close>, \<open>Start\<close>, \<open>Stop\<close>,
  \<open>CompressAndSend\<close>, \<open>SendNext\<close>, \<open>SendFile\<close>, \<open>RemoveFile\<close>, \<open>unlink_cb\<close>, \<open>rmrf\<close>, \<open>RemoveDir\<close>.
  \<open>Server_Main\<close>: \<open>server_handler\<close> and \<open>main\<close> of \<open>server.c\<close>.

  The client. \<open>Client_World\<close>: \<open>thread_data\<close>, the mutex, \<open>PrintLog\<close>, \<open>TimestampString\<close>,
  \<open>ExitTransmissionThread\<close>. \<open>Client_IO\<close>: \<open>io_lib.c\<close>. \<open>Client_Lib\<close>: the binary reader,
  \<open>ReceiveAndDecompress\<close>, \<open>TcpSendReceiveTT\<close>, \<open>RequestFile\<close>, \<open>CreateTransmissionDir\<close>,
  \<open>RequestAllReaminingFiles\<close>. \<open>Client_Thread\<close>: \<open>transmission_thread\<close>, its local variables in
  \<open>tt_vars\<close>, one definition per branch. \<open>Client_Main\<close>: \<open>ExitMainThread\<close>, \<open>TcpSendReceiveMT\<close>,
  \<open>CreateTransmissionThread\<close>, \<open>Connect\<close> and \<open>main\<close>, with the variables of \<open>main\<close> in \<open>main_vars\<close>.

  The logger. \<open>Logger\<close>: \<open>voxl-logger.c\<close> and \<open>voxl-logger_lib.c\<close>.
\<close>

section \<open>Interfaces\<close>

text \<open>
  \<open>file_store\<close> (\<open>File_System\<close>): what a lookup returns after an update or a removal, and that both
  keep the parents of every node directories; \<open>st\<close> is the association list of the model. The
  recursive removal of a directory is proved in it.

  \<open>byte_source\<close> (\<open>Common_Lib\<close>): a function that returns the pending bytes one at a time;
  reading a line, or a block of known size, is proved in it. Its extension \<open>closing_source\<close> also
  says what comes after the last byte. \<open>line_source\<close> is \<open>tcp_getchar_bs\<close> on a connection without
  errors, \<open>error_source\<close> the same function when reads fail, and \<open>binary_source\<close> (\<open>Client_Spec\<close>) is
  the reader of \<open>client_lib.c\<close>, which also reads zero bytes.

  \<open>extremum_scan\<close> (\<open>Server_Find\<close>): one pass over the entries of a directory that keeps the
  smallest and the largest key and counts them. \<open>file_scan\<close> is \<open>FindNextFile\<close> on file
  numbers, \<open>dir_scan\<close> is \<open>FindFirstDir\<close> on times.

  \<open>server_frame\<close> and its extension \<open>acting_frame\<close> (\<open>Server_Frames\<close>): a part of the world which no
  primitive of the answering commands, or of any command, touches; then no such command does.
  \<open>conn_frame\<close> is the state of the connection, \<open>shell_frame\<close> the effect of the scripts, \<open>fs_frame\<close> the
  file store and \<open>path_frame\<close> the store at one path.
\<close>

section \<open>What the lemmas show\<close>

text \<open>
  \<open>Common_Lib\<close>, \<open>Compression\<close>: \<open>tcp_readline\<close> delivers one line however the bytes arrive, and
  what it does at a close, an error and a full array; \<open>compressor\<close> and \<open>decompressor\<close> are inverse
  and account for their memory.

  \<open>Server_Spec\<close>, \<open>Server_Effects\<close>, \<open>Server_Props\<close>: \<open>next_reply\<close> says on the level of recordings what
  should be sent next, and \<open>SendNext\<close> refines it; \<open>server_loop\<close> is equivalent to the commands one
  by one (\<open>serve_all\<close>); the effect of starting, stopping and removing is given exactly, and the
  footprint of every command on the files also when it fails; after its client has gone
  without CLOSE a child answers empty commands until SIGPIPE kills it.

  \<open>Client_Spec\<close>, \<open>Client_Store\<close>, \<open>Client_Round\<close>, \<open>Client_Finish\<close>: \<open>talk\<close> says what a run of the thread
  may change besides the files and its connection; with it, the directories made for a
  recording, one round of the loop for each answer of the server, and the end of a recording.
  \<open>Client_Ends\<close>, \<open>Client_Props\<close>: \<open>ends\<close> says how the thread may end, in any world; it is proved for
  every function by one rule per program construct. \<open>Main_Props\<close>: commands, restarts and
  ends of the main thread. \<open>Logger_Props\<close>: a whole run of the simulator; what a copy keeps of a
  file is said byte by byte (\<open>copied\<close>), apart from the loop of \<open>fgets\<close> and \<open>fputs\<close> that makes it.

  \<open>Exchange\<close>, \<open>Transfer_Clouds\<close>, \<open>Transfer_End\<close>, \<open>Transfer_Props\<close>: server and client composed. The
  relation \<open>exchange\<close> runs one round of the thread against a server that serves the lines the
  thread writes; what the server sends is what the thread reads, cut into reads of any
  size. By induction on the number of point clouds a whole recording moves from the
  drone to the client. \<open>Site_Props\<close> puts the logger in front: what a run of the simulator leaves
  in the store that it shares with the server (\<open>shares\<close>) is a recording ready for the transfer.

  Loops. \<open>readline_loop\<close>, \<open>make_path_loop\<close>, \<open>copy_loop\<close>, \<open>getopt_scan\<close>, \<open>vformat\<close>, \<open>sformat\<close> and
  \<open>fgets_pieces\<close> have termination proofs by a measure. The walk of \<open>nftw\<close> takes the depth of the
  store as fuel, one unit per level; the proofs of \<open>rmrf\<close> show that it suffices. Eight loops need not end in the code, since the other
  side or the user decides, and take fuel: \<open>accept_loop\<close> (one unit per connection),
  \<open>server_loop\<close> (per command line), \<open>tt_wait\<close> (per \<open>WAIT\<close>), \<open>tt_loop\<close> (per round), \<open>connect_loop\<close> (per
  attempt), \<open>client_session\<close> and \<open>client_loop\<close> (per turn and per session), \<open>generate\<close> (per point
  cloud or second of waiting). Running out is the outcome \<open>Still_Running\<close>, never a result. The
  theorems fix enough: the number of lines for a session, one for each exchange, more than the
  number of turns before the signal for the logger, and one for a thread told to stop.
\<close>

section \<open>Not modelled\<close>

text \<open>
  zlib is not in the repository: it is the parameter \<open>zlib\<close>, with the law \<open>zlib_ok\<close> (what
  \<open>compress\<close> writes, within \<open>compressBound\<close>, \<open>uncompress\<close> restores) where a theorem needs it;
  \<open>stored_zlib\<close> satisfies it. The shell scripts are \<open>shell_cmd\<close> and \<open>shell_fs\<close>, the effect of
  a command line on the process table and on the files by the time \<open>system\<close> returns, arbitrary
  functions in every theorem; what a program left running in the background writes while the
  server works is not modelled (\<open>Site_Props\<close> takes the store the logger leaves at its end). Curses is the sequence of its calls. \<open>mktime\<close> for other time zones than
  the fixed one is the field \<open>mk_time\<close>.

  The file store has no permissions (a denied operation is a decision of the environment),
  no links, and takes \<open>.\<close> and \<open>..\<close> for names like any other; a relative path starts at the
  root of the store, which stands for the working directory. Counters of the code that only
  count entries or rounds are unbounded integers. A read after the last scripted byte is a
  closed connection, not one that waits. The threads of the client are not interleaved
  instruction by instruction: each is a program of its own, and what the other writes
  meanwhile to the fields it reads, \<open>running\<close> and \<open>status\<close>, is a script of the world. The disposition
  of \<open>SIGCHLD\<close>, \<open>setvbuf\<close> and the empty \<open>server_handler\<close> of \<open>client.c\<close>, which nothing calls,
  have no effect in the model. The second and third copy of \<open>tcpsocketlib.c\<close> are the same code.
\<close>

end
